(* ===== verification/Prelude.thy ===== *)
theory Prelude
  imports Main "HOL-Library.AList" "HOL-Library.Multiset"
begin

text \<open>
  Shared vocabulary of the development: the Python built-ins on strings and lists that
  \<open>src/backup.py\<close> relies on (slicing with Python's index rules, \<open>str.startswith\<close>,
  \<open>str.endswith\<close>, \<open>str.rfind\<close>, \<open>str.rstrip\<close>, \<open>str.split\<close>, \<open>str.join\<close>), with
  the generic lemmas the component theories share. Python strings are byte strings here:
  \<open>string\<close> is \<open>char list\<close>. The collection \<open>py_simps\<close> gathers the evaluation
  rules of these built-ins.
\<close>

named_theorems py_simps "evaluation rules of the Python built-ins"

section \<open>Slicing\<close>

text \<open>
  Python normalises a slice bound \<open>i\<close> of a sequence of length \<open>n\<close>: a negative
  bound counts from the end (\<open>n + i\<close>), and the result is clamped to \<open>[0, n]\<close>.
\<close>

definition py_index :: "nat \<Rightarrow> int \<Rightarrow> nat" where
  "py_index n i = (if i < 0 then nat (max 0 (int n + i)) else min n (nat i))"

text \<open>\<open>xs[:j]\<close> and \<open>xs[i:]\<close>.\<close>

definition py_take :: "int \<Rightarrow> 'a list \<Rightarrow> 'a list" where
  "py_take j xs = take (py_index (length xs) j) xs"

definition py_drop :: "int \<Rightarrow> 'a list \<Rightarrow> 'a list" where
  "py_drop i xs = drop (py_index (length xs) i) xs"

lemma py_index_le [simp]: "py_index n i \<le> n"
  by (simp add: py_index_def nat_le_iff)

lemma py_index_neg:
  "i < 0 \<Longrightarrow> py_index n i = n - nat (- i)"
  by (simp add: py_index_def)

lemma py_index_nonneg:
  "0 \<le> i \<Longrightarrow> py_index n i = min n (nat i)"
  by (simp add: py_index_def)

lemma py_take_neg [py_simps]:
  "0 < k \<Longrightarrow> py_take (- int k) xs = take (length xs - k) xs"
  by (simp add: py_take_def py_index_neg)

lemma py_take_zero [py_simps]: "py_take 0 xs = []"
  by (simp add: py_take_def py_index_def)

lemma py_take_nonneg [py_simps]:
  "0 \<le> j \<Longrightarrow> py_take j xs = take (nat j) xs"
  by (simp add: py_take_def py_index_nonneg min_def)

lemma py_drop_nonneg [py_simps]:
  "0 \<le> i \<Longrightarrow> py_drop i xs = drop (nat i) xs"
  by (simp add: py_drop_def py_index_nonneg min_def)

section \<open>String methods\<close>

definition py_startswith :: "string \<Rightarrow> string \<Rightarrow> bool" where
  "py_startswith p s \<longleftrightarrow> take (length p) s = p"

definition py_endswith :: "string \<Rightarrow> string \<Rightarrow> bool" where
  "py_endswith p s \<longleftrightarrow> length p \<le> length s \<and> drop (length s - length p) s = p"

lemma py_startswith_append [simp]: "py_startswith p (p @ s)"
  by (simp add: py_startswith_def)

lemma py_endswith_append [simp]: "py_endswith p (s @ p)"
  by (simp add: py_endswith_def)

lemma py_startswith_iff: "py_startswith p s \<longleftrightarrow> (\<exists>r. s = p @ r)"
  by (metis append_eq_conv_conj py_startswith_def)

lemma py_endswith_iff: "py_endswith p s \<longleftrightarrow> (\<exists>r. s = r @ p)"
proof
  assume "py_endswith p s"
  then have "s = take (length s - length p) s @ p"
    by (metis append_take_drop_id py_endswith_def)
  then show "\<exists>r. s = r @ p" ..
next
  assume "\<exists>r. s = r @ p"
  then show "py_endswith p s" by auto
qed

text \<open>
  \<open>s.rfind(c)\<close> for a one-character needle: the index of the last occurrence of
  \<open>c\<close>, or \<open>-1\<close>.
\<close>

fun py_rfind_acc :: "char \<Rightarrow> string \<Rightarrow> int \<Rightarrow> int \<Rightarrow> int" where
  "py_rfind_acc c [] i r = r"
| "py_rfind_acc c (x # xs) i r = py_rfind_acc c xs (i + 1) (if x = c then i else r)"

definition py_rfind :: "char \<Rightarrow> string \<Rightarrow> int" where
  "py_rfind c s = py_rfind_acc c s 0 (- 1)"

lemma py_rfind_acc_notin:
  "c \<notin> set xs \<Longrightarrow> py_rfind_acc c xs i r = r"
  by (induction xs arbitrary: i r) auto

lemma py_rfind_acc_append_notin:
  "c \<notin> set ys \<Longrightarrow>
   py_rfind_acc c (xs @ c # ys) i r = i + int (length xs)"
proof (induction xs arbitrary: i r)
  case Nil
  then show ?case by (simp add: py_rfind_acc_notin)
next
  case (Cons x xs)
  then show ?case by simp
qed

lemma py_rfind_last [py_simps]:
  "c \<notin> set ys \<Longrightarrow> py_rfind c (xs @ c # ys) = int (length xs)"
  by (simp add: py_rfind_def py_rfind_acc_append_notin)

lemma py_rfind_notin [py_simps]: "c \<notin> set s \<Longrightarrow> py_rfind c s = - 1"
  by (simp add: py_rfind_def py_rfind_acc_notin)

text \<open>\<open>s.rstrip(c)\<close>: remove every trailing \<open>c\<close>.\<close>

definition py_rstrip :: "char \<Rightarrow> string \<Rightarrow> string" where
  "py_rstrip c s = rev (dropWhile (\<lambda>x. x = c) (rev s))"

text \<open>\<open>s.split(c)\<close>: the pieces between occurrences of \<open>c\<close>, empty ones included.\<close>

fun py_split :: "char \<Rightarrow> string \<Rightarrow> string list" where
  "py_split c [] = [[]]"
| "py_split c (x # xs) =
     (if x = c then [] # py_split c xs
      else (case py_split c xs of p # ps \<Rightarrow> (x # p) # ps | [] \<Rightarrow> [[x]]))"

text \<open>\<open>c.join(ps)\<close>.\<close>

fun py_join :: "string \<Rightarrow> string list \<Rightarrow> string" where
  "py_join sep [] = []"
| "py_join sep [p] = p"
| "py_join sep (p # ps) = p @ sep @ py_join sep ps"

lemma py_split_nonempty [simp]: "py_split c s \<noteq> []"
  by (induction s) (auto split: list.split)

lemma py_split_notin: "c \<notin> set s \<Longrightarrow> py_split c s = [s]"
  by (induction s) auto

lemma py_split_append_sep:
  "py_split c (xs @ c # ys) = py_split c xs @ py_split c ys"
proof (induction xs)
  case Nil
  then show ?case by simp
next
  case (Cons x xs)
  then show ?case
    by (cases "py_split c xs") (auto split: list.split)
qed

section \<open>Lists\<close>

text \<open>Facts on \<open>take\<close> and \<open>drop\<close> the retention proofs share.\<close>

lemma last_notin_take: "distinct xs \<Longrightarrow> j < length xs \<Longrightarrow> last xs \<notin> set (take j xs)"
proof
  assume d: "distinct xs" and j: "j < length xs" and l: "last xs \<in> set (take j xs)"
  then obtain i where i: "i < j" "xs ! i = last xs" by (auto simp: in_set_conv_nth)
  have "xs \<noteq> []" using j by auto
  then have "last xs = xs ! (length xs - 1)" by (simp add: last_conv_nth)
  with i j d have "i = length xs - 1" by (simp add: nth_eq_iff_index_eq)
  with i j show False by simp
qed

lemma set_take_drop_disjoint:
  "distinct xs \<Longrightarrow> set (take n xs) \<inter> set (drop n xs) = {}"
  by (metis append_take_drop_id distinct_append)


section \<open>Work lists\<close>

text \<open>
  Induction over a work list whose head is replaced by items of smaller measure: the
  shape of the directory walks of \<open>os.walk\<close> and \<open>tarfile\<close>, which visit a directory
  and then its sub-directories before the rest. The multiset of the measures decreases.
\<close>

lemma worklist_induct [case_names Dec Nil Step]:
  fixes f :: "'a \<Rightarrow> nat" and sub :: "'a \<Rightarrow> 'a list"
  assumes dec: "\<And>x y. y \<in> set (sub x) \<Longrightarrow> f y < f x"
    and nil: "P []" and step: "\<And>x rest. P (sub x @ rest) \<Longrightarrow> P (x # rest)"
  shows "P xs"
proof (induction xs rule: wf_induct_rule [OF wf_inv_image [OF wf_mult [OF wf_less_than]],
      of "\<lambda>ts. mset (map f ts)"])
  case (1 xs)
  show ?case
  proof (cases xs)
    case Nil
    then show ?thesis using nil by simp
  next
    case (Cons x rest)
    have "(mset (map f rest) + mset (map f (sub x)), mset (map f rest) + {#f x#}) \<in> mult less_than"
      using dec by (intro one_step_implies_mult) auto
    then have "P (sub x @ rest)" using 1 Cons by (simp add: add.commute)
    with Cons show ?thesis by (simp add: step)
  qed
qed

end
