(* ===== verification/PosixPath.thy ===== *)
theory PosixPath
  imports Prelude
begin

text \<open>
  The string operations of Python's \<open>posixpath\<close> module (CPython 3.11) that
  \<open>src/backup.py\<close> calls: \<open>os.path.join\<close> (two arguments), \<open>os.path.split\<close>,
  \<open>os.path.basename\<close>, \<open>os.path.dirname\<close>, \<open>os.path.splitext\<close> and
  \<open>os.path.normpath\<close>. They are pure functions on strings; each definition follows the
  library's code statement by statement. The lemmas give the shapes the backup script
  produces: joining a plain name onto a directory, the temporary-archive name, and the
  base name of a normalised path.
\<close>

section \<open>join, split, basename, dirname\<close>

definition path_join :: "string \<Rightarrow> string \<Rightarrow> string" where
  "path_join a b =
     (if py_startswith ''/'' b then b
      else if a = [] \<or> py_endswith ''/'' a then a @ b
      else a @ ''/'' @ b)"

definition path_split :: "string \<Rightarrow> string \<times> string" where
  "path_split p =
     (let i = py_rfind CHR ''/'' p + 1;
          head = py_take i p; tail = py_drop i p
      in (if head \<noteq> [] \<and> head \<noteq> replicate (length head) CHR ''/''
          then py_rstrip CHR ''/'' head else head, tail))"

definition basename :: "string \<Rightarrow> string" where
  "basename p = py_drop (py_rfind CHR ''/'' p + 1) p"

definition dirname :: "string \<Rightarrow> string" where
  "dirname p = fst (path_split p)"

section \<open>splitext\<close>

text \<open>
  \<open>genericpath._splitext\<close>: the extension starts at the last dot after the last slash,
  unless every character between that slash and the dot is a dot (leading dots of a
  file name do not start an extension).
\<close>

definition splitext :: "string \<Rightarrow> string \<times> string" where
  "splitext p =
     (let sepIndex = py_rfind CHR ''/'' p; dotIndex = py_rfind CHR ''.'' p
      in if dotIndex > sepIndex
            \<and> list_ex (\<lambda>c. c \<noteq> CHR ''.'')
                (take (nat dotIndex - nat (sepIndex + 1)) (drop (nat (sepIndex + 1)) p))
         then (py_take dotIndex p, py_drop dotIndex p)
         else (p, []))"

section \<open>normpath\<close>

text \<open>One iteration of the loop over the components in \<open>posixpath.normpath\<close>.\<close>

definition norm_step :: "bool \<Rightarrow> string list \<Rightarrow> string \<Rightarrow> string list" where
  "norm_step initial new_comps cmp =
     (if cmp = [] \<or> cmp = ''.'' then new_comps
      else if cmp \<noteq> ''..'' \<or> (\<not> initial \<and> new_comps = [])
              \<or> (new_comps \<noteq> [] \<and> last new_comps = ''..'')
      then new_comps @ [cmp]
      else if new_comps \<noteq> [] then butlast new_comps
      else new_comps)"

definition normpath :: "string \<Rightarrow> string" where
  "normpath path =
     (if path = [] then ''.''
      else
        let initial_slashes =
              (if py_startswith ''/'' path
               then (if py_startswith ''//'' path \<and> \<not> py_startswith ''///'' path then 2 else 1)
               else 0 :: nat);
            comps = foldl (norm_step (initial_slashes \<noteq> 0)) [] (py_split CHR ''/'' path);
            p = replicate initial_slashes CHR ''/'' @ py_join ''/'' comps
        in if p = [] then ''.'' else p)"

section \<open>Lemmas\<close>

lemma path_join_plain [simp]:
  "b \<noteq> [] \<Longrightarrow> hd b \<noteq> CHR ''/'' \<Longrightarrow> a \<noteq> [] \<Longrightarrow> \<not> py_endswith ''/'' a \<Longrightarrow>
   path_join a b = a @ ''/'' @ b"
  by (cases b) (auto simp: path_join_def py_startswith_def)

lemma basename_snoc_name:
  "CHR ''/'' \<notin> set n \<Longrightarrow> basename (d @ CHR ''/'' # n) = n"
proof -
  assume n: "CHR ''/'' \<notin> set n"
  then have "py_rfind CHR ''/'' (d @ CHR ''/'' # n) = int (length d)"
    by (rule py_rfind_last)
  then show ?thesis by (simp add: basename_def py_drop_nonneg nat_add_distrib)
qed

lemma basename_plain:
  "CHR ''/'' \<notin> set n \<Longrightarrow> basename n = n"
  by (simp add: basename_def py_rfind_notin py_drop_nonneg)

text \<open>
  The name of the temporary archive, \<open>dest + ".temp.tar"\<close>: \<open>splitext\<close> cuts off
  exactly the final \<open>".tar"\<close>, whatever \<open>dest\<close> is, because the component before
  that dot contains \<open>"temp"\<close>.
\<close>

lemma splitext_temp_tar:
  "splitext (d @ ''.temp.tar'') = (d @ ''.temp'', ''.tar'')"
proof -
  let ?p = "d @ ''.temp.tar''"
  have dot: "py_rfind CHR ''.'' ?p = int (length d) + 5"
    using py_rfind_last [of "CHR ''.''" "''tar''" "d @ ''.temp''"] by simp
  show ?thesis
  proof (cases "CHR ''/'' \<in> set d")
    case False
    then have sep: "py_rfind CHR ''/'' ?p = - 1" by (simp add: py_rfind_notin)
    have "list_ex (\<lambda>c. c \<noteq> CHR ''.'') (take (length d + 5) ?p)"
      by (simp add: list_ex_iff)
    with dot sep show ?thesis
      by (simp add: splitext_def py_take_nonneg py_drop_nonneg nat_add_distrib)
  next
    case True
    then obtain a b where d: "d = a @ CHR ''/'' # b" and b: "CHR ''/'' \<notin> set b"
      using split_list_last by metis
    then have sep: "py_rfind CHR ''/'' ?p = int (length a)"
      using py_rfind_last [of "CHR ''/''" "b @ ''.temp.tar''" a] by simp
    have "list_ex (\<lambda>c. c \<noteq> CHR ''.'')
            (take (length b + 5) (b @ ''.temp.tar''))"
      by (simp add: list_ex_iff)
    with dot sep d show ?thesis
      by (simp add: splitext_def py_take_nonneg py_drop_nonneg nat_add_distrib
          take_Cons' drop_Cons')
  qed
qed

lemma py_rstrip_snoc:
  "xs \<noteq> [] \<Longrightarrow> last xs \<noteq> c \<Longrightarrow> py_rstrip c (xs @ [c]) = xs"
  by (induction xs rule: rev_induct) (auto simp: py_rstrip_def)

lemma path_split_dir_name:
  assumes d: "d \<noteq> []" "\<not> py_endswith ''/'' d" and b: "CHR ''/'' \<notin> set b"
  shows "path_split (d @ CHR ''/'' # b) = (d, b)"
proof -
  have r: "py_rfind CHR ''/'' (d @ CHR ''/'' # b) = int (length d)"
    using b by (rule py_rfind_last)
  have ld: "last d \<noteq> CHR ''/''"
    using d by (metis append_butlast_last_id py_endswith_append)
  have nrep: "d @ [CHR ''/''] \<noteq> replicate (Suc (length d)) CHR ''/''"
  proof
    assume eq: "d @ [CHR ''/''] = replicate (Suc (length d)) CHR ''/''"
    have "last d \<in> set (d @ [CHR ''/''])" using d(1) by simp
    then have "last d = CHR ''/''" by (simp only: eq) auto
    with ld show False by simp
  qed
  have "py_take (int (length d) + 1) (d @ CHR ''/'' # b) = d @ [CHR ''/'']"
    by (simp add: py_take_nonneg nat_add_distrib take_Cons')
  moreover have "py_drop (int (length d) + 1) (d @ CHR ''/'' # b) = b"
    by (simp add: py_drop_nonneg nat_add_distrib)
  ultimately show ?thesis
    using r nrep d ld by (simp add: path_split_def Let_def py_rstrip_snoc)
qed

lemma dirname_length: "length (dirname p) \<le> length p"
  by (simp add: dirname_def path_split_def Let_def py_take_def py_rstrip_def
      length_dropWhile_le [THEN order_trans])

lemma dirname_prefix: "\<exists>r. p = dirname p @ r"
proof -
  let ?i = "py_rfind CHR ''/'' p + 1"
  let ?h = "py_take ?i p"
  have h: "\<exists>r. p = ?h @ r" by (metis append_take_drop_id py_take_def)
  have "\<exists>r. ?h = py_rstrip CHR ''/'' ?h @ r"
    by (metis append_take_drop_id py_rstrip_def rev_append rev_rev_ident takeWhile_dropWhile_id)
  with h have "\<exists>r. p = py_rstrip CHR ''/'' ?h @ r"
    by (metis append.assoc)
  with h show ?thesis
    by (auto simp: dirname_def path_split_def Let_def)
qed

lemma dirname_shorter: "dirname p \<noteq> p \<Longrightarrow> length (dirname p) < length p"
  using dirname_prefix [of p] by (metis append.right_neutral length_append less_add_same_cancel1
      length_greater_0_conv nat_less_le)

lemma path_split_shorter: "snd (path_split p) \<noteq> [] \<Longrightarrow> length (fst (path_split p)) < length p"
proof -
  assume t: "snd (path_split p) \<noteq> []"
  let ?i = "py_rfind CHR ''/'' p + 1"
  have "length (py_take ?i p) + length (py_drop ?i p) = length p"
    by (simp add: py_take_def py_drop_def py_index_le)
  moreover have "length (fst (path_split p)) \<le> length (py_take ?i p)"
    by (simp add: path_split_def Let_def py_rstrip_def length_dropWhile_le [THEN order_trans])
  moreover have "0 < length (py_drop ?i p)" using t by (simp add: path_split_def Let_def)
  ultimately show ?thesis by linarith
qed


lemma dirname_plain: "CHR ''/'' \<notin> set p \<Longrightarrow> dirname p = []"
  by (simp add: dirname_def path_split_def py_rfind_notin py_take_def py_drop_def py_index_def)


lemma basename_no_slash: "CHR ''/'' \<notin> set (basename p)"
proof (cases "CHR ''/'' \<in> set p")
  case True
  then obtain a b where "p = a @ CHR ''/'' # b" and "CHR ''/'' \<notin> set b"
    using split_list_last by metis
  then show ?thesis by (simp add: basename_snoc_name)
next
  case False
  then show ?thesis by (simp add: basename_plain)
qed

lemma basename_join: "x \<noteq> [] \<Longrightarrow> CHR ''/'' \<notin> set x \<Longrightarrow> basename (path_join d x) = x"
proof -
  assume x: "x \<noteq> []" "CHR ''/'' \<notin> set x"
  have ns: "\<not> py_startswith ''/'' x" using x by (cases x) (auto simp: py_startswith_def)
  show ?thesis
  proof (cases "d = [] \<or> py_endswith ''/'' d")
    case True
    then show ?thesis
    proof
      assume "d = []"
      with ns x show ?thesis by (simp add: path_join_def basename_plain)
    next
      assume "py_endswith ''/'' d"
      then obtain d' where "d = d' @ ''/''" by (auto simp: py_endswith_iff)
      with ns x show ?thesis by (simp add: path_join_def basename_snoc_name)
    qed
  next
    case False
    with ns x show ?thesis by (simp add: path_join_def basename_snoc_name)
  qed
qed


text \<open>
  Joining \<open>dirname\<close> and \<open>basename\<close> of a path gives the path back when a single
  slash precedes its last component: the split \<open>comprimir_pasta\<close> hands to
  \<open>shutil.make_archive\<close> walks the source itself.
\<close>

lemma join_dirname_basename:
  assumes b: "CHR ''/'' \<notin> set b" and d: "\<not> py_endswith ''/'' d"
  shows "path_join (dirname (d @ CHR ''/'' # b)) (basename (d @ CHR ''/'' # b)) = d @ CHR ''/'' # b"
proof -
  have nb: "\<not> py_startswith ''/'' b" using b by (cases b) (auto simp: py_startswith_def)
  have bn: "basename (d @ CHR ''/'' # b) = b" using b by (rule basename_snoc_name)
  show ?thesis
  proof (cases "d = []")
    case True
    have "py_rfind CHR ''/'' ([] @ CHR ''/'' # b) = 0" using py_rfind_last [OF b, of "[]"] by simp
    then have "dirname (CHR ''/'' # b) = ''/''"
      by (simp add: dirname_def path_split_def Let_def py_take_nonneg)
    with True bn nb show ?thesis by (simp add: path_join_def py_endswith_def)
  next
    case False
    have "dirname (d @ CHR ''/'' # b) = d"
      using path_split_dir_name [OF False d b] by (simp add: dirname_def)
    with False bn nb d show ?thesis by (simp add: path_join_def)
  qed
qed

end
