(* ===== verification/FileSystem.thy ===== *)
theory FileSystem
  imports PosixPath
begin

text \<open>
  The part of the operating system the backup script touches, as an explicit state: a
  directory tree with regular files, directories and symbolic links, the process's
  working directory, the clock, the free space of the device and the directories whose
  entries the process may not change or read. The Python calls of \<open>src/backup.py\<close>
  (\<open>os.stat\<close>, \<open>os.lstat\<close>, \<open>os.path.exists\<close>, \<open>os.path.getsize\<close>,
  \<open>os.path.getmtime\<close>, \<open>os.scandir\<close>, \<open>os.remove\<close>, \<open>os.mkdir\<close>,
  \<open>os.makedirs\<close>, \<open>open(..., 'wb')\<close> and \<open>write\<close>) are functions on that state;
  every failure is an \<open>OSError\<close> value with the errno Linux reports.

  Path resolution follows POSIX: a relative path starts at the working directory,
  \<open>.\<close> and \<open>..\<close> are resolved on the canonical location, every symbolic link met
  is followed (the last one only when the call follows links), and more than 40 links
  in one lookup is \<open>ELOOP\<close>, Linux's limit.
\<close>

section \<open>State\<close>

datatype node =
    File string int                        \<comment> \<open>content (bytes) and modification time\<close>
  | Dir int "(string \<times> node) list"         \<comment> \<open>modification time and entries, in listing order\<close>
  | Symlink string                         \<comment> \<open>target\<close>

datatype errno = ENOENT | ENOTDIR | EISDIR | ELOOP | EACCES | ENOSPC | EEXIST

text \<open>
  Python exceptions the model raises: an \<open>OSError\<close> with its errno and file name, and
  \<open>re.error\<close> from compiling a regular expression (\<open>fnmatch\<close> patterns).
\<close>

datatype exc = OSError errno string | ReError

type_synonym cpath = "string list"  \<comment> \<open>a canonical path: names from the root, no links\<close>

record world =
  tree :: node
  cwd :: cpath
  clock :: int
  locked :: "cpath list"       \<comment> \<open>directories whose entries cannot be created, removed or written\<close>
  unreadable :: "cpath list"   \<comment> \<open>entries that cannot be opened for reading or listed\<close>
  free :: nat                  \<comment> \<open>free bytes on the device\<close>

text \<open>Linux's \<open>MAXSYMLINKS\<close>.\<close>

definition max_symlinks :: nat where
  "max_symlinks = 40"

text \<open>\<open>st_size\<close> of a directory, as ext4 reports it for a one-block directory.\<close>

definition dir_st_size :: nat where
  "dir_st_size = 4096"

section \<open>The tree\<close>

fun get :: "node \<Rightarrow> cpath \<Rightarrow> node option" where
  "get n [] = Some n"
| "get (Dir t es) (c # cs) = (case map_of es c of None \<Rightarrow> None | Some n \<Rightarrow> get n cs)"
| "get _ (c # cs) = None"

text \<open>Replace (\<open>Some\<close>) or delete (\<open>None\<close>) the entry at a path whose parent exists.\<close>

fun put :: "cpath \<Rightarrow> node option \<Rightarrow> node \<Rightarrow> node" where
  "put [] v n = (case v of Some n' \<Rightarrow> n' | None \<Rightarrow> n)"
| "put [c] v (Dir t es) =
     Dir t (case v of None \<Rightarrow> AList.delete c es | Some n' \<Rightarrow> AList.update c n' es)"
| "put (c # cs) v (Dir t es) =
     (case map_of es c of None \<Rightarrow> Dir t es | Some n \<Rightarrow> Dir t (AList.update c (put cs v n) es))"
| "put _ v n = n"

section \<open>Path resolution\<close>

definition path_comps :: "string \<Rightarrow> string list" where
  "path_comps p = filter (\<lambda>c. c \<noteq> []) (py_split CHR ''/'' p)"

definition is_abs :: "string \<Rightarrow> bool" where
  "is_abs p \<longleftrightarrow> py_startswith ''/'' p"

definition trailing_slash :: "string \<Rightarrow> bool" where
  "trailing_slash p \<longleftrightarrow> p \<noteq> [] \<and> last p = CHR ''/''"

text \<open>
  Resolve the components \<open>cs\<close> from the canonical directory \<open>cur\<close>, following every
  link; the result is the canonical path reached and the link budget left.
\<close>

function resolve :: "nat \<Rightarrow> node \<Rightarrow> cpath \<Rightarrow> string list \<Rightarrow> errno + cpath \<times> nat" where
  "resolve n r cur [] = Inr (cur, n)"
| "resolve n r cur (c # cs) =
     (case get r cur of
        Some (Dir _ _) \<Rightarrow>
          (if c = ''.'' then resolve n r cur cs
           else if c = ''..'' then resolve n r (butlast cur) cs
           else (case get r (cur @ [c]) of
                   None \<Rightarrow> Inl ENOENT
                 | Some (Symlink t) \<Rightarrow>
                     (if t = [] then Inl ENOENT
                      else (case n of
                              0 \<Rightarrow> Inl ELOOP
                            | Suc m \<Rightarrow> resolve m r (if is_abs t then [] else cur) (path_comps t @ cs)))
                 | Some _ \<Rightarrow> resolve n r (cur @ [c]) cs))
      | Some _ \<Rightarrow> Inl ENOTDIR
      | None \<Rightarrow> Inl ENOENT)"
  by pat_completeness auto
termination
  by (relation "measures [\<lambda>(n, r, cur, cs). n, \<lambda>(n, r, cur, cs). length cs]") auto

definition start_dir :: "world \<Rightarrow> string \<Rightarrow> cpath" where
  "start_dir w p = (if is_abs p then [] else cwd w)"

text \<open>The canonical path a string names, following every link (\<open>os.stat\<close>).\<close>

definition canon :: "world \<Rightarrow> string \<Rightarrow> errno + cpath" where
  "canon w p =
     (if p = [] then Inl ENOENT
      else case resolve max_symlinks (tree w) (start_dir w p) (path_comps p) of
        Inl e \<Rightarrow> Inl e
      | Inr (q, _) \<Rightarrow>
          (if trailing_slash p \<and> (case get (tree w) q of Some (Dir _ _) \<Rightarrow> False | _ \<Rightarrow> True)
           then Inl ENOTDIR else Inr q))"

text \<open>
  The canonical path of the entry a string names without following a last link
  (\<open>os.lstat\<close>, \<open>os.remove\<close>, \<open>os.mkdir\<close>): the parent is resolved, the last name
  is not. A path with a trailing slash, or whose last component is \<open>.\<close> or \<open>..\<close>, is
  resolved in full, as the kernel does.
\<close>

definition lcanon :: "world \<Rightarrow> string \<Rightarrow> errno + cpath" where
  "lcanon w p =
     (let cs = path_comps p in
      if p = [] then Inl ENOENT
      else if cs = [] \<or> trailing_slash p \<or> last cs = ''.'' \<or> last cs = ''..'' then canon w p
      else case resolve max_symlinks (tree w) (start_dir w p) (butlast cs) of
        Inl e \<Rightarrow> Inl e
      | Inr (d, _) \<Rightarrow>
          (case get (tree w) d of
             Some (Dir _ _) \<Rightarrow> Inr (d @ [last cs])
           | Some _ \<Rightarrow> Inl ENOTDIR
           | None \<Rightarrow> Inl ENOENT))"

section \<open>Queries\<close>

definition stat :: "world \<Rightarrow> string \<Rightarrow> exc + node" where
  "stat w p =
     (case canon w p of
        Inl e \<Rightarrow> Inl (OSError e p)
      | Inr q \<Rightarrow> (case get (tree w) q of None \<Rightarrow> Inl (OSError ENOENT p) | Some n \<Rightarrow> Inr n))"

definition lstat :: "world \<Rightarrow> string \<Rightarrow> exc + node" where
  "lstat w p =
     (case lcanon w p of
        Inl e \<Rightarrow> Inl (OSError e p)
      | Inr q \<Rightarrow> (case get (tree w) q of None \<Rightarrow> Inl (OSError ENOENT p) | Some n \<Rightarrow> Inr n))"

definition exists :: "world \<Rightarrow> string \<Rightarrow> bool" where
  "exists w p = (case stat w p of Inr _ \<Rightarrow> True | Inl _ \<Rightarrow> False)"

definition lexists :: "world \<Rightarrow> string \<Rightarrow> bool" where
  "lexists w p = (case lstat w p of Inr _ \<Rightarrow> True | Inl _ \<Rightarrow> False)"

definition isdir :: "world \<Rightarrow> string \<Rightarrow> bool" where
  "isdir w p = (case stat w p of Inr (Dir _ _) \<Rightarrow> True | _ \<Rightarrow> False)"

fun st_size :: "node \<Rightarrow> nat" where
  "st_size (File c t) = length c"
| "st_size (Dir t es) = dir_st_size"
| "st_size (Symlink t) = length t"

fun st_mtime :: "node \<Rightarrow> int" where
  "st_mtime (File c t) = t"
| "st_mtime (Dir t es) = t"
| "st_mtime (Symlink _) = 0"

definition getsize :: "world \<Rightarrow> string \<Rightarrow> exc + nat" where
  "getsize w p = (case stat w p of Inl e \<Rightarrow> Inl e | Inr n \<Rightarrow> Inr (st_size n))"

definition getmtime :: "world \<Rightarrow> string \<Rightarrow> exc + int" where
  "getmtime w p = (case stat w p of Inl e \<Rightarrow> Inl e | Inr n \<Rightarrow> Inr (st_mtime n))"

text \<open>
  \<open>os.scandir(p)\<close>: the names of the directory's entries, in listing order. Listing a
  directory the process may not read is \<open>EACCES\<close>.
\<close>

definition scandir :: "world \<Rightarrow> string \<Rightarrow> exc + string list" where
  "scandir w p =
     (case canon w p of
        Inl e \<Rightarrow> Inl (OSError e p)
      | Inr q \<Rightarrow>
          (case get (tree w) q of
             Some (Dir _ es) \<Rightarrow> (if q \<in> set (unreadable w) then Inl (OSError EACCES p) else Inr (map fst es))
           | Some _ \<Rightarrow> Inl (OSError ENOTDIR p)
           | None \<Rightarrow> Inl (OSError ENOENT p)))"

section \<open>Updates\<close>

definition set_node :: "world \<Rightarrow> cpath \<Rightarrow> node option \<Rightarrow> world" where
  "set_node w q v = w\<lparr>tree := put q v (tree w)\<rparr>"

definition parent_locked :: "world \<Rightarrow> cpath \<Rightarrow> bool" where
  "parent_locked w q \<longleftrightarrow> butlast q \<in> set (locked w)"

text \<open>\<open>os.remove(p)\<close> (\<open>unlink\<close>): a directory is \<open>EISDIR\<close>, as on Linux.\<close>

definition remove :: "world \<Rightarrow> string \<Rightarrow> exc + world" where
  "remove w p =
     (case lcanon w p of
        Inl e \<Rightarrow> Inl (OSError e p)
      | Inr q \<Rightarrow>
          (case get (tree w) q of
             None \<Rightarrow> Inl (OSError ENOENT p)
           | Some (Dir _ _) \<Rightarrow> Inl (OSError EISDIR p)
           | Some _ \<Rightarrow>
               (if parent_locked w q then Inl (OSError EACCES p)
                else Inr (set_node w q None))))"

text \<open>\<open>os.mkdir(p)\<close>: anything at the name, even a dangling link, is \<open>EEXIST\<close>.\<close>

definition mkdir :: "world \<Rightarrow> string \<Rightarrow> exc + world" where
  "mkdir w p =
     (case lcanon w p of
        Inl e \<Rightarrow> Inl (OSError e p)
      | Inr q \<Rightarrow>
          (case get (tree w) q of
             Some _ \<Rightarrow> Inl (OSError EEXIST p)
           | None \<Rightarrow>
               (if parent_locked w q then Inl (OSError EACCES p)
                else Inr (set_node w q (Some (Dir (clock w) []))))))"

text \<open>
  \<open>open(p, 'wb')\<close> and \<open>open(p, 'a')\<close>: the last link is followed; a missing file is
  created empty; \<open>'wb'\<close> truncates an existing one. The result is the canonical path
  of the file opened, which later writes use.
\<close>

definition open_write :: "bool \<Rightarrow> world \<Rightarrow> string \<Rightarrow> exc + world \<times> cpath" where
  "open_write trunc w p =
     (case canon w p of
        Inr q \<Rightarrow>
          (case get (tree w) q of
             Some (Dir _ _) \<Rightarrow> Inl (OSError EISDIR p)
           | Some (File c t) \<Rightarrow>
               (if parent_locked w q then Inl (OSError EACCES p)
                else if trunc then Inr (set_node w q (Some (File [] (clock w))), q)
                else Inr (w, q))
           | _ \<Rightarrow> Inl (OSError ENOENT p))
      | Inl ENOENT \<Rightarrow>
          (case lcanon w p of
             Inl e \<Rightarrow> Inl (OSError e p)
           | Inr q \<Rightarrow>
               (case get (tree w) q of
                  None \<Rightarrow>
                    (if parent_locked w q then Inl (OSError EACCES p)
                     else Inr (set_node w q (Some (File [] (clock w))), q))
                | Some _ \<Rightarrow> Inl (OSError ENOENT p)))
      | Inl e \<Rightarrow> Inl (OSError e p))"

text \<open>
  Appending bytes to an open file. A full device takes as many bytes as it has room for
  and then fails with \<open>ENOSPC\<close>: the file is left truncated.
\<close>

definition write_bytes :: "world \<Rightarrow> cpath \<Rightarrow> string \<Rightarrow> string \<Rightarrow> world \<times> exc option" where
  "write_bytes w q name bs =
     (case get (tree w) q of
        Some (File c t) \<Rightarrow>
          (let k = min (length bs) (free w);
               w' = (set_node w q (Some (File (c @ take k bs) (clock w))))\<lparr>free := free w - k\<rparr>
           in (w', if k < length bs then Some (OSError ENOSPC name) else None))
      | _ \<Rightarrow> (w, Some (OSError ENOENT name)))"

text \<open>\<open>open(p, 'rb').read()\<close>.\<close>

definition read_file :: "world \<Rightarrow> string \<Rightarrow> exc + string" where
  "read_file w p =
     (case canon w p of
        Inl e \<Rightarrow> Inl (OSError e p)
      | Inr q \<Rightarrow>
          (case get (tree w) q of
             Some (File c _) \<Rightarrow> (if q \<in> set (unreadable w) then Inl (OSError EACCES p) else Inr c)
           | Some (Dir _ _) \<Rightarrow> Inl (OSError EISDIR p)
           | _ \<Rightarrow> Inl (OSError ENOENT p)))"

section \<open>Lemmas on resolution\<close>

named_theorems fs_simps "evaluation rules of the file-system model"

lemma resolve_append:
  "resolve n r cur (xs @ ys) =
     (case resolve n r cur xs of Inl e \<Rightarrow> Inl e | Inr (c', n') \<Rightarrow> resolve n' r c' ys)"
proof (induction n r cur xs rule: resolve.induct)
  case (1 n r cur)
  then show ?case by simp
next
  case (2 n r cur c cs)
  show ?case
  proof (cases "get r cur")
    case None
    then show ?thesis by simp
  next
    case (Some nd)
    show ?thesis
    proof (cases nd)
      case (File x y)
      with Some show ?thesis by simp
    next
      case (Symlink x)
      with Some show ?thesis by simp
    next
      case (Dir t es)
      note d = Some Dir
      consider "c = ''.''" | "c = ''..''" | "c \<noteq> ''.''" "c \<noteq> ''..''" by blast
      then show ?thesis
      proof cases
        case 1
        with d "2.IH"(1) show ?thesis by simp
      next
        case 2
        with d "2.IH"(2) show ?thesis by simp
      next
        case 3
        show ?thesis
        proof (cases "get r (cur @ [c])")
          case None
          with d 3 show ?thesis by simp
        next
          case (Some nd')
          show ?thesis
          proof (cases nd')
            case (Symlink tg)
            show ?thesis
            proof (cases "tg = [] \<or> n = 0")
              case True
              with d 3 Some Symlink show ?thesis by auto
            next
              case False
              then obtain m where m: "n = Suc m" by (cases n) auto
              with False d 3 Some Symlink "2.IH"(5) [of nd t es nd' tg m] show ?thesis
                by (simp split del: if_split)
            qed
          next
            case (File x y)
            with d 3 Some "2.IH"(3) show ?thesis by simp
          next
            case (Dir x y)
            with d 3 Some "2.IH"(4) show ?thesis by simp
          qed
        qed
      qed
    qed
  qed
qed

text \<open>A name that \<open>resolve\<close> takes as one step down: no slash, not \<open>.\<close> or \<open>..\<close>.\<close>

definition plain_name :: "string \<Rightarrow> bool" where
  "plain_name x \<longleftrightarrow> x \<noteq> [] \<and> CHR ''/'' \<notin> set x \<and> x \<noteq> ''.'' \<and> x \<noteq> ''..''"

fun is_dir_node :: "node option \<Rightarrow> bool" where
  "is_dir_node (Some (Dir _ _)) = True"
| "is_dir_node _ = False"

text \<open>Every prefix of the path is a directory: a lookup along it meets no link.\<close>

definition dir_chain :: "node \<Rightarrow> cpath \<Rightarrow> bool" where
  "dir_chain r q \<longleftrightarrow> list_all (\<lambda>i. is_dir_node (get r (take i q))) [0..<Suc (length q)]"

lemma dir_chain_iff: "dir_chain r q \<longleftrightarrow> (\<forall>i \<le> length q. is_dir_node (get r (take i q)))"
  by (auto simp: dir_chain_def list_all_iff less_Suc_eq_le)

lemma dir_chain_prefix: "dir_chain r (q @ q') \<Longrightarrow> dir_chain r q"
  unfolding dir_chain_iff
proof (intro allI impI)
  fix i
  assume a: "\<forall>i \<le> length (q @ q'). is_dir_node (get r (take i (q @ q')))"
    and i: "i \<le> length q"
  from i have "i \<le> length (q @ q')" by simp
  with a have "is_dir_node (get r (take i (q @ q')))" by blast
  with i show "is_dir_node (get r (take i q))" by simp
qed

lemma dir_chain_at: "dir_chain r q \<Longrightarrow> i \<le> length q \<Longrightarrow> is_dir_node (get r (take i q))"
  by (simp add: dir_chain_iff)

lemma is_dir_node_Dir: "is_dir_node v \<Longrightarrow> \<exists>t es. v = Some (Dir t es)"
  by (cases v rule: is_dir_node.cases) auto

lemma resolve_dir_chain:
  "dir_chain r (cur @ cs) \<Longrightarrow> list_all plain_name cs \<Longrightarrow> resolve n r cur cs = Inr (cur @ cs, n)"
proof (induction cs arbitrary: cur)
  case Nil
  then show ?case by simp
next
  case (Cons c cs)
  have "is_dir_node (get r (take (length cur) (cur @ c # cs)))"
    using Cons.prems(1) by (rule dir_chain_at) simp
  then obtain t es where cur: "get r cur = Some (Dir t es)"
    using is_dir_node_Dir by fastforce
  have "is_dir_node (get r (take (Suc (length cur)) (cur @ c # cs)))"
    using Cons.prems(1) by (rule dir_chain_at) simp
  then obtain t' es' where nxt: "get r (cur @ [c]) = Some (Dir t' es')"
    using is_dir_node_Dir by fastforce
  from Cons.prems(2) have pc: "plain_name c" and pcs: "list_all plain_name cs" by auto
  have IH: "resolve n r (cur @ [c]) cs = Inr (cur @ c # cs, n)"
    using Cons.IH [of "cur @ [c]"] Cons.prems(1) pcs by simp
  from cur nxt pc IH show ?case by (simp add: plain_name_def)
qed

lemma path_comps_append_sep:
  "path_comps (xs @ CHR ''/'' # ys) = path_comps xs @ path_comps ys"
  by (simp add: path_comps_def py_split_append_sep)

lemma path_comps_plain: "plain_name n \<Longrightarrow> path_comps n = [n]"
  by (simp add: path_comps_def plain_name_def py_split_notin)

lemma path_comps_join:
  assumes "a \<noteq> []" and "plain_name n"
  shows "path_comps (path_join a n) = path_comps a @ [n]"
proof (cases "py_endswith ''/'' a")
  case True
  then obtain a' where a: "a = a' @ ''/''" by (auto simp: py_endswith_iff)
  have "path_comps (a' @ CHR ''/'' # n) = path_comps a' @ [n]"
    using assms(2) by (simp add: path_comps_append_sep path_comps_plain)
  moreover have "path_comps (a' @ [CHR ''/'']) = path_comps a'"
    using path_comps_append_sep [of a' "[]"] by (simp add: path_comps_def)
  moreover have "\<not> py_startswith ''/'' n"
    using assms(2) by (cases n) (auto simp: plain_name_def py_startswith_def)
  ultimately show ?thesis using a by (simp add: path_join_def)
next
  case False
  have "\<not> py_startswith ''/'' n"
    using assms(2) by (cases n) (auto simp: plain_name_def py_startswith_def)
  with False assms show ?thesis
    by (simp add: path_join_def path_comps_append_sep path_comps_plain)
qed

lemma is_abs_join: "a \<noteq> [] \<Longrightarrow> plain_name n \<Longrightarrow> is_abs (path_join a n) = is_abs a"
  by (cases n; cases a) (auto simp: path_join_def is_abs_def py_startswith_def plain_name_def)

lemma trailing_slash_join: "plain_name n \<Longrightarrow> \<not> trailing_slash (path_join a n)"
  by (cases n rule: rev_cases)
     (auto simp: path_join_def trailing_slash_def plain_name_def py_startswith_def)

lemma path_join_nonempty: "plain_name n \<Longrightarrow> path_join a n \<noteq> []"
  by (auto simp: path_join_def plain_name_def)

text \<open>
  A string \<open>d\<close> names the directory \<open>D\<close> plainly when its components are plain
  names and every prefix of \<open>D\<close> is a directory: the lookup of \<open>d\<close> meets no link.
\<close>

definition simple_dir :: "world \<Rightarrow> string \<Rightarrow> cpath \<Rightarrow> bool" where
  "simple_dir w d D \<longleftrightarrow>
     d \<noteq> [] \<and> list_all plain_name (path_comps d) \<and> D = start_dir w d @ path_comps d
     \<and> dir_chain (tree w) D"

lemma simple_dir_get: "simple_dir w d D \<Longrightarrow> \<exists>t es. get (tree w) D = Some (Dir t es)"
  unfolding simple_dir_def
  by (metis dir_chain_at is_dir_node_Dir order_refl take_all)

lemma simple_dir_resolve:
  "simple_dir w d D \<Longrightarrow> resolve n (tree w) (start_dir w d) (path_comps d) = Inr (D, n)"
  unfolding simple_dir_def by (metis resolve_dir_chain)

lemma canon_simple_dir: "simple_dir w d D \<Longrightarrow> canon w d = Inr D"
proof -
  assume s: "simple_dir w d D"
  then obtain t es where "get (tree w) D = Some (Dir t es)" by (metis simple_dir_get)
  with s show ?thesis
    by (simp add: canon_def simple_dir_resolve) (simp add: simple_dir_def)
qed

lemma start_dir_join:
  "d \<noteq> [] \<Longrightarrow> plain_name n \<Longrightarrow> start_dir w (path_join d n) = start_dir w d"
  by (simp add: start_dir_def is_abs_join)

lemma lcanon_join:
  assumes s: "simple_dir w d D" and n: "plain_name n"
  shows "lcanon w (path_join d n) = Inr (D @ [n])"
proof -
  from s have d: "d \<noteq> []" by (simp add: simple_dir_def)
  obtain t es where D: "get (tree w) D = Some (Dir t es)" using s by (metis simple_dir_get)
  have cs: "path_comps (path_join d n) = path_comps d @ [n]"
    using d n by (rule path_comps_join)
  have "n \<noteq> ''.'' \<and> n \<noteq> ''..''" using n by (simp add: plain_name_def)
  with cs d n D s show ?thesis
    by (simp add: lcanon_def Let_def trailing_slash_join path_join_nonempty start_dir_join
        simple_dir_resolve)
qed

lemma canon_join_nonlink:
  assumes s: "simple_dir w d D" and n: "plain_name n"
    and nd: "get (tree w) (D @ [n]) = Some nd" and nl: "\<forall>t. nd \<noteq> Symlink t"
  shows "canon w (path_join d n) = Inr (D @ [n])"
proof -
  from s have d: "d \<noteq> []" by (simp add: simple_dir_def)
  obtain t es where D: "get (tree w) D = Some (Dir t es)" using s by (metis simple_dir_get)
  have cs: "path_comps (path_join d n) = path_comps d @ [n]"
    using d n by (rule path_comps_join)
  have r: "resolve max_symlinks (tree w) D [n] = Inr (D @ [n], max_symlinks)"
    using D nd nl n by (cases nd) (auto simp: plain_name_def)
  show ?thesis
    using cs d n r
    by (simp add: canon_def resolve_append start_dir_join simple_dir_resolve [OF s]
        path_join_nonempty trailing_slash_join)
qed

lemma dir_chain_Cons:
  "dir_chain (Dir t es) (c # D) \<Longrightarrow> \<exists>r'. map_of es c = Some r' \<and> dir_chain r' D"
proof -
  assume a: "dir_chain (Dir t es) (c # D)"
  have "is_dir_node (get (Dir t es) (take 1 (c # D)))" using a by (rule dir_chain_at) simp
  then obtain r' where r': "map_of es c = Some r'"
    by (cases "map_of es c") auto
  have "dir_chain r' D"
    unfolding dir_chain_iff
  proof (intro allI impI)
    fix i assume "i \<le> length D"
    then have "is_dir_node (get (Dir t es) (take (Suc i) (c # D)))"
      using a by (intro dir_chain_at) auto
    with r' show "is_dir_node (get r' (take i D))" by simp
  qed
  with r' show ?thesis by blast
qed

text \<open>
  Setting or deleting an entry of a directory reached along directories keeps the chain
  of directories and changes that directory's entries as \<open>child_upd\<close> says.
\<close>

definition child_upd :: "string \<Rightarrow> node option \<Rightarrow> (string \<times> node) list \<Rightarrow> (string \<times> node) list" where
  "child_upd n v es = (case v of None \<Rightarrow> AList.delete n es | Some x \<Rightarrow> AList.update n x es)"

lemma put_child:
  "dir_chain r D \<Longrightarrow> get r D = Some (Dir t es) \<Longrightarrow>
   dir_chain (put (D @ [n]) v r) D \<and> get (put (D @ [n]) v r) D = Some (Dir t (child_upd n v es))"
proof (induction D arbitrary: r)
  case Nil
  then show ?case by (cases v) (simp_all add: dir_chain_iff child_upd_def)
next
  case (Cons c D)
  from Cons.prems(1) obtain t0 es0 where r: "r = Dir t0 es0"
    by (metis dir_chain_at is_dir_node_Dir take_0 get.simps(1) option.inject zero_le)
  with Cons.prems(1) obtain r' where r': "map_of es0 c = Some r'" and ch: "dir_chain r' D"
    using dir_chain_Cons by blast
  from Cons.prems(2) r r' have g: "get r' D = Some (Dir t es)" by simp
  from Cons.IH [OF ch g] have ih1: "dir_chain (put (D @ [n]) v r') D"
    and ih2: "get (put (D @ [n]) v r') D = Some (Dir t (child_upd n v es))" by auto
  have p: "put (c # D @ [n]) v r = Dir t0 (AList.update c (put (D @ [n]) v r') es0)"
    using r r' by (cases D) auto
  have "dir_chain (put ((c # D) @ [n]) v r) (c # D)"
    unfolding dir_chain_iff
  proof (intro allI impI)
    fix i assume i: "i \<le> length (c # D)"
    show "is_dir_node (get (put ((c # D) @ [n]) v r) (take i (c # D)))"
    proof (cases i)
      case 0
      then show ?thesis by (simp add: p)
    next
      case (Suc j)
      with i have "is_dir_node (get (put (D @ [n]) v r') (take j D))"
        using ih1 by (intro dir_chain_at) auto
      with Suc show ?thesis by (simp add: p update_conv')
    qed
  qed
  moreover have "get (put ((c # D) @ [n]) v r) (c # D) = Some (Dir t (child_upd n v es))"
    using ih2 by (simp add: p update_conv')
  ultimately show ?case by blast
qed

lemma simple_dir_set:
  assumes "simple_dir w d D" and "get (tree w) D = Some (Dir t es)"
  shows "simple_dir (set_node w (D @ [n]) v) d D
    \<and> get (tree (set_node w (D @ [n]) v)) D = Some (Dir t (child_upd n v es))"
proof -
  have ch: "dir_chain (tree w) D" using assms(1) unfolding simple_dir_def by blast
  from put_child [OF ch assms(2)] assms(1) show ?thesis
    unfolding simple_dir_def set_node_def start_dir_def by auto
qed

lemma remove_join:
  "simple_dir w d D \<Longrightarrow> plain_name n \<Longrightarrow>
   remove w (path_join d n) =
     (case get (tree w) (D @ [n]) of
        None \<Rightarrow> Inl (OSError ENOENT (path_join d n))
      | Some (Dir _ _) \<Rightarrow> Inl (OSError EISDIR (path_join d n))
      | Some _ \<Rightarrow>
          (if D \<in> set (locked w) then Inl (OSError EACCES (path_join d n))
           else Inr (set_node w (D @ [n]) None)))"
  by (simp add: remove_def lcanon_join parent_locked_def split: option.splits node.splits)

lemma simple_dir_delete:
  assumes "simple_dir w d D"
  shows "simple_dir (set_node w (D @ [n]) None) d D
    \<and> (\<forall>t es. get (tree w) D = Some (Dir t es) \<longrightarrow>
         get (tree (set_node w (D @ [n]) None)) D = Some (Dir t (AList.delete n es)))"
  using simple_dir_set [OF assms] simple_dir_get [OF assms] by (auto simp: child_upd_def)

lemma get_append: "get r (xs @ ys) = (case get r xs of None \<Rightarrow> None | Some n \<Rightarrow> get n ys)"
  by (induction r xs rule: get.induct) (auto split: option.splits)

lemma get_child: "get r D = Some (Dir t es) \<Longrightarrow> get r (D @ [x]) = map_of es x"
  by (simp add: get_append split: option.splits)


section \<open>Well-formed trees\<close>

text \<open>
  A tree as a file system keeps it: the entries of a directory have distinct names, and
  every name is plain (no slash, not \<open>.\<close> or \<open>..\<close>). Every operation that changes
  the tree keeps this invariant (\<open>mkdir_wf\<close>, \<open>remove_wf\<close>, \<open>open_write_wf\<close>,
  \<open>write_bytes_wf\<close>): a new entry is named by the last component of a path, which
  is plain.
\<close>

fun wf_node :: "node \<Rightarrow> bool" where
  "wf_node (Dir t es) = (distinct (map fst es) \<and> (\<forall>x \<in> set es. plain_name (fst x) \<and> wf_node (snd x)))"
| "wf_node _ = True"

lemma wf_node_get: "wf_node r \<Longrightarrow> get r q = Some nd \<Longrightarrow> wf_node nd"
  by (induction r q rule: get.induct) (auto split: option.splits dest: map_of_SomeD)

lemma py_split_sep_free: "x \<in> set (py_split c s) \<Longrightarrow> c \<notin> set x"
proof (induction s arbitrary: x)
  case Nil
  then show ?case by simp
next
  case (Cons y ys)
  then show ?case
    by (cases "py_split c ys") (auto split: if_splits)
qed

lemma path_comps_plain_chars: "x \<in> set (path_comps p) \<Longrightarrow> x \<noteq> [] \<and> CHR ''/'' \<notin> set x"
  by (auto simp: path_comps_def dest: py_split_sep_free)

lemma path_comps_empty_abs: "p \<noteq> [] \<Longrightarrow> path_comps p = [] \<Longrightarrow> is_abs p"
proof -
  assume p: "p \<noteq> []" and c: "path_comps p = []"
  obtain x xs where px: "p = x # xs" using p by (cases p) auto
  show ?thesis
  proof (rule ccontr)
    assume "\<not> is_abs p"
    then have "x \<noteq> CHR ''/''" using px by (simp add: is_abs_def py_startswith_def)
    then obtain q qs where "py_split CHR ''/'' p = (x # q) # qs"
      using px by (cases "py_split CHR ''/'' xs") auto
    with c show False by (simp add: path_comps_def)
  qed
qed

lemma set_update_sub: "x \<in> set (AList.update k v es) \<Longrightarrow> x = (k, v) \<or> x \<in> set es"
  by (induction es) (auto split: if_splits)

lemma set_delete_sub: "x \<in> set (AList.delete k es) \<Longrightarrow> x \<in> set es"
  by (induction es) (auto split: if_splits)

lemma wf_put:
  "wf_node r \<Longrightarrow> (\<forall>nd. v = Some nd \<longrightarrow> wf_node nd \<and> (q \<noteq> [] \<longrightarrow> plain_name (last q))) \<Longrightarrow>
   wf_node (put q v r)"
proof (induction q v r rule: put.induct)
  case (1 v n)
  then show ?case by (cases v) auto
next
  case (2 c v t es)
  then show ?case
    by (cases v) (auto simp: distinct_update distinct_delete dest: set_update_sub set_delete_sub)
next
  case (3 c v va vb t es)
  show ?case
  proof (cases "map_of es c")
    case None
    with "3.prems" show ?thesis by simp
  next
    case (Some n)
    then have cn: "(c, n) \<in> set es" by (rule map_of_SomeD)
    with "3.prems"(1) have "wf_node n" and "plain_name c" by auto
    moreover have "\<forall>nd. vb = Some nd \<longrightarrow> wf_node nd \<and> (v # va \<noteq> [] \<longrightarrow> plain_name (last (v # va)))"
      using "3.prems"(2) by simp
    then have "wf_node (put (v # va) vb n)"
      using "3.IH" [OF Some \<open>wf_node n\<close>] by blast
    ultimately show ?thesis using Some "3.prems"(1)
      by (auto simp: distinct_update dest: set_update_sub)
  qed
qed simp_all

lemma get_prefix_exists: "get r (xs @ ys) \<noteq> None \<Longrightarrow> get r xs \<noteq> None"
  by (simp add: get_append split: option.splits)

lemma get_butlast_exists: "get r cur \<noteq> None \<Longrightarrow> get r (butlast cur) \<noteq> None"
  by (cases cur rule: rev_cases) (auto simp: get_append split: option.splits)

lemma resolve_missing:
  "resolve n r cur cs = Inr (q, m) \<Longrightarrow> get r q = None \<Longrightarrow> cs = [] \<and> q = cur"
proof (induction n r cur cs rule: resolve.induct)
  case (1 n r cur)
  then show ?case by simp
next
  case (2 n r cur c cs)
  show ?case
  proof (cases "get r cur")
    case None
    with "2.prems" show ?thesis by simp
  next
    case (Some nd)
    show ?thesis
    proof (cases nd)
      case (Dir t es)
      note d = Some Dir
      consider "c = ''.''" | "c = ''..''" | "c \<noteq> ''.''" "c \<noteq> ''..''" by blast
      then show ?thesis
      proof cases
        case 1
        with d "2.IH"(1) "2.prems" show ?thesis by auto
      next
        case 2
        with d "2.IH"(2) "2.prems" get_butlast_exists [of r cur] show ?thesis by auto
      next
        case 3
        show ?thesis
        proof (cases "get r (cur @ [c])")
          case None
          with d 3 "2.prems" show ?thesis by simp
        next
          case (Some nd')
          show ?thesis
          proof (cases nd')
            case (Symlink tg)
            show ?thesis
            proof (cases "tg = [] \<or> n = 0")
              case True
              with d 3 Some Symlink "2.prems" show ?thesis by (auto split: nat.splits if_splits)
            next
              case False
              then obtain k where k: "n = Suc k" by (cases n) auto
              have "get r (if is_abs tg then [] else cur) \<noteq> None" using d by simp
              with False d 3 Some Symlink k "2.prems" "2.IH"(5) [of nd t es nd' tg k] show ?thesis
                by (auto split del: if_split)
            qed
          next
            case (File x y)
            with d 3 Some "2.prems" "2.IH"(3) show ?thesis by auto
          next
            case (Dir x y)
            with d 3 Some "2.prems" "2.IH"(4) show ?thesis by auto
          qed
        qed
      qed
    next
      case (File x y)
      with Some "2.prems" show ?thesis by simp
    next
      case (Symlink x)
      with Some "2.prems" show ?thesis by simp
    qed
  qed
qed


lemma get_plain_last: "wf_node r \<Longrightarrow> get r q = Some nd \<Longrightarrow> q \<noteq> [] \<Longrightarrow> plain_name (last q)"
proof (induction r q rule: get.induct)
  case (2 t es c cs)
  then obtain n where n: "map_of es c = Some n" and g: "get n cs = Some nd"
    by (auto split: option.splits)
  from n have cn: "(c, n) \<in> set es" by (rule map_of_SomeD)
  show ?case
  proof (cases cs)
    case Nil
    with cn "2.prems"(1) show ?thesis by auto
  next
    case (Cons a l)
    with "2.IH" [OF n] cn "2.prems"(1) g show ?thesis by auto
  qed
qed simp_all

lemma lcanon_new:
  assumes l: "lcanon w p = Inr q" and g: "get (tree w) q = None"
  shows "q \<noteq> [] \<and> plain_name (last q) \<and> (\<exists>t es. get (tree w) (butlast q) = Some (Dir t es))"
proof -
  let ?cs = "path_comps p"
  have p: "p \<noteq> []" using l by (auto simp: lcanon_def)
  show ?thesis
  proof (cases "?cs = [] \<or> trailing_slash p \<or> last ?cs = ''.'' \<or> last ?cs = ''..''")
    case True
    then have "canon w p = Inr q" using l p by (simp add: lcanon_def)
    then obtain m where "resolve max_symlinks (tree w) (start_dir w p) ?cs = Inr (q, m)"
      using p by (auto simp: canon_def split: sum.splits prod.splits if_splits)
    then have "?cs = [] \<and> q = start_dir w p" using g by (rule resolve_missing)
    with p have "q = []" by (simp add: start_dir_def path_comps_empty_abs)
    with g show ?thesis by simp
  next
    case False
    then obtain d m where r: "resolve max_symlinks (tree w) (start_dir w p) (butlast ?cs) = Inr (d, m)"
      and q: "q = d @ [last ?cs]" and dd: "\<exists>t es. get (tree w) d = Some (Dir t es)"
      using l p by (auto simp: lcanon_def Let_def split: sum.splits option.splits node.splits)
    have "last ?cs \<in> set ?cs" using False by simp
    then have "last ?cs \<noteq> [] \<and> CHR ''/'' \<notin> set (last ?cs)" by (rule path_comps_plain_chars)
    then have "plain_name (last ?cs)" using False by (simp add: plain_name_def)
    with q dd show ?thesis by simp
  qed
qed

lemma wf_set_node:
  "wf_node (tree w) \<Longrightarrow> (\<forall>nd. v = Some nd \<longrightarrow> wf_node nd \<and> (q \<noteq> [] \<longrightarrow> plain_name (last q))) \<Longrightarrow>
   wf_node (tree (set_node w q v))"
  by (simp add: set_node_def wf_put)

lemma wf_replace:
  "wf_node (tree w) \<Longrightarrow> get (tree w) q = Some nd \<Longrightarrow> wf_node v \<Longrightarrow> wf_node (tree (set_node w q (Some v)))"
  by (simp add: wf_set_node get_plain_last)

lemma mkdir_wf: "mkdir w p = Inr w' \<Longrightarrow> wf_node (tree w) \<Longrightarrow> wf_node (tree w')"
  by (auto simp: mkdir_def wf_set_node dest: lcanon_new split: sum.splits option.splits if_splits)

lemma remove_wf: "remove w p = Inr w' \<Longrightarrow> wf_node (tree w) \<Longrightarrow> wf_node (tree w')"
  by (auto simp: remove_def wf_set_node split: sum.splits option.splits node.splits if_splits)

lemma open_write_wf: "open_write trunc w p = Inr (w', q) \<Longrightarrow> wf_node (tree w) \<Longrightarrow> wf_node (tree w')"
  by (auto simp: open_write_def wf_set_node intro: wf_replace dest: lcanon_new
      split: sum.splits option.splits node.splits if_splits errno.splits)

lemma write_bytes_wf: "write_bytes w q name bs = (w', e) \<Longrightarrow> wf_node (tree w) \<Longrightarrow> wf_node (tree w')"
  by (auto simp: write_bytes_def Let_def split: option.splits node.splits)
     (metis wf_node.simps(2) wf_replace)


section \<open>Operations on an entry of a plainly named directory\<close>

lemma child_upd_get:
  "map_of (child_upd n v es) x = (if x = n then v else map_of es x)"
  by (cases v) (auto simp: child_upd_def update_conv' delete_conv')

lemma simple_dir_free [simp]: "simple_dir (w\<lparr>free := k\<rparr>) d D = simple_dir w d D"
  by (simp add: simple_dir_def start_dir_def)

lemma canon_child:
  assumes s: "simple_dir w d D" and n: "plain_name n"
    and nl: "\<forall>s. get (tree w) (D @ [n]) \<noteq> Some (Symlink s)"
  shows "canon w (path_join d n) = (case get (tree w) (D @ [n]) of None \<Rightarrow> Inl ENOENT | Some _ \<Rightarrow> Inr (D @ [n]))"
proof (cases "get (tree w) (D @ [n])")
  case (Some nd)
  with nl have "\<forall>t. nd \<noteq> Symlink t" by auto
  with canon_join_nonlink [OF s n Some] Some show ?thesis by simp
next
  case None
  from s have d: "d \<noteq> []" by (simp add: simple_dir_def)
  obtain t es where D: "get (tree w) D = Some (Dir t es)" using s by (metis simple_dir_get)
  have cs: "path_comps (path_join d n) = path_comps d @ [n]"
    using d n by (rule path_comps_join)
  have "resolve max_symlinks (tree w) D [n] = Inl ENOENT"
    using D None n by (auto simp: plain_name_def)
  with cs d n None show ?thesis
    by (simp add: canon_def resolve_append start_dir_join simple_dir_resolve [OF s] path_join_nonempty)
qed

lemma open_write_child:
  assumes s: "simple_dir w d D" and n: "plain_name n"
    and nl: "\<forall>s. get (tree w) (D @ [n]) \<noteq> Some (Symlink s)"
  shows "open_write True w (path_join d n) =
    (case get (tree w) (D @ [n]) of
       Some (Dir _ _) \<Rightarrow> Inl (OSError EISDIR (path_join d n))
     | _ \<Rightarrow> (if D \<in> set (locked w) then Inl (OSError EACCES (path_join d n))
            else Inr (set_node w (D @ [n]) (Some (File [] (clock w))), D @ [n])))"
  using canon_child [OF s n nl] lcanon_join [OF s n] nl
  by (auto simp: open_write_def parent_locked_def split: option.splits node.splits)

lemma read_file_child:
  assumes s: "simple_dir w d D" and n: "plain_name n" and g: "get (tree w) (D @ [n]) = Some (File c t)"
  shows "read_file w (path_join d n) =
    (if D @ [n] \<in> set (unreadable w) then Inl (OSError EACCES (path_join d n)) else Inr c)"
  using canon_child [OF s n] g by (simp add: read_file_def)

lemma stat_child:
  assumes s: "simple_dir w d D" and n: "plain_name n" and g: "get (tree w) (D @ [n]) = Some nd"
    and nl: "\<forall>t. nd \<noteq> Symlink t"
  shows "stat w (path_join d n) = Inr nd"
  using canon_join_nonlink [OF s n g nl] g by (simp add: stat_def)


lemma lcanon_canon_nonlink:
  assumes l: "lcanon w p = Inr q" and g: "get (tree w) q = Some nd" and nl: "\<forall>s. nd \<noteq> Symlink s"
  shows "canon w p = Inr q"
proof -
  let ?cs = "path_comps p"
  have p: "p \<noteq> []" using l by (auto simp: lcanon_def)
  show ?thesis
  proof (cases "?cs = [] \<or> trailing_slash p \<or> last ?cs = ''.'' \<or> last ?cs = ''..''")
    case True
    then show ?thesis using l p by (simp add: lcanon_def)
  next
    case False
    then obtain d m t es where r: "resolve max_symlinks (tree w) (start_dir w p) (butlast ?cs) = Inr (d, m)"
      and q: "q = d @ [last ?cs]" and dd: "get (tree w) d = Some (Dir t es)"
      using l p by (auto simp: lcanon_def Let_def split: sum.splits option.splits node.splits)
    have cs: "?cs = butlast ?cs @ [last ?cs]" using False by simp
    have "resolve m (tree w) d [last ?cs] = Inr (q, m)"
      using dd g nl q False by (cases nd) auto
    then have "resolve max_symlinks (tree w) (start_dir w p) ?cs = Inr (q, m)"
      using r by (subst cs) (simp add: resolve_append)
    with p False show ?thesis by (simp add: canon_def)
  qed
qed

lemma stat_empty: "stat w [] = Inl (OSError ENOENT [])"
  by (simp add: stat_def canon_def)

fun is_link_opt :: "node option \<Rightarrow> bool" where
  "is_link_opt (Some (Symlink _)) = True"
| "is_link_opt _ = False"

lemma set_node_fields [simp]:
  "clock (set_node w q v) = clock w" "free (set_node w q v) = free w" "cwd (set_node w q v) = cwd w"
  "locked (set_node w q v) = locked w" "unreadable (set_node w q v) = unreadable w"
  by (simp_all add: set_node_def)

lemma simple_set_child:
  assumes s: "simple_dir w d D"
  shows "simple_dir (set_node w (D @ [x]) v) d D
    \<and> get (tree (set_node w (D @ [x]) v)) (D @ [y]) = (if y = x then v else get (tree w) (D @ [y]))"
proof -
  obtain t es where D: "get (tree w) D = Some (Dir t es)" using s by (metis simple_dir_get)
  from simple_dir_set [OF s D, of x v] D show ?thesis
    by (simp add: get_child child_upd_get)
qed

lemma plain_name_append: "plain_name n \<Longrightarrow> CHR ''/'' \<notin> set s \<Longrightarrow> s \<noteq> [] \<Longrightarrow> s \<noteq> ''.'' \<Longrightarrow> plain_name (n @ s)"
  by (auto simp: plain_name_def append_eq_Cons_conv)

lemma join_append_plain:
  "d \<noteq> [] \<Longrightarrow> \<not> py_endswith ''/'' d \<Longrightarrow> plain_name n \<Longrightarrow> path_join d n @ s = path_join d (n @ s)"
  by (cases n) (auto simp: plain_name_def)

lemma write_child:
  assumes s: "simple_dir w d D" and n: "plain_name n"
    and nl: "\<forall>l. get (tree w) (D @ [n]) \<noteq> Some (Symlink l)"
    and ow: "open_write True w (path_join d n) = Inr (wa, q)"
    and wb: "write_bytes wa q nm bs = (w2, err)"
  shows "simple_dir w2 d D \<and> clock w2 = clock w \<and> free w2 = free w - min (length bs) (free w)
    \<and> (\<forall>y. get (tree w2) (D @ [y]) = (if y = n then Some (File (take (free w) bs) (clock w)) else get (tree w) (D @ [y])))
    \<and> locked w2 = locked w \<and> unreadable w2 = unreadable w
    \<and> (err = None \<longleftrightarrow> length bs \<le> free w)"
proof -
  have wa: "wa = set_node w (D @ [n]) (Some (File [] (clock w)))" and q: "q = D @ [n]"
    using ow open_write_child [OF s n nl] by (auto split: option.splits node.splits if_splits)
  note sa = simple_set_child [OF s, of n "Some (File [] (clock w))"]
  let ?k = "min (length bs) (free w)"
  have w2: "w2 = (set_node wa q (Some (File (take ?k bs) (clock w))))\<lparr>free := free w - ?k\<rparr>"
    and err: "err = (if ?k < length bs then Some (OSError ENOSPC nm) else None)"
    using wb sa wa q by (auto simp: write_bytes_def Let_def)
  note sb = simple_set_child [OF sa [THEN conjunct1], of n "Some (File (take ?k bs) (clock w))"]
  have tk: "take ?k bs = take (free w) bs" by (simp add: min_def)
  show ?thesis using sa sb w2 wa q err tk by (auto simp: set_node_def)
qed


lemma file_child_stats:
  assumes "simple_dir w d D" "plain_name n" "get (tree w) (D @ [n]) = Some (File c tm)"
  shows "getmtime w (path_join d n) = Inr tm \<and> getsize w (path_join d n) = Inr (length c)"
  using stat_child [OF assms] by (simp add: getmtime_def getsize_def)

end
