(* ===== verification/Glob.thy ===== *)
theory Glob
  imports FileSystem
begin

text \<open>
  \<open>glob.glob\<close> and \<open>fnmatch\<close> of CPython 3.11, which the retention step of
  \<open>src/backup.py\<close> uses to list \<open>backup_*.tar.gz\<close> in the destination directory.
  \<open>fnmatch.translate\<close> turns a shell pattern into a regular expression; the model turns
  it into a list of tokens (a star, any character, one literal character, a character
  class, or the empty class that never matches) with the same language. The character
  classes follow the library's rules exactly: the hyphen chunks, the removal of empty
  ranges, and the parse of the resulting class by the regular-expression compiler.
  \<open>glob\<close> itself lists directories (\<open>os.scandir\<close>, errors silently giving no names),
  hides names starting with a dot, and expands a directory part that contains magic
  characters recursively.
\<close>

section \<open>fnmatch\<close>

datatype ptok = PStar | PAny | PChar char | PClass bool "(char \<times> char) list" | PNever

text \<open>The first occurrence of \<open>c\<close> in \<open>s\<close> at an index \<open>\<ge> k\<close> (\<open>str.find\<close>).\<close>

definition find_from :: "char \<Rightarrow> string \<Rightarrow> nat \<Rightarrow> nat option" where
  "find_from c s k =
     (case filter (\<lambda>i. s ! i = c) [k..<length s] of [] \<Rightarrow> None | i # _ \<Rightarrow> Some i)"

lemma find_from_Some: "find_from c s k = Some i \<Longrightarrow> k \<le> i \<and> i < length s \<and> s ! i = c"
proof -
  assume "find_from c s k = Some i"
  then obtain r where "filter (\<lambda>i. s ! i = c) [k..<length s] = i # r"
    by (auto simp: find_from_def split: list.splits)
  then have "i \<in> set (filter (\<lambda>i. s ! i = c) [k..<length s])"
    by (metis list.set_intros(1))
  then show ?thesis by simp
qed

text \<open>
  After a \<open>[\<close>: the index of the \<open>]\<close> that closes the class, if any. A \<open>!\<close> and then
  a \<open>]\<close> right after the bracket belong to the class.
\<close>

definition class_end :: "string \<Rightarrow> nat option" where
  "class_end cs =
     (let j0 = (if cs \<noteq> [] \<and> hd cs = CHR ''!'' then 1 else 0);
          j1 = (if j0 < length cs \<and> cs ! j0 = CHR '']'' then j0 + 1 else j0)
      in find_from CHR '']'' cs j1)"

text \<open>The chunks between hyphens, as \<open>translate\<close>'s \<open>while True\<close> loop cuts them.\<close>

function hy_chunks :: "string \<Rightarrow> nat \<Rightarrow> nat \<Rightarrow> string list" where
  "hy_chunks s i k =
     (case find_from CHR ''-'' s k of
        None \<Rightarrow> [drop i s]
      | Some k' \<Rightarrow> take (k' - i) (drop i s) # hy_chunks s (Suc k') (k' + 3))"
  by pat_completeness auto
termination
proof (relation "measure (\<lambda>(s, i, k). length s + 3 - k)")
  fix s :: string and i k k'
  assume "find_from CHR ''-'' s k = Some k'"
  then have "k \<le> k'" and "k' < length s" by (auto dest: find_from_Some)
  then show "((s, Suc k', k' + 3), (s, i, k)) \<in> measure (\<lambda>(s, i, k). length s + 3 - k)"
    by simp
qed simp

text \<open>An empty last chunk adds its hyphen to the chunk before.\<close>

definition fix_last :: "string list \<Rightarrow> string list" where
  "fix_last cs =
     (if cs \<noteq> [] \<and> last cs = [] \<and> length cs \<ge> 2
      then butlast (butlast cs) @ [last (butlast cs) @ ''-'']
      else cs)"

text \<open>
  \<open>for k in range(len(chunks)-1, 0, -1)\<close>: a range whose ends are out of order is
  dropped, joining the two chunks; the loop runs from the right, so the suffix is
  processed first.
\<close>

fun drop_empty_ranges :: "string list \<Rightarrow> string list" where
  "drop_empty_ranges [] = []"
| "drop_empty_ranges [c] = [c]"
| "drop_empty_ranges (c # cs) =
     (case drop_empty_ranges cs of
        d # ds \<Rightarrow>
          (if c \<noteq> [] \<and> d \<noteq> [] \<and> of_char (last c) > (of_char (hd d) :: nat)
           then (butlast c @ tl d) # ds else c # d # ds)
      | [] \<Rightarrow> [c])"

text \<open>
  The class body handed to the regular-expression compiler: the chunks' characters,
  all literal (\<open>translate\<close> escapes them), joined by unescaped hyphens.
\<close>

datatype rtok = RLit char | RSep

fun rtok_char :: "rtok \<Rightarrow> char" where
  "rtok_char (RLit c) = c"
| "rtok_char RSep = CHR ''-''"

fun join_seps :: "string list \<Rightarrow> rtok list" where
  "join_seps [] = []"
| "join_seps [c] = map RLit c"
| "join_seps (c # cs) = map RLit c @ RSep # join_seps cs"

text \<open>
  The compiler's loop over a class body: an item followed by an unescaped hyphen and a
  further item is a range (out of order: \<open>re.error\<close>), a hyphen before the closing
  bracket is literal.
\<close>

fun sre_class :: "rtok list \<Rightarrow> (char \<times> char) list option" where
  "sre_class [] = Some []"
| "sre_class (t # RSep # u # rest) =
     (if of_char (rtok_char u) < (of_char (rtok_char t) :: nat) then None
      else map_option (Cons (rtok_char t, rtok_char u)) (sre_class rest))"
| "sre_class (t # rest) = map_option (Cons (rtok_char t, rtok_char t)) (sre_class rest)"

definition class_tok :: "string \<Rightarrow> ptok option" where
  "class_tok s =
     (let chunks =
            (if CHR ''-'' \<notin> set s then [s]
             else drop_empty_ranges
                    (fix_last (hy_chunks s 0 (if s \<noteq> [] \<and> hd s = CHR ''!'' then 2 else 1))));
          body = join_seps chunks
      in if body = [] then Some PNever
         else if body = [RLit CHR ''!''] then Some PAny
         else if hd body = RLit CHR ''!'' then map_option (PClass True) (sre_class (tl body))
         else map_option (PClass False) (sre_class body))"

function fn_translate :: "string \<Rightarrow> ptok list option" where
  "fn_translate [] = Some []"
| "fn_translate (c # cs) =
     (if c = CHR ''*'' then map_option (Cons PStar) (fn_translate cs)
      else if c = CHR ''?'' then map_option (Cons PAny) (fn_translate cs)
      else if c = CHR ''['' then
        (case class_end cs of
           None \<Rightarrow> map_option (Cons (PChar CHR ''['')) (fn_translate cs)
         | Some j \<Rightarrow>
             (case class_tok (take j cs) of
                None \<Rightarrow> None
              | Some t \<Rightarrow> map_option (Cons t) (fn_translate (drop (Suc j) cs))))
      else map_option (Cons (PChar c)) (fn_translate cs))"
  by pat_completeness auto
termination
  by (relation "measure length") auto

fun tok_match :: "ptok \<Rightarrow> char \<Rightarrow> bool" where
  "tok_match PAny x = True"
| "tok_match (PChar c) x = (x = c)"
| "tok_match (PClass neg items) x =
     (neg \<noteq> list_ex (\<lambda>(lo, hi). (of_char lo :: nat) \<le> of_char x \<and> of_char x \<le> (of_char hi :: nat)) items)"
| "tok_match PNever x = False"
| "tok_match PStar x = False"

text \<open>
  The language of a token list. \<open>translate\<close> compiles each star but the last into an
  atomic lazy group; as every token but the star matches exactly one character, that
  commits to the leftmost occurrence of the fixed part that follows, which loses no
  match, so the regular expression accepts exactly this language.
\<close>

fun wmatch :: "ptok list \<Rightarrow> string \<Rightarrow> bool" where
  "wmatch [] s = (s = [])"
| "wmatch (PStar # ps) [] = wmatch ps []"
| "wmatch (PStar # ps) (c # cs) = (wmatch ps (c # cs) \<or> wmatch (PStar # ps) cs)"
| "wmatch (t # ps) [] = False"
| "wmatch (t # ps) (c # cs) = (tok_match t c \<and> wmatch ps cs)"

text \<open>\<open>fnmatch.filter(names, pat)\<close>: the pattern is compiled first, then each name tried.\<close>

definition fnmatch_filter :: "string list \<Rightarrow> string \<Rightarrow> exc + string list" where
  "fnmatch_filter names pat =
     (case fn_translate pat of
        None \<Rightarrow> Inl ReError
      | Some ts \<Rightarrow> Inr (filter (wmatch ts) names))"

section \<open>glob\<close>

definition has_magic :: "string \<Rightarrow> bool" where
  "has_magic s = list_ex (\<lambda>c. c = CHR ''*'' \<or> c = CHR ''?'' \<or> c = CHR ''['') s"

definition is_hidden :: "string \<Rightarrow> bool" where
  "is_hidden p \<longleftrightarrow> p \<noteq> [] \<and> hd p = CHR ''.''"

text \<open>\<open>glob._listdir\<close>: the names of a directory (\<open>''''\<close> is the working directory),
  only subdirectories when \<open>dironly\<close>; any \<open>OSError\<close> gives no names.\<close>

definition glob_listdir :: "world \<Rightarrow> string \<Rightarrow> bool \<Rightarrow> string list" where
  "glob_listdir w d dironly =
     (let arg = (if d = [] then ''.'' else d) in
      case scandir w arg of
        Inl _ \<Rightarrow> []
      | Inr names \<Rightarrow> (if dironly then filter (\<lambda>n. isdir w (path_join arg n)) names else names))"

definition glob1 :: "world \<Rightarrow> string \<Rightarrow> string \<Rightarrow> bool \<Rightarrow> exc + string list" where
  "glob1 w d pat dironly =
     (let names = glob_listdir w d dironly;
          names' = (if is_hidden pat then names else filter (\<lambda>n. \<not> is_hidden n) names)
      in fnmatch_filter names' pat)"

definition glob_join :: "string \<Rightarrow> string \<Rightarrow> string" where
  "glob_join d b = (if d = [] \<or> b = [] then (if d = [] then b else d) else path_join d b)"

definition glob0 :: "world \<Rightarrow> string \<Rightarrow> string \<Rightarrow> string list" where
  "glob0 w d b =
     (if b \<noteq> [] then (if lexists w (glob_join d b) then [b] else [])
      else (if isdir w d then [b] else []))"

text \<open>
  The loop \<open>for dirname in dirs: for name in glob_in_dir(...)\<close> of \<open>glob._iglob\<close>:
  the matches in each directory, joined onto it; an exception ends the whole call.
\<close>

fun glob_dirs :: "world \<Rightarrow> string list \<Rightarrow> string \<Rightarrow> bool \<Rightarrow> exc + string list" where
  "glob_dirs w [] b dironly = Inr []"
| "glob_dirs w (d # ds) b dironly =
     (case (if has_magic b then glob1 w d b dironly else Inr (glob0 w d b)) of
        Inl e \<Rightarrow> Inl e
      | Inr ns \<Rightarrow>
          (case glob_dirs w ds b dironly of
             Inl e \<Rightarrow> Inl e
           | Inr rs \<Rightarrow> Inr (map (path_join d) ns @ rs)))"

text \<open>\<open>glob._iglob\<close> with an empty \<open>root_dir\<close>, not recursive.\<close>

function iglob :: "world \<Rightarrow> string \<Rightarrow> bool \<Rightarrow> exc + string list" where
  "iglob w pathname dironly =
     (let dname = dirname pathname; bname = basename pathname in
      if \<not> has_magic pathname then
        Inr (if bname \<noteq> [] then (if lexists w pathname then [pathname] else [])
             else (if isdir w dname then [pathname] else []))
      else if dname = [] then glob1 w [] bname dironly
      else
        (case (if dname \<noteq> pathname \<and> has_magic dname then iglob w dname True else Inr [dname]) of
           Inl e \<Rightarrow> Inl e
         | Inr ds \<Rightarrow> glob_dirs w ds bname dironly))"
  by pat_completeness auto
termination
  by (relation "measure (\<lambda>(w, p, d). length p)") (auto simp: Let_def dirname_shorter)

text \<open>\<open>glob.glob(pathname)\<close>.\<close>

definition glob :: "world \<Rightarrow> string \<Rightarrow> exc + string list" where
  "glob w pathname = iglob w pathname False"

section \<open>Listing one directory\<close>

lemma glob_in_dir:
  assumes d: "d \<noteq> []" "\<not> py_endswith ''/'' d" "\<not> has_magic d"
    and p: "CHR ''/'' \<notin> set pat" "has_magic pat" "\<not> is_hidden pat" "fn_translate pat = Some ts"
    and D: "canon w d = Inr D" "get (tree w) D = Some (Dir t es)" "D \<notin> set (unreadable w)"
  shows "glob w (path_join d pat) =
           Inr (map (path_join d) (filter (\<lambda>n. \<not> is_hidden n \<and> wmatch ts n) (map fst es)))"
proof -
  have nsl: "\<not> py_startswith ''/'' pat"
    using p(1) by (cases pat) (auto simp: py_startswith_def)
  have pj: "path_join d pat = d @ CHR ''/'' # pat"
    using d nsl by (simp add: path_join_def)
  have ps: "path_split (d @ CHR ''/'' # pat) = (d, pat)"
    using d(1,2) p(1) by (rule path_split_dir_name)
  have dn: "dirname (d @ CHR ''/'' # pat) = d" using ps by (simp add: dirname_def)
  have bn: "basename (d @ CHR ''/'' # pat) = pat" using p(1) by (rule basename_snoc_name)
  have hm: "has_magic (d @ CHR ''/'' # pat)" using p(2) by (auto simp: has_magic_def)
  have ne: "d \<noteq> d @ CHR ''/'' # pat" by simp
  have sc: "scandir w d = Inr (map fst es)" using D by (simp add: scandir_def)
  have g1: "glob1 w d pat False =
              Inr (filter (\<lambda>n. \<not> is_hidden n \<and> wmatch ts n) (map fst es))"
    using d(1) sc p(3,4) by (simp add: glob1_def glob_listdir_def fnmatch_filter_def filter_filter)
  show ?thesis
    unfolding glob_def pj
    by (subst iglob.simps) (simp add: dn bn hm ne d g1 p(2))
qed


section \<open>Literal patterns around a star\<close>

lemma wmatch_chars: "wmatch (map PChar p @ ts) s \<longleftrightarrow> (\<exists>r. s = p @ r \<and> wmatch ts r)"
proof (induction p arbitrary: s)
  case Nil
  then show ?case by simp
next
  case (Cons c p)
  then show ?case by (cases s) auto
qed

lemma wmatch_star_suffix: "wmatch (PStar # map PChar q) s \<longleftrightarrow> (\<exists>r. s = r @ q)"
proof (induction s)
  case Nil
  then show ?case using wmatch_chars [of q "[]" "[]"] by auto
next
  case (Cons c cs)
  have "wmatch (map PChar q) (c # cs) \<longleftrightarrow> c # cs = q" using wmatch_chars [of q "[]"] by auto
  with Cons show ?case by (auto simp: Cons_eq_append_conv)
qed

end
