(* ===== verification/Logging.thy ===== *)
theory Logging
  imports FileSystem Complex_Main
begin

text \<open>
  The logging of \<open>src/backup.py\<close>: the messages the script emits, as values (their
  text formatting is left out: each message is its constructor and the values it
  interpolates), the logger \<open>backup_script\<close> of Python's \<open>logging\<close> module with its
  level and handlers, the filtering that decides which record reaches which handler, and
  \<open>configurar_logger\<close> (lines 13--41), which creates the handlers. A console handler
  writes to standard error; a file handler opens its file in append mode when it is
  created. \<open>print\<close>, used when no logger is passed, writes to standard output.
\<close>

section \<open>Messages\<close>

datatype event =
    \<comment> \<open>\<open>comprimir_pasta\<close>\<close>
    EvCompressStart string | EvCompressLevel int | EvTempTar string
  | EvTarCreated string nat | EvGzipTo string | EvBackupCreated string nat
  | EvCompressRatio real | EvBackupCreatedPlain string | EvCompressError exc
    \<comment> \<open>\<open>limpar_backups_antigos\<close>\<close>
  | EvCheckingOld string | EvKeepCount int | EvFound nat | EvToRemove nat
  | EvRemoved string | EvRemoveError string exc | EvCleanError exc
    \<comment> \<open>\<open>main\<close>\<close>
  | EvRule | EvRunStart int | EvOrigin string | EvDest string | EvSourceMissing string
  | EvSourceSize nat "real \<times> string" | EvBackupSize nat "real \<times> string" | EvRatio real | EvDuration int
  | EvBackupFailed | EvRunEnd int

section \<open>Levels, handlers, logger\<close>

datatype level = DEBUG | INFO | WARNING | ERROR

fun level_no :: "level \<Rightarrow> nat" where
  "level_no DEBUG = 10"
| "level_no INFO = 20"
| "level_no WARNING = 30"
| "level_no ERROR = 40"

text \<open>\<open>NOTSET\<close>: a handler created without a level passes every record.\<close>

definition NOTSET :: nat where
  "NOTSET = 0"

datatype sink = Stderr | Stdout | LogFile string

record handler =
  hsink :: sink
  hlevel :: nat

record logger =
  llevel :: nat
  handlers :: "handler list"

text \<open>What the process writes: a record through a handler, or a \<open>print\<close>.\<close>

datatype out_rec = Emit sink level event | Print event

text \<open>
  \<open>logger.log(lvl, msg)\<close>: the logger's level filters first, then each handler's
  level; every handler that accepts the record writes it, in the order the handlers
  were added.
\<close>

text \<open>
  A logger whose own level is \<open>NOTSET\<close> takes the root logger's, \<open>WARNING\<close>.
\<close>

definition effective_level :: "logger \<Rightarrow> nat" where
  "effective_level lg = (if llevel lg = NOTSET then level_no WARNING else llevel lg)"

definition emit :: "logger \<Rightarrow> level \<Rightarrow> event \<Rightarrow> out_rec list" where
  "emit lg lvl ev =
     (if effective_level lg \<le> level_no lvl
      then map (\<lambda>h. Emit (hsink h) lvl ev) (filter (\<lambda>h. hlevel h \<le> level_no lvl) (handlers lg))
      else [])"

text \<open>
  The pattern \<open>if logger: logger.X(msg) else: print(msg)\<close> of the script, and its
  variant without an \<open>else\<close>.
\<close>

definition log_or_print :: "logger option \<Rightarrow> level \<Rightarrow> event \<Rightarrow> event \<Rightarrow> out_rec list" where
  "log_or_print lg lvl ev pev = (case lg of Some l \<Rightarrow> emit l lvl ev | None \<Rightarrow> [Print pev])"

definition log_opt :: "logger option \<Rightarrow> level \<Rightarrow> event \<Rightarrow> out_rec list" where
  "log_opt lg lvl ev = (case lg of Some l \<Rightarrow> emit l lvl ev | None \<Rightarrow> [])"

section \<open>configurar\_logger\<close>

text \<open>
  \<open>logging.getLogger('backup_script')\<close> returns the process-wide logger, so handlers
  accumulate over calls; the logger is passed in and returned. The level is set to
  \<open>INFO\<close>, a console handler is added, and a file handler when \<open>log_file\<close> is a
  non-empty string (Python's truth test). Opening the log file can fail; the exception
  leaves the function.
\<close>

definition configurar_logger :: "world \<Rightarrow> logger \<Rightarrow> string option \<Rightarrow> exc + world \<times> logger" where
  "configurar_logger w lg log_file =
     (let lg1 = lg\<lparr>llevel := level_no INFO,
                  handlers := handlers lg @ [\<lparr>hsink = Stderr, hlevel = NOTSET\<rparr>]\<rparr>
      in case log_file of
           Some f \<Rightarrow>
             (if f \<noteq> [] then
                (case open_write False w f of
                   Inl e \<Rightarrow> Inl e
                 | Inr (w', _) \<Rightarrow>
                     Inr (w', lg1\<lparr>handlers := handlers lg1 @ [\<lparr>hsink = LogFile f, hlevel = NOTSET\<rparr>]\<rparr>))
              else Inr (w, lg1))
         | None \<Rightarrow> Inr (w, lg1))"

text \<open>The logger of a fresh process: no level of its own, no handlers.\<close>

definition fresh_logger :: logger where
  "fresh_logger = \<lparr>llevel = NOTSET, handlers = []\<rparr>"

text \<open>\<open>-v\<close>: \<open>logger.setLevel(DEBUG)\<close> and every handler to \<open>DEBUG\<close> (lines 189--193).\<close>

definition set_verbose :: "logger \<Rightarrow> logger" where
  "set_verbose lg =
     lg\<lparr>llevel := level_no DEBUG, handlers := map (\<lambda>h. h\<lparr>hlevel := level_no DEBUG\<rparr>) (handlers lg)\<rparr>"

section \<open>Lemmas\<close>

lemma emit_below_level [simp]:
  "level_no lvl < effective_level lg \<Longrightarrow> emit lg lvl ev = []"
  by (simp add: emit_def)

lemma emit_events: "set (emit lg lvl ev) \<subseteq> {Emit s lvl ev | s. True}"
  by (auto simp: emit_def)


text \<open>Output that bypasses the logger: a \<open>print\<close> of the script.\<close>

definition no_print :: "out_rec list \<Rightarrow> bool" where
  "no_print os \<longleftrightarrow> list_all (\<lambda>r. case r of Print _ \<Rightarrow> False | Emit _ _ _ \<Rightarrow> True) os"

lemma no_print_simps [simp]:
  "no_print []" "no_print (xs @ ys) \<longleftrightarrow> no_print xs \<and> no_print ys"
  "no_print (emit l lvl ev)" "no_print (log_or_print (Some l) lvl ev pev)" "no_print (log_opt lg lvl ev)"
  by (auto simp: no_print_def emit_def log_or_print_def log_opt_def list_all_iff split: option.split)

end
