(* ===== verification/Retention.thy ===== *)
theory Retention
  imports Glob Logging "HOL-Library.Multiset"
begin

text \<open>
  The retention policy of \<open>src/backup.py\<close>: \<open>limpar_backups_antigos\<close> (lines 108--157).
  It lists \<open>backup_*.tar.gz\<close> in the backup directory with \<open>glob\<close>, sorts the paths by
  modification time, oldest first (\<open>sorted\<close> is stable; \<open>sort_key\<close> is the stable
  insertion sort, so the two agree), takes the slice \<open>[:-manter_quantidade]\<close> when
  there are more paths than the count to keep, and removes each of them, logging a
  failure and going on with the next. An exception before the loop (from \<open>glob\<close> or
  from \<open>os.path.getmtime\<close>) is caught: nothing is removed and the result is
  \<open>False\<close>. The model returns the new world, what the process wrote, and the result.
\<close>

section \<open>The operation\<close>

definition backup_glob :: string where
  "backup_glob = ''backup_*.tar.gz''"

text \<open>
  \<open>sorted(arquivos, key=os.path.getmtime)\<close> computes the key of every path, in list
  order, before it sorts: the first path whose \<open>stat\<close> fails raises.
\<close>

fun mtime_keys :: "world \<Rightarrow> string list \<Rightarrow> exc + (int \<times> string) list" where
  "mtime_keys w [] = Inr []"
| "mtime_keys w (p # ps) =
     (case getmtime w p of
        Inl e \<Rightarrow> Inl e
      | Inr t \<Rightarrow> (case mtime_keys w ps of Inl e \<Rightarrow> Inl e | Inr ks \<Rightarrow> Inr ((t, p) # ks)))"

definition sort_by_mtime :: "(int \<times> string) list \<Rightarrow> string list" where
  "sort_by_mtime ks = map snd (sort_key fst ks)"

text \<open>Line 133.\<close>

definition files_to_remove :: "string list \<Rightarrow> int \<Rightarrow> string list" where
  "files_to_remove ords k = (if int (length ords) > k then py_take (- k) ords else [])"

text \<open>The loop of lines 138--149: every removal is tried, a failure is logged.\<close>

fun remove_loop :: "world \<Rightarrow> logger option \<Rightarrow> string list \<Rightarrow> world \<times> out_rec list" where
  "remove_loop w lg [] = (w, [])"
| "remove_loop w lg (a # as) =
     (case remove w a of
        Inr w' \<Rightarrow>
          (let (w'', out) = remove_loop w' lg as
           in (w'', log_or_print lg INFO (EvRemoved a) (EvRemoved a) @ out))
      | Inl e \<Rightarrow>
          (let (w'', out) = remove_loop w lg as
           in (w'', log_or_print lg ERROR (EvRemoveError a e) (EvRemoveError a e) @ out)))"

definition limpar_backups_antigos ::
  "world \<Rightarrow> string \<Rightarrow> int \<Rightarrow> logger option \<Rightarrow> world \<times> out_rec list \<times> bool" where
  "limpar_backups_antigos w pasta_backup manter_quantidade lg =
     (let o1 = log_opt lg INFO (EvCheckingOld pasta_backup) @ log_opt lg INFO (EvKeepCount manter_quantidade);
          padrao = path_join pasta_backup backup_glob
      in case glob w padrao of
           Inl e \<Rightarrow> (w, o1 @ log_or_print lg ERROR (EvCleanError e) (EvCleanError e), False)
         | Inr arquivos \<Rightarrow>
             (let o2 = log_opt lg DEBUG (EvFound (length arquivos))
              in case mtime_keys w arquivos of
                   Inl e \<Rightarrow> (w, o1 @ o2 @ log_or_print lg ERROR (EvCleanError e) (EvCleanError e), False)
                 | Inr ks \<Rightarrow>
                     (let arquivos_para_remover = files_to_remove (sort_by_mtime ks) manter_quantidade;
                          o3 = log_opt lg DEBUG (EvToRemove (length arquivos_para_remover));
                          (w', o4) = remove_loop w lg arquivos_para_remover
                      in (w', o1 @ o2 @ o3 @ o4, True))))"

section \<open>Examples\<close>

text \<open>Concrete backup directories the witnesses below run the model on.\<close>

definition ex_entries :: "(string \<times> node) list" where
  "ex_entries = [(''backup_a_1.tar.gz'', File ''a'' 3), (''notes.txt'', File ''n'' 1),
                 (''backup_b_2.tar.gz'', File ''bb'' 1), (''backup_c_3.tar.gz'', File ''c'' 2)]"

definition ex_world :: world where
  "ex_world = \<lparr>tree = Dir 0 [(''bk'', Dir 1 ex_entries)],
     cwd = [], clock = 10, locked = [], unreadable = [], free = 100\<rparr>"

definition ex_entries_dir :: "(string \<times> node) list" where
  "ex_entries_dir = [(''backup_old.tar.gz'', Dir 0 []), (''backup_mid.tar.gz'', File ''m'' 2),
                     (''backup_new.tar.gz'', File ''n'' 5)]"

definition ex_world_dir :: world where
  "ex_world_dir = \<lparr>tree = Dir 0 [(''bk'', Dir 1 ex_entries_dir)],
     cwd = [], clock = 10, locked = [], unreadable = [], free = 100\<rparr>"

definition ex_world_link :: world where
  "ex_world_link = \<lparr>tree = Dir 0 [(''bk'', Dir 1 ((''backup_x.tar.gz'', Symlink ''missing'') # ex_entries))],
     cwd = [], clock = 10, locked = [], unreadable = [], free = 100\<rparr>"

section \<open>Lemmas\<close>

lemma remove_loop_fst_Cons:
  "fst (remove_loop w lg (a # as)) =
     (case remove w a of Inr w' \<Rightarrow> fst (remove_loop w' lg as) | Inl _ \<Rightarrow> fst (remove_loop w lg as))"
  by (simp split: sum.split prod.split)

definition removable :: "string list \<Rightarrow> string \<times> node \<Rightarrow> bool" where
  "removable xs e \<longleftrightarrow> fst e \<in> set xs \<and> \<not> is_dir_node (Some (snd e))"

lemma remove_loop_entries:
  assumes "simple_dir w d D" "get (tree w) D = Some (Dir t es)" "D \<notin> set (locked w)"
    "list_all plain_name xs" "distinct (map fst es)"
  shows "simple_dir (fst (remove_loop w lg (map (path_join d) xs))) d D
    \<and> get (tree (fst (remove_loop w lg (map (path_join d) xs)))) D =
        Some (Dir t (filter (\<lambda>e. \<not> removable xs e) es))
    \<and> locked (fst (remove_loop w lg (map (path_join d) xs))) = locked w"
  using assms
proof (induction xs arbitrary: w es)
  case Nil
  then show ?case by (simp add: removable_def)
next
  case (Cons x xs)
  have px: "plain_name x" and pxs: "list_all plain_name xs" using Cons.prems(4) by auto
  have rj: "remove w (path_join d x) =
     (case map_of es x of
        None \<Rightarrow> Inl (OSError ENOENT (path_join d x))
      | Some (Dir _ _) \<Rightarrow> Inl (OSError EISDIR (path_join d x))
      | Some _ \<Rightarrow> Inr (set_node w (D @ [x]) None))"
    using remove_join [OF Cons.prems(1) px] Cons.prems(2,3) get_child [OF Cons.prems(2)]
    by (simp split: option.splits node.splits)
  show ?case
  proof (cases "\<exists>nd. map_of es x = Some nd \<and> \<not> is_dir_node (Some nd)")
    case True
    then obtain nd where nd: "map_of es x = Some nd" and nd': "\<not> is_dir_node (Some nd)" by blast
    then have rm: "remove w (path_join d x) = Inr (set_node w (D @ [x]) None)"
      using rj by (cases nd) auto
    let ?w1 = "set_node w (D @ [x]) None"
    have s1: "simple_dir ?w1 d D" and g1: "get (tree ?w1) D = Some (Dir t (AList.delete x es))"
      using simple_dir_delete [OF Cons.prems(1), of x] Cons.prems(2) by auto
    have l1: "locked ?w1 = locked w" by (simp add: set_node_def)
    have dist1: "distinct (map fst (AList.delete x es))"
      using Cons.prems(5) by (simp add: distinct_delete)
    have IH: "simple_dir (fst (remove_loop ?w1 lg (map (path_join d) xs))) d D
      \<and> get (tree (fst (remove_loop ?w1 lg (map (path_join d) xs)))) D =
          Some (Dir t (filter (\<lambda>e. \<not> removable xs e) (AList.delete x es)))
      \<and> locked (fst (remove_loop ?w1 lg (map (path_join d) xs))) = locked ?w1"
      using Cons.IH [OF s1 g1 _ pxs dist1] Cons.prems(3) l1 by simp
    have "filter (\<lambda>e. \<not> removable xs e) (AList.delete x es) = filter (\<lambda>e. \<not> removable (x # xs) e) es"
      unfolding AList.delete_eq filter_filter
    proof (rule filter_cong [OF refl])
      fix e assume e: "e \<in> set es"
      show "((\<lambda>(k', _). x \<noteq> k') e \<and> \<not> removable xs e) = (\<not> removable (x # xs) e)"
      proof (cases "fst e = x")
        case True
        with e Cons.prems(5) nd have "snd e = nd"
          by (metis map_of_is_SomeI option.inject prod.collapse)
        with True nd' show ?thesis by (auto simp: removable_def split: prod.splits)
      next
        case False
        then show ?thesis by (auto simp: removable_def split: prod.splits)
      qed
    qed
    with IH rm l1 show ?thesis by (simp add: remove_loop_fst_Cons del: remove_loop.simps)
  next
    case False
    then have rm: "\<exists>e. remove w (path_join d x) = Inl e"
      using rj by (cases "map_of es x") (auto split: node.splits)
    have IH: "simple_dir (fst (remove_loop w lg (map (path_join d) xs))) d D
      \<and> get (tree (fst (remove_loop w lg (map (path_join d) xs)))) D =
          Some (Dir t (filter (\<lambda>e. \<not> removable xs e) es))
      \<and> locked (fst (remove_loop w lg (map (path_join d) xs))) = locked w"
      using Cons.IH [OF Cons.prems(1,2,3) pxs Cons.prems(5)] .
    have "filter (\<lambda>e. \<not> removable xs e) es = filter (\<lambda>e. \<not> removable (x # xs) e) es"
    proof (rule filter_cong [OF refl])
      fix e assume e: "e \<in> set es"
      show "(\<not> removable xs e) = (\<not> removable (x # xs) e)"
      proof (cases "fst e = x")
        case True
        with e Cons.prems(5) have "map_of es x = Some (snd e)"
          by (metis map_of_is_SomeI prod.collapse)
        with False True show ?thesis by (auto simp: removable_def)
      next
        case False
        then show ?thesis by (auto simp: removable_def)
      qed
    qed
    with IH rm show ?thesis by (auto simp add: remove_loop_fst_Cons simp del: remove_loop.simps)
  qed
qed

definition backup_toks :: "ptok list" where
  "backup_toks = map PChar ''backup_'' @ [PStar] @ map PChar ''.tar.gz''"

lemma fn_translate_backup_glob: "fn_translate backup_glob = Some backup_toks"
  by (simp add: backup_glob_def backup_toks_def)

definition backup_names :: "(string \<times> node) list \<Rightarrow> string list" where
  "backup_names es = filter (\<lambda>n. \<not> is_hidden n \<and> wmatch backup_toks n) (map fst es)"

text \<open>
  A reference for the pattern: a name is a backup archive when it starts with
  \<open>backup_\<close> and ends with \<open>.tar.gz\<close>, as \<open>str.startswith\<close> and \<open>str.endswith\<close>
  test it.
\<close>

definition is_backup_name :: "string \<Rightarrow> bool" where
  "is_backup_name n \<longleftrightarrow> py_startswith ''backup_'' n \<and> py_endswith ''.tar.gz'' n"

definition dir_entries :: "world \<Rightarrow> cpath \<Rightarrow> (string \<times> node) list" where
  "dir_entries w D = (case get (tree w) D of Some (Dir _ es) \<Rightarrow> es | _ \<Rightarrow> [])"

lemma glob_backups:
  assumes "simple_dir w d D" "\<not> py_endswith ''/'' d" "\<not> has_magic d"
    and "get (tree w) D = Some (Dir t es)" "D \<notin> set (unreadable w)"
  shows "glob w (path_join d backup_glob) = Inr (map (path_join d) (backup_names es))"
proof -
  have "canon w d = Inr D" using assms(1) by (rule canon_simple_dir)
  moreover have "d \<noteq> []" using assms(1) by (simp add: simple_dir_def)
  ultimately show ?thesis
    using glob_in_dir [of d backup_glob backup_toks w D t es] assms fn_translate_backup_glob
    by (simp add: backup_names_def backup_glob_def has_magic_def is_hidden_def)
qed

lemma mtime_keys_snd: "mtime_keys w ps = Inr ks \<Longrightarrow> map snd ks = ps"
  by (induction ps arbitrary: ks) (auto split: sum.splits)

lemma mtime_keys_getmtime: "mtime_keys w ps = Inr ks \<Longrightarrow> (t, p) \<in> set ks \<Longrightarrow> getmtime w p = Inr t"
  by (induction ps arbitrary: ks) (auto split: sum.splits)

lemma mset_sort_by_mtime: "mset (sort_by_mtime ks) = mset (map snd ks)"
  by (simp add: sort_by_mtime_def)

lemma files_to_remove_pos:
  "1 \<le> k \<Longrightarrow> files_to_remove xs k = take (length xs - nat k) xs"
proof -
  assume k: "1 \<le> k"
  then have "py_take (- k) xs = take (length xs - nat k) xs"
    using py_take_neg [of "nat k" xs] by simp
  with k show ?thesis by (simp add: files_to_remove_def)
qed

lemma files_to_remove_zero: "files_to_remove xs 0 = []"
  by (simp add: files_to_remove_def py_take_zero)

lemma files_to_remove_neg:
  "k < 0 \<Longrightarrow> files_to_remove xs k = take (nat (- k)) xs"
  by (simp add: files_to_remove_def py_take_nonneg)

lemma limpar_glob_error:
  "glob w (path_join d backup_glob) = Inl e \<Longrightarrow>
   fst (limpar_backups_antigos w d k lg) = w \<and> \<not> snd (snd (limpar_backups_antigos w d k lg))"
  by (simp add: limpar_backups_antigos_def)

lemma limpar_keys_error:
  "glob w (path_join d backup_glob) = Inr ps \<Longrightarrow> mtime_keys w ps = Inl e \<Longrightarrow>
   fst (limpar_backups_antigos w d k lg) = w \<and> \<not> snd (snd (limpar_backups_antigos w d k lg))"
  by (simp add: limpar_backups_antigos_def Let_def)

lemma limpar_ok:
  "glob w (path_join d backup_glob) = Inr ps \<Longrightarrow> mtime_keys w ps = Inr ks \<Longrightarrow>
   fst (limpar_backups_antigos w d k lg) =
     fst (remove_loop w lg (files_to_remove (sort_by_mtime ks) k))
   \<and> snd (snd (limpar_backups_antigos w d k lg))"
  by (simp add: limpar_backups_antigos_def Let_def split: prod.split)

definition name_of :: "string \<Rightarrow> string \<Rightarrow> string" where
  "name_of d p = drop (Suc (length d)) p"

lemma name_of_join:
  "\<not> py_endswith ''/'' d \<Longrightarrow> d \<noteq> [] \<Longrightarrow> plain_name n \<Longrightarrow> name_of d (path_join d n) = n"
  by (cases n) (auto simp: name_of_def path_join_def plain_name_def py_startswith_def)

lemma join_name_of:
  assumes "\<not> py_endswith ''/'' d" "d \<noteq> []" "list_all plain_name ns" "set ps \<subseteq> set (map (path_join d) ns)"
  shows "map (path_join d) (map (name_of d) ps) = ps"
proof -
  have "path_join d (name_of d p) = p" if "p \<in> set ps" for p
  proof -
    from that assms(4) obtain n where "n \<in> set ns" "p = path_join d n" by auto
    with assms(1-3) show ?thesis by (simp add: name_of_join list_all_iff)
  qed
  then show ?thesis by (induction ps) auto
qed

definition retention_dir :: "world \<Rightarrow> string \<Rightarrow> cpath \<Rightarrow> int \<Rightarrow> (string \<times> node) list \<Rightarrow> bool" where
  "retention_dir w d D t es \<longleftrightarrow>
     simple_dir w d D \<and> \<not> py_endswith ''/'' d \<and> \<not> has_magic d
     \<and> get (tree w) D = Some (Dir t es) \<and> D \<notin> set (unreadable w) \<and> D \<notin> set (locked w)
     \<and> distinct (map fst es) \<and> list_all plain_name (map fst es)"

lemma set_sort_by_mtime: "set (sort_by_mtime ks) = set (map snd ks)"
  by (simp add: sort_by_mtime_def)

lemma backup_match_iff: "wmatch backup_toks n \<longleftrightarrow> (\<exists>m. n = ''backup_'' @ m @ ''.tar.gz'')"
proof -
  have "wmatch backup_toks n \<longleftrightarrow> (\<exists>r. n = ''backup_'' @ r \<and> (\<exists>m. r = m @ ''.tar.gz''))"
    unfolding backup_toks_def by (simp only: append_Cons append_Nil wmatch_chars wmatch_star_suffix)
  then show ?thesis by auto
qed

lemma backup_names_iff:
  "n \<in> set (backup_names es) \<longleftrightarrow> n \<in> set (map fst es) \<and> \<not> is_hidden n
     \<and> (\<exists>m. n = ''backup_'' @ m @ ''.tar.gz'')"
  by (auto simp: backup_names_def backup_match_iff)

lemma backup_affix_length: "''backup_'' @ r = s @ ''.tar.gz'' \<Longrightarrow> length r = length s"
  by (drule arg_cong [where f = length]) simp

lemma backup_affix_long:
  "''backup_'' @ r = s @ ''.tar.gz'' \<Longrightarrow> 7 \<le> length r \<Longrightarrow> \<exists>m. r = m @ ''.tar.gz''"
  using append_eq_append_conv_if [of "''backup_''" r s "''.tar.gz''"] backup_affix_length [of r s]
  by (simp only: length_append) auto

text \<open>The two affixes cannot overlap: the \<open>_\<close> ending \<open>backup_\<close> is not in \<open>.tar.gz\<close>.\<close>

lemma backup_affix_short: "''backup_'' @ r = s @ ''.tar.gz'' \<Longrightarrow> length r < 7 \<Longrightarrow> False"
proof -
  assume e: "''backup_'' @ r = s @ ''.tar.gz''" and lr: "length r < 7"
  have u: "(s @ ''.tar.gz'') ! 6 = CHR ''_''" by (simp only: e [symmetric]) simp
  have "(s @ ''.tar.gz'') ! 6 = ''.tar.gz'' ! (6 - length s)"
    using backup_affix_length [OF e] lr by (simp add: nth_append)
  moreover have "''.tar.gz'' ! (6 - length s) \<in> set ''.tar.gz''"
    using backup_affix_length [OF e] lr by (intro nth_mem) simp
  ultimately have "CHR ''_'' \<in> set ''.tar.gz''" using u by metis
  then show False by simp
qed

lemma is_backup_name_iff: "is_backup_name n \<longleftrightarrow> (\<exists>m. n = ''backup_'' @ m @ ''.tar.gz'')"
proof
  assume "is_backup_name n"
  then obtain r s where r: "n = ''backup_'' @ r" and s: "n = s @ ''.tar.gz''"
    unfolding is_backup_name_def py_startswith_iff py_endswith_iff by blast
  have e: "''backup_'' @ r = s @ ''.tar.gz''" using r s by metis
  show "\<exists>m. n = ''backup_'' @ m @ ''.tar.gz''"
  proof (cases "7 \<le> length r")
    case True
    then show ?thesis using backup_affix_long [OF e] r by auto
  next
    case False
    then show ?thesis using backup_affix_short [OF e] by simp
  qed
next
  assume "\<exists>m. n = ''backup_'' @ m @ ''.tar.gz''"
  then obtain m where "n = ''backup_'' @ m @ ''.tar.gz''" by blast
  then show "is_backup_name n"
    unfolding is_backup_name_def py_startswith_iff py_endswith_iff by (metis append.assoc)
qed

lemma backup_names_plain:
  "list_all plain_name (map fst es) \<Longrightarrow> list_all plain_name (backup_names es)"
  by (auto simp: backup_names_def list_all_iff)

lemma files_to_remove_subset: "set (files_to_remove xs k) \<subseteq> set xs"
  by (auto simp: files_to_remove_def py_take_def dest: in_set_takeD)

lemma limpar_entries:
  assumes r: "retention_dir w d D t es"
    and ks: "mtime_keys w (map (path_join d) (backup_names es)) = Inr ks"
  shows "snd (snd (limpar_backups_antigos w d k lg))
    \<and> dir_entries (fst (limpar_backups_antigos w d k lg)) D =
        filter (\<lambda>e. \<not> removable (map (name_of d) (files_to_remove (sort_by_mtime ks) k)) e) es"
proof -
  let ?bn = "backup_names es"
  let ?rm = "files_to_remove (sort_by_mtime ks) k"
  have sd: "simple_dir w d D" and d: "\<not> py_endswith ''/'' d" "\<not> has_magic d" "d \<noteq> []"
    and D: "get (tree w) D = Some (Dir t es)" "D \<notin> set (unreadable w)" "D \<notin> set (locked w)"
    and wf: "distinct (map fst es)" "list_all plain_name (map fst es)"
    using r by (auto simp: retention_dir_def simple_dir_def)
  have g: "glob w (path_join d backup_glob) = Inr (map (path_join d) ?bn)"
    using sd d(1,2) D(1,2) by (rule glob_backups)
  have ok: "fst (limpar_backups_antigos w d k lg) = fst (remove_loop w lg ?rm)"
    and res: "snd (snd (limpar_backups_antigos w d k lg))"
    using limpar_ok [OF g ks] by auto
  have pbn: "list_all plain_name ?bn" using wf(2) by (rule backup_names_plain)
  have sub: "set ?rm \<subseteq> set (map (path_join d) ?bn)"
    using files_to_remove_subset [of "sort_by_mtime ks" k] mtime_keys_snd [OF ks]
    by (simp add: set_sort_by_mtime)
  have rm: "map (path_join d) (map (name_of d) ?rm) = ?rm"
    using d(1,3) pbn sub by (rule join_name_of)
  have pxs: "list_all plain_name (map (name_of d) ?rm)"
  proof -
    have "name_of d p \<in> set ?bn" if "p \<in> set ?rm" for p
      using that sub d(1,3) pbn by (auto simp: name_of_join list_all_iff)
    with pbn show ?thesis by (auto simp: list_all_iff)
  qed
  have "get (tree (fst (remove_loop w lg ?rm))) D =
          Some (Dir t (filter (\<lambda>e. \<not> removable (map (name_of d) ?rm) e) es))"
    using remove_loop_entries [OF sd D(1) D(3) pxs wf(1), of lg] rm by simp
  with ok res show ?thesis by (simp add: dir_entries_def)
qed

lemma filter_notin_take:
  "distinct xs \<Longrightarrow> filter (\<lambda>n. n \<notin> set (take j xs)) xs = drop j xs"
proof -
  assume dx: "distinct xs"
  have "filter (\<lambda>n. n \<notin> set (take j xs)) (take j xs) = []" by simp
  moreover have "filter (\<lambda>n. n \<notin> set (take j xs)) (drop j xs) = drop j xs"
    using set_take_drop_disjoint [OF dx, of j] by (auto simp: filter_id_conv)
  ultimately show ?thesis
    by (metis append_take_drop_id filter_append self_append_conv2)
qed

lemma length_filter_mset_eq:
  "mset xs = mset ys \<Longrightarrow> length (filter P xs) = length (filter P ys)"
  by (metis mset_filter size_mset)

lemma map_name_of_join:
  "\<not> py_endswith ''/'' d \<Longrightarrow> d \<noteq> [] \<Longrightarrow> list_all plain_name ns \<Longrightarrow>
   map (name_of d) (map (path_join d) ns) = ns"
  by (induction ns) (auto simp: name_of_join)

lemma names_sorted:
  assumes r: "retention_dir w d D t es"
    and ks: "mtime_keys w (map (path_join d) (backup_names es)) = Inr ks"
  shows "mset (map (name_of d) (sort_by_mtime ks)) = mset (backup_names es)
    \<and> distinct (map (name_of d) (sort_by_mtime ks))"
proof -
  have d: "\<not> py_endswith ''/'' d" "d \<noteq> []" and wf: "distinct (map fst es)" "list_all plain_name (map fst es)"
    using r by (auto simp: retention_dir_def simple_dir_def)
  have pbn: "list_all plain_name (backup_names es)" using wf(2) by (rule backup_names_plain)
  have inv: "map (name_of d) (map (path_join d) (backup_names es)) = backup_names es"
    using d pbn by (rule map_name_of_join)
  have m: "mset (map (name_of d) (sort_by_mtime ks)) = mset (backup_names es)"
  proof -
    have "mset (map (name_of d) (sort_by_mtime ks)) = image_mset (name_of d) (mset (sort_by_mtime ks))"
      by simp
    also have "\<dots> = mset (map (name_of d) (map (path_join d) (backup_names es)))"
      using mset_sort_by_mtime [of ks] mtime_keys_snd [OF ks] by (simp add: image_mset.compositionality)
    finally show ?thesis by (simp only: inv)
  qed
  have "distinct (backup_names es)" using wf(1) by (simp add: backup_names_def)
  with m show ?thesis by (metis mset_eq_imp_distinct_iff)
qed

lemma backup_names_after:
  assumes wf: "distinct (map fst es)"
    and nd: "list_all (\<lambda>n. \<not> is_dir_node (map_of es n)) (backup_names es)"
    and sub: "set xs \<subseteq> set (backup_names es)"
  shows "backup_names (filter (\<lambda>e. \<not> removable xs e) es) = filter (\<lambda>n. n \<notin> set xs) (backup_names es)"
proof -
  have "filter (\<lambda>n. \<not> is_hidden n \<and> wmatch backup_toks n) (map fst (filter (\<lambda>e. \<not> removable xs e) es))
      = filter (\<lambda>n. \<not> is_hidden n \<and> wmatch backup_toks n) (map fst (filter (\<lambda>e. fst e \<notin> set xs) es))"
  proof -
    have "filter (\<lambda>e. \<not> removable xs e) es = filter (\<lambda>e. fst e \<notin> set xs) es"
    proof (rule filter_cong [OF refl])
      fix e assume e: "e \<in> set es"
      show "(\<not> removable xs e) = (fst e \<notin> set xs)"
      proof (cases "fst e \<in> set xs")
        case True
        with sub have "fst e \<in> set (backup_names es)" by blast
        with nd have "\<not> is_dir_node (map_of es (fst e))" by (simp add: list_all_iff)
        moreover have "map_of es (fst e) = Some (snd e)"
          using e wf by (metis map_of_is_SomeI prod.collapse)
        ultimately show ?thesis using True by (simp add: removable_def)
      next
        case False
        then show ?thesis by (simp add: removable_def)
      qed
    qed
    then show ?thesis by simp
  qed
  then show ?thesis
    by (simp add: backup_names_def filter_map filter_filter comp_def conj_commute)
qed

lemma files_to_remove_take: "\<exists>j. files_to_remove xs k = take j xs"
  by (auto simp: files_to_remove_def py_take_def intro: exI [of _ 0])

lemma mtime_keys_error:
  "p \<in> set ps \<Longrightarrow> getmtime w p = Inl e \<Longrightarrow> \<exists>e'. mtime_keys w ps = Inl e'"
  by (induction ps) (auto split: sum.splits)

lemma map_of_filter_keep:
  "(\<forall>e \<in> set es. fst e = n \<longrightarrow> P e) \<Longrightarrow> map_of (filter P es) n = map_of es n"
  by (induction es) auto

lemma removal_names_subset:
  assumes r: "retention_dir w d D t es"
    and ks: "mtime_keys w (map (path_join d) (backup_names es)) = Inr ks"
  shows "set (map (name_of d) (files_to_remove (sort_by_mtime ks) k)) \<subseteq> set (backup_names es)"
proof -
  have "mset (map (name_of d) (sort_by_mtime ks)) = mset (backup_names es)"
    using names_sorted [OF r ks] by simp
  then have "set (map (name_of d) (sort_by_mtime ks)) = set (backup_names es)"
    by (metis set_mset_mset)
  moreover have "set (files_to_remove (sort_by_mtime ks) k) \<subseteq> set (sort_by_mtime ks)"
    by (rule files_to_remove_subset)
  ultimately show ?thesis by auto
qed

lemma remove_loop_wf: "wf_node (tree w) \<Longrightarrow> wf_node (tree (fst (remove_loop w lg xs)))"
proof (induction xs arbitrary: w)
  case (Cons a as)
  then show ?case
    unfolding remove_loop_fst_Cons by (auto dest: remove_wf split: sum.split)
qed simp

lemma limpar_wf: "wf_node (tree w) \<Longrightarrow> wf_node (tree (fst (limpar_backups_antigos w d k lg)))"
  by (simp add: limpar_backups_antigos_def Let_def case_prod_beta remove_loop_wf split: sum.split)

lemma limpar_count:
  assumes r: "retention_dir w d D t es"
    and ks: "mtime_keys w (map (path_join d) (backup_names es)) = Inr ks"
    and nd: "list_all (\<lambda>n. \<not> is_dir_node (map_of es n)) (backup_names es)"
    and k: "1 \<le> k"
  shows "snd (snd (limpar_backups_antigos w d k lg))
    \<and> length (backup_names (dir_entries (fst (limpar_backups_antigos w d k lg)) D))
        = min (length (backup_names es)) (nat k)"
proof -
  let ?nb = "map (name_of d) (sort_by_mtime ks)"
  let ?j = "length (sort_by_mtime ks) - nat k"
  have eff: "snd (snd (limpar_backups_antigos w d k lg))"
    "dir_entries (fst (limpar_backups_antigos w d k lg)) D =
       filter (\<lambda>e. \<not> removable (map (name_of d) (files_to_remove (sort_by_mtime ks) k)) e) es"
    using limpar_entries [OF r ks] by auto
  have xs: "map (name_of d) (files_to_remove (sort_by_mtime ks) k) = take ?j ?nb"
    using k by (simp add: files_to_remove_pos take_map)
  have ms: "mset ?nb = mset (backup_names es)" and dn: "distinct ?nb"
    using names_sorted [OF r ks] by auto
  have wf: "distinct (map fst es)" using r by (simp add: retention_dir_def)
  have sub: "set (take ?j ?nb) \<subseteq> set (backup_names es)"
    using ms by (metis in_set_takeD set_mset_mset subsetI)
  have "length (filter (\<lambda>n. n \<notin> set (take ?j ?nb)) (backup_names es))
      = length (filter (\<lambda>n. n \<notin> set (take ?j ?nb)) ?nb)"
    using ms by (metis length_filter_mset_eq)
  also have "\<dots> = length ?nb - ?j" using dn by (simp add: filter_notin_take)
  also have "\<dots> = min (length (backup_names es)) (nat k)"
    using ms by (metis size_mset length_map min_def diff_diff_cancel diff_le_self
        diff_is_0_eq' le_cases)
  finally show ?thesis
    using eff xs backup_names_after [OF wf nd sub] by simp
qed

lemma removed_not_newer:
  assumes ks: "mtime_keys w ps = Inr ks"
    and p: "p \<in> set (files_to_remove (sort_by_mtime ks) k)"
    and q: "q \<in> set ps" "q \<notin> set (files_to_remove (sort_by_mtime ks) k)"
    and tp: "getmtime w p = Inr tp" and tq: "getmtime w q = Inr tq"
  shows "tp \<le> tq"
proof -
  let ?sk = "sort_key fst ks"
  let ?L = "map snd ?sk"
  obtain j where j: "files_to_remove (sort_by_mtime ks) k = take j ?L"
    using files_to_remove_take by (metis sort_by_mtime_def)
  from p j obtain i where i: "i < j" "i < length ?L" "?L ! i = p"
    by (auto simp: in_set_conv_nth)
  have "q \<in> set ?L" using q(1) mtime_keys_snd [OF ks] by (metis list.set_map set_sort)
  then obtain i' where i': "i' < length ?L" "?L ! i' = q" by (metis in_set_conv_nth)
  have "j \<le> i'"
  proof (rule ccontr)
    assume "\<not> j \<le> i'"
    then have "q \<in> set (take j ?L)" using i' by (auto simp: in_set_conv_nth)
    with q(2) j show False by simp
  qed
  with i have le: "i \<le> i'" by simp
  have srt: "sorted (map fst ?sk)" by simp
  have "fst (?sk ! i) \<le> fst (?sk ! i')"
    using sorted_nth_mono [OF srt, of i i'] le i' by simp
  moreover have gm: "getmtime w (snd (?sk ! m)) = Inr (fst (?sk ! m))" if "m < length ?sk" for m
  proof -
    have "?sk ! m \<in> set ks" using that by (metis nth_mem set_sort)
    then show ?thesis using mtime_keys_getmtime [OF ks] by (metis prod.collapse)
  qed
  moreover have "tp = fst (?sk ! i)" using gm [of i] i tp by simp
  moreover have "tq = fst (?sk ! i')" using gm [of i'] i' tq by simp
  ultimately show ?thesis by simp
qed

lemma limpar_keeps_newest:
  assumes r: "retention_dir w d D t es"
    and ks: "mtime_keys w (map (path_join d) (backup_names es)) = Inr ks"
    and nd: "list_all (\<lambda>n. \<not> is_dir_node (map_of es n)) (backup_names es)"
    and k: "1 \<le> k"
    and x: "x \<in> set (backup_names es)" and tx: "getmtime w (path_join d x) = Inr tx"
    and older: "\<forall>y \<in> set (backup_names es). y \<noteq> x \<longrightarrow> (\<exists>ty. getmtime w (path_join d y) = Inr ty \<and> ty < tx)"
  shows "x \<in> set (backup_names (dir_entries (fst (limpar_backups_antigos w d k lg)) D))"
proof -
  let ?bn = "backup_names es" and ?L = "sort_by_mtime ks"
  let ?rm = "files_to_remove ?L k"
  have d: "\<not> py_endswith ''/'' d" "d \<noteq> []" and wf: "distinct (map fst es)" "list_all plain_name (map fst es)"
    using r by (auto simp: retention_dir_def simple_dir_def)
  have pbn: "list_all plain_name ?bn" using wf(2) by (rule backup_names_plain)
  have sL: "set ?L = set (map (path_join d) ?bn)"
    using mtime_keys_snd [OF ks] by (simp add: set_sort_by_mtime)
  have dL: "distinct ?L" using names_sorted [OF r ks] by (simp add: distinct_map)
  have px: "path_join d x \<notin> set ?rm"
  proof
    assume pr: "path_join d x \<in> set ?rm"
    have ne: "?L \<noteq> []" using sL x by auto
    let ?q = "last ?L"
    have rm: "?rm = take (length ?L - nat k) ?L" using k by (rule files_to_remove_pos)
    have qn: "?q \<notin> set ?rm"
      using last_notin_take [OF dL, of "length ?L - nat k"] rm ne k by simp
    have "?q \<in> set ?L" using ne by simp
    then obtain y where y: "y \<in> set ?bn" "?q = path_join d y" using sL by auto
    have "y \<noteq> x" using y(2) pr qn by auto
    then obtain ty where ty: "getmtime w ?q = Inr ty" "ty < tx" using older y by auto
    have "tx \<le> ty"
      using removed_not_newer [OF ks pr _ qn tx ty(1)] \<open>?q \<in> set ?L\<close> sL by simp
    with ty(2) show False by simp
  qed
  have "x \<notin> set (map (name_of d) ?rm)"
  proof
    assume "x \<in> set (map (name_of d) ?rm)"
    then obtain p where p: "p \<in> set ?rm" "x = name_of d p" by auto
    have "p \<in> set ?L" using p(1) files_to_remove_subset by blast
    then obtain y where "y \<in> set ?bn" "p = path_join d y" using sL by auto
    with p d pbn have "p = path_join d x" by (simp add: name_of_join list_all_iff)
    with p(1) px show False by simp
  qed
  then show ?thesis
    using limpar_entries [OF r ks, of k lg] backup_names_after [OF wf(1) nd removal_names_subset [OF r ks]] x
    by simp
qed

lemma mtime_keys_ok: "(\<forall>p \<in> set ps. \<exists>t. getmtime w p = Inr t) \<Longrightarrow> \<exists>ks. mtime_keys w ps = Inr ks"
  by (induction ps) (auto split: sum.split)

lemma backup_name_plain:
  assumes "CHR ''/'' \<notin> set m"
  shows "plain_name (''backup_'' @ m @ ''.tar.gz'')"
  using assms by (auto simp: plain_name_def)

lemma backup_names_insert:
  assumes es': "\<forall>y. map_of es' y = (if y = x then Some v else map_of es y)"
    and x: "\<exists>m. x = ''backup_'' @ m @ ''.tar.gz''"
  shows "set (backup_names es') = insert x (set (backup_names es))"
proof -
  have k: "y \<in> set (map fst l) \<longleftrightarrow> map_of l y \<noteq> None" for l y
    by (simp add: map_of_eq_None_iff)
  have "y \<in> set (map fst es') \<longleftrightarrow> y = x \<or> y \<in> set (map fst es)" for y
    using es' [rule_format, of y] k [of y es'] k [of y es] by auto
  moreover have "\<not> is_hidden x" using x by (auto simp: is_hidden_def)
  ultimately show ?thesis using x by (auto simp: backup_names_iff)
qed

lemma prune_after_new_archive:
  assumes rd: "retention_dir w d D t es'"
    and es': "\<forall>y. map_of es' y = (if y = x then Some (File c tx) else map_of es y)"
    and x: "\<exists>m. x = ''backup_'' @ m @ ''.tar.gz''" and xn: "map_of es x = None"
    and dist: "distinct (map fst es)"
    and old: "\<forall>n \<in> set (backup_names es). \<exists>c tm. map_of es n = Some (File c tm) \<and> tm < tx"
    and k: "1 \<le> k"
  shows "snd (snd (limpar_backups_antigos w d k lg))
    \<and> x \<in> set (backup_names (dir_entries (fst (limpar_backups_antigos w d k lg)) D))
    \<and> length (backup_names (dir_entries (fst (limpar_backups_antigos w d k lg)) D))
        = min (Suc (length (backup_names es))) (nat k)"
proof -
  let ?bn = "backup_names es'"
  have s: "simple_dir w d D" and D: "get (tree w) D = Some (Dir t es')"
    and dn: "distinct (map fst es')" "list_all plain_name (map fst es')"
    using rd by (auto simp: retention_dir_def)
  have bn: "set ?bn = insert x (set (backup_names es))" using backup_names_insert [OF es' x] .
  have xo: "x \<notin> set (backup_names es)" using xn by (auto simp: backup_names_def map_of_eq_None_iff)
  have "distinct ?bn" "distinct (backup_names es)" using dn(1) dist by (simp_all add: backup_names_def)
  then have len: "length ?bn = Suc (length (backup_names es))"
    using bn xo by (metis card_insert_disjoint distinct_card finite_set)
  have fl: "\<exists>c' tm. map_of es' y = Some (File c' tm) \<and> (if y = x then tm = tx else tm < tx)"
    if "y \<in> set ?bn" for y
    using that bn old es' by (cases "y = x") auto
  have gm: "\<exists>tm. getmtime w (path_join d y) = Inr tm \<and> (if y = x then tm = tx else tm < tx)"
    if "y \<in> set ?bn" for y
  proof -
    from fl [OF that] obtain c' tm where f: "map_of es' y = Some (File c' tm)"
      and tm: "if y = x then tm = tx else tm < tx" by blast
    have "plain_name y" using that dn(2) by (auto simp: backup_names_def list_all_iff)
    then show ?thesis using file_child_stats [OF s _ get_child [OF D, of y, unfolded f]] tm by blast
  qed
  obtain ks where ks: "mtime_keys w (map (path_join d) ?bn) = Inr ks"
    using mtime_keys_ok [of "map (path_join d) ?bn" w] gm by fastforce
  have nd: "list_all (\<lambda>n. \<not> is_dir_node (map_of es' n)) ?bn"
    using fl by (fastforce simp: list_all_iff)
  have xin: "x \<in> set ?bn" using bn by simp
  have tx: "getmtime w (path_join d x) = Inr tx" using gm [OF xin] by auto
  have older: "\<forall>y \<in> set ?bn. y \<noteq> x \<longrightarrow> (\<exists>ty. getmtime w (path_join d y) = Inr ty \<and> ty < tx)"
    using gm by fastforce
  show ?thesis
    using limpar_count [OF rd ks nd k, of lg] limpar_keeps_newest [OF rd ks nd k xin tx older, of lg] len
    by simp
qed

lemma remove_loop_no_print: "no_print (snd (remove_loop w (Some l) xs))"
  by (induction xs arbitrary: w) (simp_all add: case_prod_beta split: sum.split)

lemma limpar_no_print: "no_print (fst (snd (limpar_backups_antigos w d k (Some l))))"
  by (simp add: limpar_backups_antigos_def Let_def case_prod_beta remove_loop_no_print split: sum.split)

section \<open>Properties\<close>

text \<open>
  C1: Retention law. In a backup directory named without links, whose entries have distinct plain names, and whose archives all have a modification time and none is a directory, \<open>limpar_backups_antigos\<close> with a count \<open>k \<ge> 1\<close> to keep succeeds and leaves exactly \<open>min m k\<close> of the \<open>m\<close> archives matching \<open>backup_*.tar.gz\<close>.
\<close>

theorem retention_law:
  assumes r: "retention_dir w d D t es"
    and ks: "mtime_keys w (map (path_join d) (backup_names es)) = Inr ks"
    and nd: "list_all (\<lambda>n. \<not> is_dir_node (map_of es n)) (backup_names es)"
    and k: "1 \<le> k"
  shows "snd (snd (limpar_backups_antigos w d k lg))
    \<and> length (backup_names (dir_entries (fst (limpar_backups_antigos w d k lg)) D))
        = min (length (backup_names es)) (nat k)"
  using limpar_count [OF r ks nd k] .


theorem retention_law_witness:
  "retention_dir ex_world ''/bk'' [''bk''] 1 ex_entries
   \<and> mtime_keys ex_world (map (path_join ''/bk'') (backup_names ex_entries))
       = Inr [(3, ''/bk/backup_a_1.tar.gz''), (1, ''/bk/backup_b_2.tar.gz''), (2, ''/bk/backup_c_3.tar.gz'')]
   \<and> list_all (\<lambda>n. \<not> is_dir_node (map_of ex_entries n)) (backup_names ex_entries)
   \<and> length (backup_names (dir_entries (fst (limpar_backups_antigos ex_world ''/bk'' 1 None)) [''bk''])) = 1"
proof -
  have h1: "retention_dir ex_world ''/bk'' [''bk''] 1 ex_entries" by code_simp
  have h2: "mtime_keys ex_world (map (path_join ''/bk'') (backup_names ex_entries))
       = Inr [(3, ''/bk/backup_a_1.tar.gz''), (1, ''/bk/backup_b_2.tar.gz''), (2, ''/bk/backup_c_3.tar.gz'')]"
    by code_simp
  have h3: "list_all (\<lambda>n. \<not> is_dir_node (map_of ex_entries n)) (backup_names ex_entries)" by code_simp
  have m: "length (backup_names ex_entries) = 3" by code_simp
  show ?thesis using retention_law [OF h1 h2 h3, of 1 None] h1 h2 h3 m by simp
qed

text \<open>
  C4: The archives removed are the oldest: every path chosen for removal has a modification time no later than that of every matching path that is kept, for any count.
\<close>

theorem retention_removes_oldest:
  assumes ks: "mtime_keys w ps = Inr ks"
    and p: "p \<in> set (files_to_remove (sort_by_mtime ks) k)"
    and q: "q \<in> set ps" "q \<notin> set (files_to_remove (sort_by_mtime ks) k)"
    and tp: "getmtime w p = Inr tp" and tq: "getmtime w q = Inr tq"
  shows "tp \<le> tq"
  using removed_not_newer [OF ks p q tp tq] .

theorem retention_removes_oldest_witness:
  "mtime_keys ex_world (map (path_join ''/bk'') (backup_names ex_entries))
     = Inr [(3, ''/bk/backup_a_1.tar.gz''), (1, ''/bk/backup_b_2.tar.gz''), (2, ''/bk/backup_c_3.tar.gz'')]
   \<and> ''/bk/backup_b_2.tar.gz'' \<in> set (files_to_remove (sort_by_mtime
       [(3, ''/bk/backup_a_1.tar.gz''), (1, ''/bk/backup_b_2.tar.gz''), (2, ''/bk/backup_c_3.tar.gz'')]) 1)
   \<and> ''/bk/backup_a_1.tar.gz'' \<notin> set (files_to_remove (sort_by_mtime
       [(3, ''/bk/backup_a_1.tar.gz''), (1, ''/bk/backup_b_2.tar.gz''), (2, ''/bk/backup_c_3.tar.gz'')]) 1)
   \<and> getmtime ex_world ''/bk/backup_b_2.tar.gz'' = Inr 1
   \<and> getmtime ex_world ''/bk/backup_a_1.tar.gz'' = Inr 3
   \<and> (1::int) \<le> 3"
proof -
  let ?ks = "[(3::int, ''/bk/backup_a_1.tar.gz''), (1, ''/bk/backup_b_2.tar.gz''), (2, ''/bk/backup_c_3.tar.gz'')]"
  have h1: "mtime_keys ex_world (map (path_join ''/bk'') (backup_names ex_entries)) = Inr ?ks"
    by code_simp
  have h2: "''/bk/backup_b_2.tar.gz'' \<in> set (files_to_remove (sort_by_mtime ?ks) 1)" by code_simp
  have h3: "''/bk/backup_a_1.tar.gz'' \<in> set (map (path_join ''/bk'') (backup_names ex_entries))"
    by code_simp
  have h4: "''/bk/backup_a_1.tar.gz'' \<notin> set (files_to_remove (sort_by_mtime ?ks) 1)" by code_simp
  have h5: "getmtime ex_world ''/bk/backup_b_2.tar.gz'' = Inr 1" by code_simp
  have h6: "getmtime ex_world ''/bk/backup_a_1.tar.gz'' = Inr 3" by code_simp
  show ?thesis using retention_removes_oldest [OF h1 h2 h3 h4 h5 h6] h1 h2 h4 h5 h6 by simp
qed

text \<open>
  C16: Files that do not match \<open>backup_*.tar.gz\<close> are untouched: their entries in the backup directory are the same after the retention step.
\<close>

theorem retention_keeps_other_entries:
  assumes r: "retention_dir w d D t es"
    and ks: "mtime_keys w (map (path_join d) (backup_names es)) = Inr ks"
    and n: "n \<notin> set (backup_names es)"
  shows "map_of (dir_entries (fst (limpar_backups_antigos w d k lg)) D) n = map_of es n"
proof -
  let ?xs = "map (name_of d) (files_to_remove (sort_by_mtime ks) k)"
  have "dir_entries (fst (limpar_backups_antigos w d k lg)) D = filter (\<lambda>e. \<not> removable ?xs e) es"
    using limpar_entries [OF r ks] by simp
  moreover have "n \<notin> set ?xs" using removal_names_subset [OF r ks, of k] n by blast
  ultimately show ?thesis by (simp add: map_of_filter_keep removable_def)
qed

theorem retention_keeps_other_entries_witness:
  "retention_dir ex_world ''/bk'' [''bk''] 1 ex_entries
   \<and> ''notes.txt'' \<notin> set (backup_names ex_entries)
   \<and> map_of (dir_entries (fst (limpar_backups_antigos ex_world ''/bk'' 1 None)) [''bk'']) ''notes.txt''
       = Some (File ''n'' 1)"
proof -
  have h1: "retention_dir ex_world ''/bk'' [''bk''] 1 ex_entries" by code_simp
  have h2: "mtime_keys ex_world (map (path_join ''/bk'') (backup_names ex_entries))
       = Inr [(3, ''/bk/backup_a_1.tar.gz''), (1, ''/bk/backup_b_2.tar.gz''), (2, ''/bk/backup_c_3.tar.gz'')]"
    by code_simp
  have h3: "''notes.txt'' \<notin> set (backup_names ex_entries)" by code_simp
  have "map_of ex_entries ''notes.txt'' = Some (File ''n'' 1)" by code_simp
  then show ?thesis using retention_keeps_other_entries [OF h1 h2 h3, of 1 None] h1 h3 by simp
qed

text \<open>
  C17: Partial-failure tolerance: every chosen archive that is not a directory is removed even when another chosen one cannot be (a directory named like an archive stays, its removal failing with EISDIR), and the step still reports success.
\<close>

theorem retention_partial_failure:
  assumes r: "retention_dir w d D t es"
    and ks: "mtime_keys w (map (path_join d) (backup_names es)) = Inr ks"
  shows "snd (snd (limpar_backups_antigos w d k lg))
    \<and> (\<forall>e \<in> set es. e \<in> set (dir_entries (fst (limpar_backups_antigos w d k lg)) D) \<longleftrightarrow>
         \<not> (fst e \<in> set (map (name_of d) (files_to_remove (sort_by_mtime ks) k))
             \<and> \<not> is_dir_node (Some (snd e))))"
  using limpar_entries [OF r ks, of k lg] by (auto simp: removable_def)

theorem retention_partial_failure_witness:
  "retention_dir ex_world_dir ''/bk'' [''bk''] 1 ex_entries_dir
   \<and> snd (snd (limpar_backups_antigos ex_world_dir ''/bk'' 1 None))
   \<and> dir_entries (fst (limpar_backups_antigos ex_world_dir ''/bk'' 1 None)) [''bk'']
       = [(''backup_old.tar.gz'', Dir 0 []), (''backup_new.tar.gz'', File ''n'' 5)]"
proof -
  let ?ks = "[(0::int, ''/bk/backup_old.tar.gz''), (2, ''/bk/backup_mid.tar.gz''), (5, ''/bk/backup_new.tar.gz'')]"
  have h1: "retention_dir ex_world_dir ''/bk'' [''bk''] 1 ex_entries_dir" by code_simp
  have h2: "mtime_keys ex_world_dir (map (path_join ''/bk'') (backup_names ex_entries_dir)) = Inr ?ks"
    by code_simp
  have c: "map (name_of ''/bk'') (files_to_remove (sort_by_mtime ?ks) 1)
             = [''backup_old.tar.gz'', ''backup_mid.tar.gz'']" by code_simp
  have e: "dir_entries (fst (limpar_backups_antigos ex_world_dir ''/bk'' 1 None)) [''bk'']
       = [(''backup_old.tar.gz'', Dir 0 []), (''backup_new.tar.gz'', File ''n'' 5)]"
  proof -
    let ?E = "dir_entries (fst (limpar_backups_antigos ex_world_dir ''/bk'' 1 None)) [''bk'']"
    have "?E = filter (\<lambda>e. \<not> removable [''backup_old.tar.gz'', ''backup_mid.tar.gz''] e) ex_entries_dir"
      using limpar_entries [OF h1 h2, of 1 None] c by simp
    then show ?thesis by code_simp
  qed
  show ?thesis using retention_partial_failure [OF h1 h2, of 1 None] h1 e by simp
qed

text \<open>
  C19: A matching entry whose modification time cannot be read (a dangling link named like an archive) makes the whole retention step fail before it removes anything: the world is unchanged and the result is \<open>False\<close>.
\<close>

theorem retention_dangling_link_aborts:
  assumes g: "glob w (path_join d backup_glob) = Inr ps"
    and p: "p \<in> set ps" and e: "getmtime w p = Inl err"
  shows "fst (limpar_backups_antigos w d k lg) = w \<and> \<not> snd (snd (limpar_backups_antigos w d k lg))"
proof -
  obtain e' where "mtime_keys w ps = Inl e'" using mtime_keys_error [OF p e] by blast
  with g show ?thesis by (rule limpar_keys_error)
qed

theorem retention_dangling_link_aborts_witness:
  "glob ex_world_link (path_join ''/bk'' backup_glob)
     = Inr [''/bk/backup_x.tar.gz'', ''/bk/backup_a_1.tar.gz'', ''/bk/backup_b_2.tar.gz'', ''/bk/backup_c_3.tar.gz'']
   \<and> getmtime ex_world_link ''/bk/backup_x.tar.gz'' = Inl (OSError ENOENT ''/bk/backup_x.tar.gz'')
   \<and> fst (limpar_backups_antigos ex_world_link ''/bk'' 1 None) = ex_world_link
   \<and> \<not> snd (snd (limpar_backups_antigos ex_world_link ''/bk'' 1 None))"
proof -
  have h1: "glob ex_world_link (path_join ''/bk'' backup_glob)
     = Inr [''/bk/backup_x.tar.gz'', ''/bk/backup_a_1.tar.gz'', ''/bk/backup_b_2.tar.gz'', ''/bk/backup_c_3.tar.gz'']"
    by code_simp
  have h2: "''/bk/backup_x.tar.gz'' \<in> set [''/bk/backup_x.tar.gz'', ''/bk/backup_a_1.tar.gz'', ''/bk/backup_b_2.tar.gz'', ''/bk/backup_c_3.tar.gz'']"
    by simp
  have h3: "getmtime ex_world_link ''/bk/backup_x.tar.gz'' = Inl (OSError ENOENT ''/bk/backup_x.tar.gz'')"
    by code_simp
  show ?thesis using retention_dangling_link_aborts [OF h1 h2 h3, of 1 None] h1 h3 by simp
qed

text \<open>
  C15: A count of zero archives to keep removes nothing: \<open>xs[:-0]\<close> is \<open>xs[:0]\<close>, the empty list, so the step leaves the world as it was, where the specification asks that all \<open>m\<close> archives be removed.
\<close>

theorem retention_keep_zero: "fst (limpar_backups_antigos w d 0 lg) = w"
  by (simp add: limpar_backups_antigos_def Let_def files_to_remove_zero split: sum.split prod.split)


text \<open>
  C10: Equivalence of the glob with a reference test: in a directory reached without links that can be listed, \<open>glob.glob(os.path.join(d, 'backup_*.tar.gz'))\<close>, with its translation of the pattern by \<open>fnmatch\<close>, its matching and its rule that \<open>*\<close> does not match a leading dot, returns exactly the joined paths of the entries that start with \<open>backup_\<close> and end with \<open>.tar.gz\<close>, in directory order.
\<close>

theorem glob_backup_reference:
  assumes "simple_dir w d D" "\<not> py_endswith ''/'' d" "\<not> has_magic d"
    and "get (tree w) D = Some (Dir t es)" "D \<notin> set (unreadable w)"
  shows "glob w (path_join d backup_glob) = Inr (map (path_join d) (filter is_backup_name (map fst es)))"
proof -
  have "\<And>n. (\<not> is_hidden n \<and> wmatch backup_toks n) = is_backup_name n"
    by (auto simp: backup_match_iff is_backup_name_iff is_hidden_def)
  then have "backup_names es = filter is_backup_name (map fst es)"
    unfolding backup_names_def by presburger
  then show ?thesis using glob_backups [OF assms] by simp
qed

theorem glob_backup_reference_witness:
  "glob ex_world (path_join ''/bk'' backup_glob)
     = Inr [''/bk/backup_a_1.tar.gz'', ''/bk/backup_b_2.tar.gz'', ''/bk/backup_c_3.tar.gz'']"
proof -
  have h: "simple_dir ex_world ''/bk'' [''bk'']" "\<not> py_endswith ''/'' ''/bk''" "\<not> has_magic ''/bk''"
    "get (tree ex_world) [''bk''] = Some (Dir 1 ex_entries)" "[''bk''] \<notin> set (unreadable ex_world)"
    by code_simp+
  have f: "map (path_join ''/bk'') (filter is_backup_name (map fst ex_entries))
     = [''/bk/backup_a_1.tar.gz'', ''/bk/backup_b_2.tar.gz'', ''/bk/backup_c_3.tar.gz'']" by code_simp
  show ?thesis using glob_backup_reference [OF h] f by simp
qed



end
