(* ===== verification/SizeAccounting.thy ===== *)
theory SizeAccounting
  imports FileSystem Complex_Main
begin

text \<open>
  The two size helpers of \<open>src/backup.py\<close>. \<open>calcular_tamanho_diretorio\<close>
  (lines 249--257) walks a directory with \<open>os.walk\<close> (CPython 3.11, top-down, no
  error callback, links to directories not descended) and adds the size of every
  non-directory entry that \<open>os.path.exists\<close>; \<open>formatar_tamanho\<close> (lines 260--266)
  picks the unit of a byte count. The lemmas show that the walk terminates on every
  world whose directories hold distinct plain names, that on a tree without links it
  is the sum of the file sizes, and which unit \<open>formatar_tamanho\<close> picks.
\<close>

section \<open>os.walk and the size sum\<close>

text \<open>\<open>os.path.islink\<close>: \<open>lstat\<close> succeeds and finds a link.\<close>

definition islink :: "world \<Rightarrow> string \<Rightarrow> bool" where
  "islink w p = (case lstat w p of Inr (Symlink _) \<Rightarrow> True | _ \<Rightarrow> False)"

text \<open>
  Lines 254--256 for one name: the size is added when the path exists (following
  links); \<open>getsize\<close> then succeeds, so its error branch is never taken.
\<close>

definition file_bytes :: "world \<Rightarrow> string \<Rightarrow> nat" where
  "file_bytes w fp = (if exists w fp then (case getsize w fp of Inr s \<Rightarrow> s | Inl _ \<Rightarrow> 0) else 0)"

text \<open>
  The directories of a listing that the walk enters: the names whose entry is a
  directory (\<open>entry.is_dir()\<close>, following links, an error counting as \<open>False\<close>),
  joined to the directory's path, without those that are links (\<open>os.path.islink\<close>).
\<close>

definition walk_subs :: "world \<Rightarrow> string \<Rightarrow> string list \<Rightarrow> string list" where
  "walk_subs w d names =
     filter (\<lambda>p. \<not> islink w p) (map (path_join d) (filter (\<lambda>n. isdir w (path_join d n)) names))"

text \<open>
  \<open>os._walk\<close> with the loop body of \<open>calcular_tamanho_diretorio\<close>, as a work list of
  directories still to visit, in the order the recursive generator visits them: a
  directory that cannot be listed is skipped (\<open>onerror\<close> is \<open>None\<close>); its entries are
  split by \<open>entry.is_dir()\<close>; the sizes of the non-directories are added; the
  sub-directories that are not links are visited next, before the rest of the list.
  Nothing bounds the depth of the walk in the code, so the model is a partial
  function: \<open>None\<close> is a walk that does not end.
\<close>

partial_function (option) walk_sum :: "world \<Rightarrow> string list \<Rightarrow> nat option" where
  "walk_sum w tops =
     (case tops of
        [] \<Rightarrow> Some 0
      | d # rest \<Rightarrow>
          (case scandir w d of
             Inl _ \<Rightarrow> walk_sum w rest
           | Inr names \<Rightarrow>
               (let nondirs = filter (\<lambda>n. \<not> isdir w (path_join d n)) names
                in Option.bind (walk_sum w (walk_subs w d names @ rest))
                     (\<lambda>s. Some (sum_list (map (\<lambda>f. file_bytes w (path_join d f)) nondirs) + s)))))"

definition calcular_tamanho_diretorio :: "world \<Rightarrow> string \<Rightarrow> nat option" where
  "calcular_tamanho_diretorio w diretorio = walk_sum w [diretorio]"

section \<open>formatar\_tamanho\<close>

text \<open>
  The loop over the units: the value is divided by 1024 until it is below 1024; past
  \<open>TB\<close> the unit is \<open>PB\<close> whatever the value. The result is the number and the unit
  the f-string prints; its rendering with two decimals is not modelled. The script
  passes byte counts (Python \<open>int\<close>s) that the first division turns into floats;
  dividing by 1024 is exact on floats, so below \<open>2^53\<close> the real numbers here are
  the floats the code computes.
\<close>

fun fmt_loop :: "real \<Rightarrow> string list \<Rightarrow> real \<times> string" where
  "fmt_loop x [] = (x, ''PB'')"
| "fmt_loop x (u # us) = (if x < 1024 then (x, u) else fmt_loop (x / 1024) us)"

definition size_units :: "string list" where
  "size_units = [''B'', ''KB'', ''MB'', ''GB'', ''TB'']"

definition formatar_tamanho :: "nat \<Rightarrow> real \<times> string" where
  "formatar_tamanho tamanho_bytes = fmt_loop (real tamanho_bytes) size_units"

section \<open>What the walk computes\<close>

text \<open>The bytes of the regular files of a tree, links not counted.\<close>

fun tree_bytes :: "node \<Rightarrow> nat" where
  "tree_bytes (File c t) = length c"
| "tree_bytes (Dir t es) = sum_list (map (\<lambda>x. tree_bytes (snd x)) es)"
| "tree_bytes (Symlink _) = 0"

text \<open>A subtree at \<open>q\<close> with no links and whose directories can all be listed.\<close>

fun plain_tree :: "world \<Rightarrow> cpath \<Rightarrow> node \<Rightarrow> bool" where
  "plain_tree w q (Dir t es) = (q \<notin> set (unreadable w) \<and> (\<forall>x \<in> set es. plain_tree w (q @ [fst x]) (snd x)))"
| "plain_tree w q (File c t) = True"
| "plain_tree w q (Symlink s) = False"

text \<open>
  What the walk from a path should add up to: the bytes of the files under the node
  it names.
\<close>

definition walk_bytes :: "world \<Rightarrow> string \<Rightarrow> nat" where
  "walk_bytes w p = (case canon w p of Inr q \<Rightarrow> (case get (tree w) q of Some nd \<Rightarrow> tree_bytes nd | None \<Rightarrow> 0) | Inl _ \<Rightarrow> 0)"

text \<open>A path naming a directory whose subtree has no links and can be listed.\<close>

definition plain_dir_at :: "world \<Rightarrow> string \<Rightarrow> bool" where
  "plain_dir_at w p =
     (case canon w p of
        Inr q \<Rightarrow> (case get (tree w) q of Some (Dir t es) \<Rightarrow> plain_tree w q (Dir t es) | _ \<Rightarrow> False)
      | Inl _ \<Rightarrow> False)"

section \<open>Examples\<close>

text \<open>
  A source directory with a file, a sub-directory, a link to the file, a dangling link
  and a link to the parent directory; and the same directory without the links.
\<close>

definition ex_src_world :: world where
  "ex_src_world = \<lparr>tree = Dir 0 [(''src'', Dir 1
      [(''a.txt'', File ''hello'' 1), (''sub'', Dir 2 [(''b.bin'', File ''xyz'' 2)]),
       (''lnk'', Symlink ''a.txt''), (''dang'', Symlink ''nope''), (''up'', Symlink ''..'')])],
     cwd = [], clock = 10, locked = [], unreadable = [], free = 100\<rparr>"

definition ex_plain_world :: world where
  "ex_plain_world = \<lparr>tree = Dir 0 [(''src'', Dir 1
      [(''a.txt'', File ''hello'' 1), (''sub'', Dir 2 [(''b.bin'', File ''xyz'' 2)])])],
     cwd = [], clock = 10, locked = [], unreadable = [], free = 100\<rparr>"

section \<open>Lemmas\<close>

lemma size_child: "(n, c) \<in> set es \<Longrightarrow> size c < size (Dir t es)"
  by (induction es) auto

lemma canon_parts:
  "canon w p = Inr q \<Longrightarrow>
   p \<noteq> [] \<and> (\<exists>m. resolve max_symlinks (tree w) (start_dir w p) (path_comps p) = Inr (q, m))"
  by (auto simp: canon_def split: if_splits sum.splits prod.splits)

lemma canon_join_child:
  assumes c: "canon w p = Inr q" and d: "get (tree w) q = Some (Dir t es)" and n: "plain_name n"
  shows "lcanon w (path_join p n) = Inr (q @ [n])
    \<and> ((\<forall>s. get (tree w) (q @ [n]) \<noteq> Some (Symlink s)) \<longrightarrow>
         (\<exists>nd. get (tree w) (q @ [n]) = Some nd) \<longrightarrow> canon w (path_join p n) = Inr (q @ [n]))"
proof -
  obtain m where p: "p \<noteq> []" and r: "resolve max_symlinks (tree w) (start_dir w p) (path_comps p) = Inr (q, m)"
    using canon_parts [OF c] by blast
  have cs: "path_comps (path_join p n) = path_comps p @ [n]" using p n by (rule path_comps_join)
  have sd: "start_dir w (path_join p n) = start_dir w p" using p n by (rule start_dir_join)
  have nn: "n \<noteq> ''.'' \<and> n \<noteq> ''..''" using n by (simp add: plain_name_def)
  have l: "lcanon w (path_join p n) = Inr (q @ [n])"
    using cs sd r d nn n
    by (simp add: lcanon_def Let_def trailing_slash_join path_join_nonempty)
  have "canon w (path_join p n) = Inr (q @ [n])"
    if nl: "\<forall>s. get (tree w) (q @ [n]) \<noteq> Some (Symlink s)" and ex: "\<exists>nd. get (tree w) (q @ [n]) = Some nd"
  proof -
    obtain nd where nd: "get (tree w) (q @ [n]) = Some nd" using ex by blast
    have "resolve m (tree w) q [n] = Inr (q @ [n], m)"
      using d nd nl nn by (cases nd) auto
    then show ?thesis
      using cs sd r nd by (simp add: canon_def resolve_append path_join_nonempty [OF n]
          trailing_slash_join [OF n])
  qed
  with l show ?thesis by blast
qed

lemma scandir_Inr:
  "scandir w d = Inr names \<Longrightarrow>
   \<exists>q t es. canon w d = Inr q \<and> get (tree w) q = Some (Dir t es) \<and> q \<notin> set (unreadable w)
     \<and> names = map fst es"
  by (auto simp: scandir_def split: sum.splits option.splits node.splits if_splits)

lemma child_paths:
  assumes c: "canon w d = Inr q" and g: "get (tree w) q = Some (Dir t es)"
    and wf: "wf_node (tree w)" and n: "(n, nd) \<in> set es"
  shows "lstat w (path_join d n) = Inr nd \<and> islink w (path_join d n) = (\<exists>s. nd = Symlink s)
    \<and> ((\<forall>s. nd \<noteq> Symlink s) \<longrightarrow>
         canon w (path_join d n) = Inr (q @ [n]) \<and> stat w (path_join d n) = Inr nd)"
proof -
  have wd: "wf_node (Dir t es)" using wf g by (rule wf_node_get)
  then have pn: "plain_name n" using n by auto
  have gn: "get (tree w) (q @ [n]) = Some nd"
    using wd n g by (simp add: get_child)
  have cj: "lcanon w (path_join d n) = Inr (q @ [n])
    \<and> ((\<forall>s. get (tree w) (q @ [n]) \<noteq> Some (Symlink s)) \<longrightarrow>
         (\<exists>nd. get (tree w) (q @ [n]) = Some nd) \<longrightarrow> canon w (path_join d n) = Inr (q @ [n]))"
    using c g pn by (rule canon_join_child)
  then have l: "lstat w (path_join d n) = Inr nd" using gn by (simp add: lstat_def)
  moreover have "islink w (path_join d n) = (\<exists>s. nd = Symlink s)"
    using l by (cases nd) (auto simp: islink_def)
  moreover have "(\<forall>s. nd \<noteq> Symlink s) \<longrightarrow>
         canon w (path_join d n) = Inr (q @ [n]) \<and> stat w (path_join d n) = Inr nd"
    using cj gn by (simp add: stat_def)
  ultimately show ?thesis by blast
qed

text \<open>The size of the node a path names: the walk goes down this measure.\<close>

definition walk_meas :: "world \<Rightarrow> string \<Rightarrow> nat" where
  "walk_meas w p = (case canon w p of Inr q \<Rightarrow> (case get (tree w) q of Some nd \<Rightarrow> size nd | None \<Rightarrow> 0) | Inl _ \<Rightarrow> 0)"

lemma walk_sub_less:
  assumes wf: "wf_node (tree w)" and sc: "scandir w d = Inr names" and p: "p \<in> set (walk_subs w d names)"
  shows "walk_meas w p < walk_meas w d"
proof -
  obtain q t es where c: "canon w d = Inr q" and g: "get (tree w) q = Some (Dir t es)"
    and nm: "names = map fst es" using scandir_Inr [OF sc] by blast
  from p nm obtain n nd where p': "p = path_join d n" and nl: "\<not> islink w p" and n: "(n, nd) \<in> set es"
    by (auto simp: walk_subs_def)
  have "\<forall>s. nd \<noteq> Symlink s" using child_paths [OF c g wf n] nl p' by blast
  then have "canon w p = Inr (q @ [n]) \<and> get (tree w) (q @ [n]) = Some nd"
    using child_paths [OF c g wf n] p' wf_node_get [OF wf g] n g by (auto simp: get_child)
  then show ?thesis using c g size_child [OF n, of t] by (simp add: walk_meas_def)
qed

lemma walk_induct [case_names Nil Skip Visit]:
  assumes wf: "wf_node (tree w)"
    and nil: "P []"
    and skip: "\<And>d rest e. scandir w d = Inl e \<Longrightarrow> P rest \<Longrightarrow> P (d # rest)"
    and visit: "\<And>d rest names. scandir w d = Inr names \<Longrightarrow> P (walk_subs w d names @ rest) \<Longrightarrow> P (d # rest)"
  shows "P tops"
proof (induction tops rule: worklist_induct [where f = "walk_meas w"
      and sub = "\<lambda>d. case scandir w d of Inl _ \<Rightarrow> [] | Inr names \<Rightarrow> walk_subs w d names"])
  case (Dec x y)
  then show ?case using walk_sub_less [OF wf] by (cases "scandir w x") auto
next
  case Nil
  then show ?case by (rule nil)
next
  case (Step d rest)
  then show ?case using skip visit by (auto split: sum.splits)
qed

lemma walk_sum_Nil: "walk_sum w [] = Some 0"
  by (simp add: walk_sum.simps)

lemma walk_sum_Cons:
  "walk_sum w (d # rest) =
     (case scandir w d of
        Inl _ \<Rightarrow> walk_sum w rest
      | Inr names \<Rightarrow>
          Option.bind (walk_sum w (walk_subs w d names @ rest))
            (\<lambda>s. Some (sum_list (map (\<lambda>f. file_bytes w (path_join d f))
                         (filter (\<lambda>n. \<not> isdir w (path_join d n)) names)) + s)))"
  by (subst walk_sum.simps) (simp split: sum.split)

declare walk_sum_Nil [code] walk_sum_Cons [code]

lemma walk_sum_skip: "scandir w d = Inl e \<Longrightarrow> walk_sum w (d # rest) = walk_sum w rest"
  by (simp add: walk_sum.simps)

lemma walk_sum_visit:
  "scandir w d = Inr names \<Longrightarrow>
   walk_sum w (d # rest) =
     Option.bind (walk_sum w (walk_subs w d names @ rest))
       (\<lambda>s. Some (sum_list (map (\<lambda>f. file_bytes w (path_join d f))
                    (filter (\<lambda>n. \<not> isdir w (path_join d n)) names)) + s))"
  by (subst walk_sum.simps) simp

lemmas walk_sum_steps = walk_sum_Nil walk_sum_skip walk_sum_visit

lemma walk_sum_total:
  assumes wf: "wf_node (tree w)"
  shows "\<exists>s. walk_sum w tops = Some s"
proof (induction tops rule: walk_induct [OF wf, case_names Nil Skip Visit])
  case Nil
  then show ?case by (simp add: walk_sum_Nil)
next
  case (Skip d rest e)
  then show ?case by (simp add: walk_sum_skip)
next
  case (Visit d rest names)
  then show ?case by (auto simp: walk_sum_visit)
qed

lemma child_plain:
  assumes c: "canon w d = Inr q" and g: "get (tree w) q = Some (Dir t es)" and wf: "wf_node (tree w)"
    and pt: "plain_tree w q (Dir t es)" and x: "x \<in> set es"
  shows "\<not> islink w (path_join d (fst x))
    \<and> isdir w (path_join d (fst x)) = is_dir_node (Some (snd x))
    \<and> (\<not> is_dir_node (Some (snd x)) \<longrightarrow> file_bytes w (path_join d (fst x)) = tree_bytes (snd x))
    \<and> (is_dir_node (Some (snd x)) \<longrightarrow>
         walk_bytes w (path_join d (fst x)) = tree_bytes (snd x) \<and> plain_dir_at w (path_join d (fst x)))"
proof -
  obtain n nd where xn: "x = (n, nd)" by (cases x)
  with x have n: "(n, nd) \<in> set es" by simp
  have ptn: "plain_tree w (q @ [n]) nd" using pt n by auto
  then have nl: "\<forall>s. nd \<noteq> Symlink s" by auto
  have cp: "islink w (path_join d n) = (\<exists>s. nd = Symlink s)"
    "canon w (path_join d n) = Inr (q @ [n])" "stat w (path_join d n) = Inr nd"
    using child_paths [OF c g wf n] nl by auto
  have gn: "get (tree w) (q @ [n]) = Some nd"
    using wf_node_get [OF wf g] n g by (simp add: get_child)
  have "isdir w (path_join d n) = is_dir_node (Some nd)"
    using cp(3) by (cases nd) (auto simp: isdir_def)
  moreover have "\<not> is_dir_node (Some nd) \<longrightarrow> file_bytes w (path_join d n) = tree_bytes nd"
    using cp(3) nl by (cases nd) (auto simp: file_bytes_def exists_def getsize_def)
  moreover have "is_dir_node (Some nd) \<longrightarrow>
      walk_bytes w (path_join d n) = tree_bytes nd \<and> plain_dir_at w (path_join d n)"
    using cp(2) gn ptn by (cases nd) (auto simp: walk_bytes_def plain_dir_at_def)
  ultimately show ?thesis using cp(1) nl xn by auto
qed

lemma sum_list_partition:
  "sum_list (map h (filter P xs)) + sum_list (map h (filter (\<lambda>x. \<not> P x) xs)) = sum_list (map h xs)"
  for h :: "'a \<Rightarrow> nat"
  by (induction xs) auto

lemma sum_list_filter_cong:
  "(\<And>x. x \<in> set xs \<Longrightarrow> P x \<Longrightarrow> f x = g x) \<Longrightarrow>
   sum_list (map f (filter P xs)) = sum_list (map g (filter P xs))"
  for f g :: "'a \<Rightarrow> nat"
  by (induction xs) auto

lemma walk_sum_plain:
  assumes wf: "wf_node (tree w)"
  shows "list_all (plain_dir_at w) tops \<Longrightarrow> walk_sum w tops = Some (sum_list (map (walk_bytes w) tops))"
proof (induction tops rule: walk_induct [OF wf, case_names Nil Skip Visit])
  case Nil
  then show ?case by (simp add: walk_sum_Nil)
next
  case (Skip d rest e)
  have "plain_dir_at w d" using Skip.prems by simp
  with Skip.hyps(1) show ?case
    by (auto simp: plain_dir_at_def scandir_def split: sum.splits option.splits node.splits if_splits)
next
  case (Visit d rest names)
  obtain q t es where c: "canon w d = Inr q" and g: "get (tree w) q = Some (Dir t es)"
    and nm: "names = map fst es" using scandir_Inr [OF Visit.hyps(1)] by blast
  have pt: "plain_tree w q (Dir t es)" using Visit.prems c g by (simp add: plain_dir_at_def)
  note cp = child_plain [OF c g wf pt]
  let ?D = "\<lambda>x. is_dir_node (Some (snd x))"
  let ?j = "\<lambda>x. path_join d (fst x)"
  have subs: "walk_subs w d names = map ?j (filter ?D es)"
  proof -
    have "filter (\<lambda>n. isdir w (path_join d n)) names = map fst (filter ?D es)"
      using cp nm by (simp add: filter_map comp_def cong: filter_cong)
    moreover have "filter (\<lambda>p. \<not> islink w p) (map ?j (filter ?D es)) = map ?j (filter ?D es)"
      using cp by (auto intro: filter_True)
    ultimately show ?thesis by (simp add: walk_subs_def comp_def)
  qed
  have nd: "filter (\<lambda>n. \<not> isdir w (path_join d n)) names = map fst (filter (\<lambda>x. \<not> ?D x) es)"
    using cp nm by (simp add: filter_map comp_def cong: filter_cong)
  have all: "list_all (plain_dir_at w) (walk_subs w d names @ rest)"
    using Visit.prems cp by (auto simp: subs list_all_iff)
  have s1: "sum_list (map (walk_bytes w) (walk_subs w d names)) = sum_list (map (\<lambda>x. tree_bytes (snd x)) (filter ?D es))"
    unfolding subs map_map comp_def
    by (rule sum_list_filter_cong) (use cp in simp)
  have s2: "sum_list (map (\<lambda>f. file_bytes w (path_join d f)) (filter (\<lambda>n. \<not> isdir w (path_join d n)) names))
      = sum_list (map (\<lambda>x. tree_bytes (snd x)) (filter (\<lambda>x. \<not> ?D x) es))"
    unfolding nd map_map comp_def
    by (rule sum_list_filter_cong) (use cp in simp)
  have "walk_bytes w d = tree_bytes (Dir t es)" using c g by (simp add: walk_bytes_def)
  then have "walk_bytes w d = sum_list (map (\<lambda>x. tree_bytes (snd x)) (filter ?D es))
      + sum_list (map (\<lambda>x. tree_bytes (snd x)) (filter (\<lambda>x. \<not> ?D x) es))"
    by (simp add: sum_list_partition)
  then show ?case
    using Visit.IH [OF all] s1 s2 by (simp add: walk_sum_visit [OF Visit.hyps(1)])
qed

lemma pow1024_ge: "(1024::real) \<le> 1024 ^ Suc j"
  using one_le_power [of "1024::real" j] by simp

lemma fmt_loop_at:
  "i < length us \<Longrightarrow> (i = 0 \<or> 1024 ^ i \<le> x) \<Longrightarrow> x < 1024 ^ Suc i \<Longrightarrow>
   fmt_loop x us = (x / 1024 ^ i, us ! i)"
proof (induction us arbitrary: x i)
  case Nil
  then show ?case by simp
next
  case (Cons u us)
  show ?case
  proof (cases i)
    case 0
    with Cons.prems show ?thesis by simp
  next
    case (Suc j)
    with Cons.prems have ge: "1024 ^ Suc j \<le> x" by simp
    then have x: "\<not> x < 1024" using pow1024_ge [of j] by linarith
    have "fmt_loop (x / 1024) us = (x / 1024 / 1024 ^ j, us ! j)"
    proof (rule Cons.IH)
      show "j < length us" using Cons.prems(1) Suc by simp
      have "1024 ^ j \<le> x / 1024" using ge by (simp add: le_divide_eq mult.commute)
      then show "j = 0 \<or> 1024 ^ j \<le> x / 1024" by simp
      show "x / 1024 < 1024 ^ Suc j" using Cons.prems(3) Suc by (simp add: divide_less_eq mult.commute)
    qed
    with x Suc show ?thesis by (simp add: divide_divide_eq_left mult.commute)
  qed
qed

lemma fmt_loop_past:
  "1024 ^ length us \<le> x \<Longrightarrow> fmt_loop x us = (x / 1024 ^ length us, ''PB'')"
proof (induction us arbitrary: x)
  case Nil
  then show ?case by simp
next
  case (Cons u us)
  then have "\<not> x < 1024" using pow1024_ge [of "length us"] by (simp del: power_Suc)
  moreover have "fmt_loop (x / 1024) us = (x / 1024 / 1024 ^ length us, ''PB'')"
    using Cons.prems by (intro Cons.IH) (simp add: le_divide_eq mult.commute)
  ultimately show ?case by (simp add: divide_divide_eq_left mult.commute)
qed

section \<open>Properties\<close>



text \<open>
  C23: Size accounting refines the sum of file sizes: for a directory whose subtree has no links and can be listed, \<open>calcular_tamanho_diretorio\<close> returns the total length of the regular files under it.
\<close>

theorem calcular_plain_tree:
  assumes wf: "wf_node (tree w)" and p: "plain_dir_at w d"
  shows "calcular_tamanho_diretorio w d = Some (walk_bytes w d)"
  using walk_sum_plain [OF wf] p by (simp add: calcular_tamanho_diretorio_def)

theorem calcular_plain_tree_witness:
  "wf_node (tree ex_plain_world) \<and> plain_dir_at ex_plain_world ''/src''
   \<and> calcular_tamanho_diretorio ex_plain_world ''/src'' = Some 8"
proof -
  have h1: "wf_node (tree ex_plain_world)" by code_simp
  have h2: "plain_dir_at ex_plain_world ''/src''" by code_simp
  have b: "walk_bytes ex_plain_world ''/src'' = 8" by code_simp
  show ?thesis using calcular_plain_tree [OF h1 h2] h1 h2 b by simp
qed

text \<open>
  C24: Unit choice of \<open>formatar_tamanho\<close>: a byte count n with 1024^i <= n < 1024^(i+1) (or n < 1024 for i = 0), i < 5, is printed as n / 1024^i in the i-th unit of B, KB, MB, GB, TB, a value below 1024.
\<close>

theorem formatar_unit:
  assumes i: "i < 5" and lo: "i = 0 \<or> 1024 ^ i \<le> n" and hi: "n < 1024 ^ Suc i"
  shows "formatar_tamanho n = (real n / 1024 ^ i, size_units ! i) \<and> real n / 1024 ^ i < 1024"
proof -
  have lo': "i = 0 \<or> 1024 ^ i \<le> real n" using lo by (metis of_nat_le_iff of_nat_numeral of_nat_power)
  have hi': "real n < 1024 ^ Suc i" using hi by (metis of_nat_less_iff of_nat_numeral of_nat_power)
  have "length size_units = 5" by (simp add: size_units_def)
  then have "fmt_loop (real n) size_units = (real n / 1024 ^ i, size_units ! i)"
    using fmt_loop_at [OF _ lo' hi'] i by simp
  then have "formatar_tamanho n = (real n / 1024 ^ i, size_units ! i)"
    by (simp add: formatar_tamanho_def)
  moreover have "real n / 1024 ^ i < 1024" using hi' by (simp add: divide_less_eq mult.commute)
  ultimately show ?thesis by blast
qed

theorem formatar_unit_witness:
  "formatar_tamanho 2048 = (2, ''KB'') \<and> formatar_tamanho 1000 = (1000, ''B'')"
proof -
  have "formatar_tamanho 2048 = (real 2048 / 1024 ^ 1, size_units ! 1) \<and> real 2048 / 1024 ^ 1 < (1024::real)"
    by (rule formatar_unit) simp_all
  moreover have "formatar_tamanho 1000 = (real 1000 / 1024 ^ 0, size_units ! 0) \<and> real 1000 / 1024 ^ 0 < (1024::real)"
    by (rule formatar_unit) simp_all
  ultimately show ?thesis by (simp add: size_units_def)
qed

text \<open>
  C25: Past the units list the value is unbounded: from 1024^5 bytes on, \<open>formatar_tamanho\<close> prints n / 1024^5 with unit PB, which is 1024 or more from 1024^6 bytes on.
\<close>

theorem formatar_past_tb:
  assumes "1024 ^ 5 \<le> n"
  shows "formatar_tamanho n = (real n / 1024 ^ 5, ''PB'')"
proof -
  have "1024 ^ length size_units \<le> real n"
    using assms by (simp add: size_units_def)
  then show ?thesis using fmt_loop_past by (simp add: formatar_tamanho_def size_units_def)
qed

theorem formatar_past_tb_witness:
  "formatar_tamanho (1024 ^ 6) = (1024, ''PB'')"
proof -
  have "formatar_tamanho (1024 ^ 6) = (real (1024 ^ 6) / 1024 ^ 5, ''PB'')"
    by (rule formatar_past_tb) simp
  then show ?thesis by simp
qed

end
