(* ===== verification/Archiver.thy ===== *)
theory Archiver
  imports Logging SizeAccounting "HOL-Library.List_Lexorder" "HOL-Library.Char_ord"
begin

text \<open>
  \<open>comprimir_pasta\<close> (lines 44--105 of \<open>src/backup.py\<close>) and the library calls it
  makes: \<open>shutil.make_archive\<close> with format \<open>'tar'\<close> (CPython 3.11), which checks
  \<open>root_dir\<close> with \<open>os.stat\<close>, creates the archive's directory with
  \<open>os.makedirs\<close> and writes a tar stream of \<open>tarfile.TarFile.add\<close>; then the copy of
  the tar file through \<open>gzip.open\<close>, the sizes, and the removal of the temporary file.
  The tar and gzip encodings are not modelled: they are parameters, \<open>tarc\<close> from the
  list of archive members to bytes and \<open>gz\<close> from a compression level and bytes to
  bytes, and every lemma holds for all of them.
\<close>

section \<open>Paths\<close>

text \<open>\<open>os.getcwd()\<close> and \<open>os.path.abspath\<close>.\<close>

definition getcwd :: "world \<Rightarrow> string" where
  "getcwd w = ''/'' @ py_join ''/'' (cwd w)"

definition abspath :: "world \<Rightarrow> string \<Rightarrow> string" where
  "abspath w p = normpath (if is_abs p then p else path_join (getcwd w) p)"

section \<open>os.makedirs\<close>

text \<open>
  \<open>os.mkdir(name)\<close> with \<open>exist_ok\<close>: an error is raised unless \<open>exist_ok\<close> holds
  and the name is a directory. The result is the world and the exception raised, if
  any: directories created before an error stay.
\<close>

definition mkdir_ok :: "world \<Rightarrow> string \<Rightarrow> bool \<Rightarrow> world \<times> exc option" where
  "mkdir_ok w name exist_ok =
     (case mkdir w name of
        Inr w' \<Rightarrow> (w', None)
      | Inl e \<Rightarrow> (if \<not> exist_ok \<or> \<not> isdir w name then (w, Some e) else (w, None)))"

definition split_tail :: "string \<Rightarrow> string \<times> string" where
  "split_tail name = (let (h, t) = path_split name in if t = [] then path_split h else (h, t))"

definition is_eexist :: "exc \<Rightarrow> bool" where
  "is_eexist e = (case e of OSError EEXIST _ \<Rightarrow> True | _ \<Rightarrow> False)"

lemma split_tail_shorter: "snd (split_tail p) \<noteq> [] \<Longrightarrow> length (fst (split_tail p)) < length p"
proof -
  assume t: "snd (split_tail p) \<noteq> []"
  show ?thesis
  proof (cases "snd (path_split p) = []")
    case True
    then have "snd (path_split (fst (path_split p))) \<noteq> []"
      using t by (simp add: split_tail_def case_prod_beta)
    then have "length (fst (path_split (fst (path_split p)))) < length (fst (path_split p))"
      by (rule path_split_shorter)
    moreover have "length (fst (path_split p)) \<le> length p"
      using dirname_length by (simp add: dirname_def)
    ultimately show ?thesis using True by (simp add: split_tail_def case_prod_beta)
  next
    case False
    then show ?thesis using path_split_shorter [OF False] by (simp add: split_tail_def case_prod_beta)
  qed
qed

function makedirs :: "world \<Rightarrow> string \<Rightarrow> bool \<Rightarrow> world \<times> exc option" where
  "makedirs w name exist_ok =
     (let head = fst (split_tail name); tail = snd (split_tail name)
      in if head \<noteq> [] \<and> tail \<noteq> [] \<and> \<not> exists w head then
           (case makedirs w head exist_ok of
              (w1, Some e) \<Rightarrow>
                (if \<not> is_eexist e then (w1, Some e)
                 else if tail = ''.'' then (w1, None) else mkdir_ok w1 name exist_ok)
            | (w1, None) \<Rightarrow> (if tail = ''.'' then (w1, None) else mkdir_ok w1 name exist_ok))
         else mkdir_ok w name exist_ok)"
  by pat_completeness auto

termination
proof (relation "measure (\<lambda>(w, name, e). length name)")
  fix w name exist_ok x xa
  assume "x = fst (split_tail name)" "xa = snd (split_tail name)" "x \<noteq> [] \<and> xa \<noteq> [] \<and> \<not> exists w x"
  then show "((w, x, exist_ok), w, name, exist_ok) \<in> measure (\<lambda>(w, name, e). length name)"
    using split_tail_shorter [of name] by simp
qed simp

declare makedirs.simps [simp del]


section \<open>tarfile\<close>

text \<open>
  The members a tar archive records: a directory, a regular file with its content, a
  symbolic link with its target, each under its name in the archive.
\<close>

datatype member = MDir string | MFile string string | MLink string string

text \<open>
  The entries of a directory that \<open>TarFile.add\<close> visits, in \<open>sorted(os.listdir(name))\<close>
  order, each with its path and its name in the archive (\<open>os.path.join\<close> on both).
\<close>

definition tar_children :: "string \<Rightarrow> string \<Rightarrow> string list \<Rightarrow> (string \<times> string) list" where
  "tar_children p a names = map (\<lambda>n. (path_join p n, path_join a n)) (sort names)"

text \<open>
  \<open>TarFile.add(name, arcname)\<close>, recursive, as a work list of the paths still to add,
  visited in the order of the recursion. The archive file itself (\<open>self\<close>, its
  absolute name) is skipped. \<open>gettarinfo\<close> calls \<open>os.lstat\<close>: links are recorded,
  not followed. A regular file is opened for reading; a directory is recorded and then
  listed. The first exception ends the walk; the result is the members added before
  it and the exception. \<open>gettarinfo\<close> also strips leading slashes from the archive
  name; the names here never have one (they are built from \<open>os.path.basename\<close>).
\<close>

partial_function (option) tar_walk ::
  "world \<Rightarrow> string \<Rightarrow> (string \<times> string) list \<Rightarrow> (member list \<times> exc option) option" where
  "tar_walk w self todo =
     (case todo of
        [] \<Rightarrow> Some ([], None)
      | (p, a) # rest \<Rightarrow>
          (if abspath w p = self then tar_walk w self rest
           else case lstat w p of
             Inl e \<Rightarrow> Some ([], Some e)
           | Inr (File _ _) \<Rightarrow>
               (case read_file w p of
                  Inl e \<Rightarrow> Some ([], Some e)
                | Inr c \<Rightarrow> Option.bind (tar_walk w self rest) (\<lambda>(ms, e). Some (MFile a c # ms, e)))
           | Inr (Symlink t) \<Rightarrow> Option.bind (tar_walk w self rest) (\<lambda>(ms, e). Some (MLink a t # ms, e))
           | Inr (Dir _ _) \<Rightarrow>
               (case scandir w p of
                  Inl e \<Rightarrow> Some ([MDir a], Some e)
                | Inr names \<Rightarrow>
                    Option.bind (tar_walk w self (tar_children p a names @ rest))
                      (\<lambda>(ms, e). Some (MDir a # ms, e)))))"

lemma tar_walk_Nil: "tar_walk w self [] = Some ([], None)"
  by (simp add: tar_walk.simps)

lemma tar_walk_Cons:
  "tar_walk w self ((p, a) # rest) =
     (if abspath w p = self then tar_walk w self rest
      else case lstat w p of
        Inl e \<Rightarrow> Some ([], Some e)
      | Inr (File _ _) \<Rightarrow>
          (case read_file w p of
             Inl e \<Rightarrow> Some ([], Some e)
           | Inr c \<Rightarrow> Option.bind (tar_walk w self rest) (\<lambda>(ms, e). Some (MFile a c # ms, e)))
      | Inr (Symlink t) \<Rightarrow> Option.bind (tar_walk w self rest) (\<lambda>(ms, e). Some (MLink a t # ms, e))
      | Inr (Dir _ _) \<Rightarrow>
          (case scandir w p of
             Inl e \<Rightarrow> Some ([MDir a], Some e)
           | Inr names \<Rightarrow>
               Option.bind (tar_walk w self (tar_children p a names @ rest))
                 (\<lambda>(ms, e). Some (MDir a # ms, e))))"
  by (subst tar_walk.simps) simp

declare tar_walk_Nil [code] tar_walk_Cons [code]


section \<open>shutil.make\_archive\<close>

text \<open>
  \<open>shutil._make_tarball(base_name, base_dir, compress=None, root_dir=root_dir)\<close>:
  the archive \<open>base_name + '.tar'\<close>; its directory is created when it is missing;
  \<open>tarfile.open(archive_name, 'w|')\<close> creates or truncates the file; \<open>tar.add\<close> of
  \<open>os.path.join(root_dir, base_dir)\<close> under the name \<open>base_dir\<close>; \<open>tar.close()\<close>
  in a \<open>finally\<close> writes the stream \<open>tarc ms\<close> of the members added, also after an
  exception, and an exception of the close replaces the earlier one. The bytes are
  written at the close; a full device leaves a truncated file.
\<close>

definition make_tarball ::
  "(member list \<Rightarrow> string) \<Rightarrow> world \<Rightarrow> string \<Rightarrow> string \<Rightarrow> string \<Rightarrow> (world \<times> exc option) option" where
  "make_tarball tarc w base_name base_dir root_dir =
     (let archive_name = base_name @ ''.tar'';
          archive_dir = dirname archive_name;
          (w1, err1) = (if archive_dir \<noteq> [] \<and> \<not> exists w archive_dir
                        then makedirs w archive_dir False else (w, None))
      in case err1 of
           Some e \<Rightarrow> Some (w1, Some e)
         | None \<Rightarrow>
             (case open_write True w1 archive_name of
                Inl e \<Rightarrow> Some (w1, Some e)
              | Inr (w2, q) \<Rightarrow>
                  Option.bind (tar_walk w2 (abspath w2 archive_name) [(path_join root_dir base_dir, base_dir)])
                    (\<lambda>(ms, err2).
                       let (w3, err3) = write_bytes w2 q archive_name (tarc ms)
                       in Some (w3, case err3 of Some e \<Rightarrow> Some e | None \<Rightarrow> err2))))"

text \<open>
  \<open>shutil.make_archive(base_name, 'tar', root_dir=..., base_dir=...)\<close>: \<open>os.stat(root_dir)\<close>
  must succeed and find a directory (\<open>NotADirectoryError\<close> otherwise); the tar format
  takes \<open>root_dir\<close> itself, so the working directory is not changed.
\<close>

definition make_archive ::
  "(member list \<Rightarrow> string) \<Rightarrow> world \<Rightarrow> string \<Rightarrow> string \<Rightarrow> string \<Rightarrow> (world \<times> exc option) option" where
  "make_archive tarc w base_name root_dir base_dir =
     (case stat w root_dir of
        Inl e \<Rightarrow> Some (w, Some e)
      | Inr (Dir _ _) \<Rightarrow> make_tarball tarc w base_name base_dir root_dir
      | Inr _ \<Rightarrow> Some (w, Some (OSError ENOTDIR root_dir)))"

section \<open>gzip\<close>

text \<open>
  Lines 82--84: \<open>open(temp_tar, 'rb')\<close>, then \<open>gzip.open(arquivo_destino, 'wb',
  compresslevel=n)\<close>, which creates or truncates the destination, and the copy, which
  writes the compressed stream \<open>gz n data\<close> (header and trailer included).
\<close>

definition gzip_copy ::
  "(int \<Rightarrow> string \<Rightarrow> string) \<Rightarrow> world \<Rightarrow> string \<Rightarrow> string \<Rightarrow> int \<Rightarrow> world \<times> exc option" where
  "gzip_copy gz w src dst lvl =
     (case read_file w src of
        Inl e \<Rightarrow> (w, Some e)
      | Inr data \<Rightarrow>
          (case open_write True w dst of
             Inl e \<Rightarrow> (w, Some e)
           | Inr (w1, q) \<Rightarrow> write_bytes w1 q dst (gz lvl data)))"

section \<open>comprimir\_pasta\<close>

text \<open>
  Lines 44--105. The result is the world, the output records and the value returned;
  \<open>None\<close> only if the tar walk does not end. Every exception of the \<open>try\<close> block is
  caught at line 100: the error is logged (or printed) and \<open>False\<close> returned, the
  world keeping every effect made before it (a temporary tar file, a truncated
  archive). \<open>compression_ratio\<close> is a float division, a real number here.
\<close>

definition comprimir_pasta ::
  "(member list \<Rightarrow> string) \<Rightarrow> (int \<Rightarrow> string \<Rightarrow> string) \<Rightarrow> world \<Rightarrow> string \<Rightarrow> string \<Rightarrow> int \<Rightarrow>
   logger option \<Rightarrow> (world \<times> out_rec list \<times> bool) option" where
  "comprimir_pasta tarc gz w pasta_origem arquivo_destino nivel_compressao lg =
     (let o1 = log_opt lg INFO (EvCompressStart pasta_origem) @ log_opt lg INFO (EvCompressLevel nivel_compressao);
          temp_tar = arquivo_destino @ ''.temp.tar'';
          o2 = log_opt lg DEBUG (EvTempTar temp_tar);
          fail = (\<lambda>w' os e. (w', o1 @ os @ log_or_print lg ERROR (EvCompressError e) (EvCompressError e), False))
      in Option.bind
           (make_archive tarc w (fst (splitext temp_tar)) (dirname pasta_origem) (basename pasta_origem))
           (\<lambda>(w1, err).
              Some (case err of
                Some e \<Rightarrow> fail w1 o2 e
              | None \<Rightarrow>
                  (case getsize w1 temp_tar of
                     Inl e \<Rightarrow> fail w1 o2 e
                   | Inr tar_size \<Rightarrow>
                       (let o3 = log_opt lg DEBUG (EvTarCreated temp_tar tar_size)
                                 @ log_opt lg DEBUG (EvGzipTo arquivo_destino)
                        in case gzip_copy gz w1 temp_tar arquivo_destino nivel_compressao of
                             (w2, Some e) \<Rightarrow> fail w2 (o2 @ o3) e
                           | (w2, None) \<Rightarrow>
                               (case getsize w2 arquivo_destino of
                                  Inl e \<Rightarrow> fail w2 (o2 @ o3) e
                                | Inr gz_size \<Rightarrow>
                                    (let compression_ratio =
                                           (if gz_size > 0 then real tar_size / real gz_size else 0)
                                     in case remove w2 temp_tar of
                                          Inl e \<Rightarrow> fail w2 (o2 @ o3) e
                                        | Inr w3 \<Rightarrow>
                                            (w3, o1 @ o2 @ o3 @
                                               (case lg of
                                                  Some l \<Rightarrow> emit l INFO (EvBackupCreated arquivo_destino gz_size)
                                                            @ emit l INFO (EvCompressRatio compression_ratio)
                                                | None \<Rightarrow> [Print (EvBackupCreatedPlain arquivo_destino)]),
                                             True))))))))"


section \<open>Examples\<close>

text \<open>
  Two toy codecs (a tar stream that lists the members, a "compressor" that keeps half
  of its input) and a home directory with a source tree and an empty backup directory:
  the witnesses run \<open>comprimir_pasta\<close> on them.
\<close>

definition toy_tar :: "member list \<Rightarrow> string" where
  "toy_tar ms = concat (map (\<lambda>m. case m of MDir a \<Rightarrow> a @ ''/;'' | MFile a c \<Rightarrow> a @ '':'' @ c @ '';''
                                      | MLink a t \<Rightarrow> a @ ''>'' @ t @ '';'') ms)"

definition toy_gz :: "int \<Rightarrow> string \<Rightarrow> string" where
  "toy_gz l d = ''Z'' @ take (length d div 2) d"

definition ex_home :: world where
  "ex_home = \<lparr>tree = Dir 0 [(''home'', Dir 0
      [(''data'', Dir 1 [(''b.txt'', File ''hello'' 1), (''a'', Dir 2 [(''c'', File ''xy'' 2)])]),
       (''backups'', Dir 0 [])])],
     cwd = [''home''], clock = 10, locked = [], unreadable = [], free = 1000\<rparr>"

definition ex_full :: world where
  "ex_full = ex_home\<lparr>free := 50\<rparr>"

section \<open>Lemmas\<close>

text \<open>The measure of the tar walk: the size of the entry a path names, links not followed.\<close>

definition tar_meas :: "world \<Rightarrow> string \<times> string \<Rightarrow> nat" where
  "tar_meas w x = (case lcanon w (fst x) of Inr q \<Rightarrow> (case get (tree w) q of Some nd \<Rightarrow> size nd | None \<Rightarrow> 0) | Inl _ \<Rightarrow> 0)"

definition tar_sub :: "world \<Rightarrow> string \<Rightarrow> string \<times> string \<Rightarrow> (string \<times> string) list" where
  "tar_sub w self x =
     (if abspath w (fst x) = self then []
      else case lstat w (fst x) of
        Inr (Dir _ _) \<Rightarrow> (case scandir w (fst x) of Inr names \<Rightarrow> tar_children (fst x) (snd x) names | Inl _ \<Rightarrow> [])
      | _ \<Rightarrow> [])"

lemma tar_sub_less:
  assumes wf: "wf_node (tree w)" and y: "y \<in> set (tar_sub w self x)"
  shows "tar_meas w y < tar_meas w x"
proof -
  obtain p a where x: "x = (p, a)" by (cases x)
  from y x obtain t0 es0 names where ls: "lstat w p = Inr (Dir t0 es0)" and sc: "scandir w p = Inr names"
    and yin: "y \<in> set (tar_children p a names)"
    by (cases "lstat w p"; cases "scandir w p") (auto simp: tar_sub_def split: if_splits node.splits)
  from ls obtain q0 where l: "lcanon w p = Inr q0" and g0: "get (tree w) q0 = Some (Dir t0 es0)"
    by (auto simp: lstat_def split: sum.splits option.splits)
  have c0: "canon w p = Inr q0" using lcanon_canon_nonlink [OF l g0] by simp
  obtain q t es where c: "canon w p = Inr q" and g: "get (tree w) q = Some (Dir t es)"
    and nm: "names = map fst es" using scandir_Inr [OF sc] by blast
  from c c0 g g0 have qq: "q = q0" "es = es0" "t = t0" by auto
  from yin obtain n where yn: "y = (path_join p n, path_join a n)" and n: "n \<in> set names"
    by (auto simp: tar_children_def)
  from n nm obtain c' where nc: "(n, c') \<in> set es" by auto
  have wd: "wf_node (Dir t es)" using wf_node_get [OF wf g] .
  then have pn: "plain_name n" using nc by auto
  have lj: "lcanon w (path_join p n) = Inr (q @ [n])" using canon_join_child [OF c g pn] by blast
  obtain c'' where gc: "get (tree w) (q @ [n]) = Some c''" and c''in: "(n, c'') \<in> set es"
    using g wd nc by (auto simp: get_child dest: map_of_SomeD weak_map_of_SomeI)
  have "size c'' < size (Dir t es)" using c''in by (rule size_child)
  then show ?thesis using lj gc l g0 qq x yn by (simp add: tar_meas_def)
qed

lemma tar_walk_total:
  assumes wf: "wf_node (tree w)"
  shows "\<exists>r. tar_walk w self todo = Some r"
proof (induction todo rule: worklist_induct [where f = "tar_meas w" and sub = "tar_sub w self"])
  case (Dec x y)
  then show ?case by (rule tar_sub_less [OF wf])
next
  case Nil
  then show ?case by (simp add: tar_walk_Nil)
next
  case (Step x rest)
  obtain p a where x: "x = (p, a)" by (cases x)
  show ?case
  proof (cases "abspath w p = self")
    case True
    with Step x show ?thesis by (simp add: tar_walk_Cons tar_sub_def)
  next
    case False
    with Step x show ?thesis
      by (auto simp: tar_walk_Cons tar_sub_def split: sum.splits node.splits)
  qed
qed



lemma mkdir_ok_wf: "wf_node (tree w) \<Longrightarrow> wf_node (tree (fst (mkdir_ok w name ok)))"
  by (auto simp: mkdir_ok_def dest: mkdir_wf split: sum.splits)

lemma makedirs_wf: "wf_node (tree w) \<Longrightarrow> wf_node (tree (fst (makedirs w name ok)))"
proof (induction w name ok rule: makedirs.induct)
  case (1 w name ok)
  let ?h = "fst (split_tail name)" and ?t = "snd (split_tail name)"
  show ?case
  proof (cases "?h \<noteq> [] \<and> ?t \<noteq> [] \<and> \<not> exists w ?h")
    case True
    obtain w1 e1 where m: "makedirs w ?h ok = (w1, e1)" by (cases "makedirs w ?h ok") auto
    have wf1: "wf_node (tree w1)" using "1.IH" [OF _ _ True] "1.prems" m by simp
    have "makedirs w name ok =
        (case e1 of
           Some e0 \<Rightarrow> (if \<not> is_eexist e0 then (w1, Some e0)
                      else if ?t = ''.'' then (w1, None) else mkdir_ok w1 name ok)
         | None \<Rightarrow> (if ?t = ''.'' then (w1, None) else mkdir_ok w1 name ok))"
      using True m by (subst makedirs.simps) (simp add: Let_def split: option.split)
    then show ?thesis using wf1 mkdir_ok_wf [OF wf1, of name ok] by (simp split: option.split)
  next
    case False
    then have "makedirs w name ok = mkdir_ok w name ok"
      by (subst makedirs.simps) (simp only: Let_def if_False)
    with "1.prems" show ?thesis using mkdir_ok_wf [of w name ok] by simp
  qed
qed

lemma make_tarball_total:
  assumes wf: "wf_node (tree w)"
  shows "\<exists>r. make_tarball tarc w base_name base_dir root_dir = Some r"
proof -
  let ?an = "base_name @ ''.tar''"
  obtain w1 e1 where m: "(if dirname ?an \<noteq> [] \<and> \<not> exists w (dirname ?an)
      then makedirs w (dirname ?an) False else (w, None)) = (w1, e1)" by (metis surj_pair)
  have wf1: "wf_node (tree w1)" using m wf makedirs_wf [OF wf, of "dirname ?an" False] by (auto split: if_splits)
  show ?thesis
  proof (cases e1)
    case (Some e)
    then show ?thesis using m by (simp add: make_tarball_def Let_def)
  next
    case None
    show ?thesis
    proof (cases "open_write True w1 ?an")
      case (Inl e)
      with None m show ?thesis by (simp add: make_tarball_def Let_def)
    next
      case (Inr r)
      obtain w2 q where r: "r = (w2, q)" by fastforce
      have "wf_node (tree w2)" using open_write_wf Inr r wf1 by blast
      then obtain res where "tar_walk w2 (abspath w2 ?an) [(path_join root_dir base_dir, base_dir)] = Some res"
        using tar_walk_total by blast
      with None m Inr r show ?thesis by (auto simp: make_tarball_def Let_def split: prod.splits)
    qed
  qed
qed


lemma make_archive_total:
  assumes wf: "wf_node (tree w)"
  shows "\<exists>r. make_archive tarc w base_name root_dir base_dir = Some r"
proof -
  obtain r where "make_tarball tarc w base_name base_dir root_dir = Some r"
    using make_tarball_total [OF wf] by blast
  then show ?thesis by (simp add: make_archive_def split: sum.split node.split)
qed

lemma comprimir_total:
  assumes wf: "wf_node (tree w)"
  shows "\<exists>r. comprimir_pasta tarc gz w pasta_origem arquivo_destino nivel lg = Some r"
proof -
  obtain r where "make_archive tarc w (fst (splitext (arquivo_destino @ ''.temp.tar'')))
      (dirname pasta_origem) (basename pasta_origem) = Some r"
    using make_archive_total [OF wf] by blast
  then show ?thesis unfolding comprimir_pasta_def Let_def by (intro exI) (simp add: case_prod_beta)
qed


lemma gzip_copy_ok:
  "gzip_copy gz w src dst lvl = (w2, None) \<Longrightarrow>
   \<exists>data w1 q. read_file w src = Inr data \<and> open_write True w dst = Inr (w1, q)
     \<and> write_bytes w1 q dst (gz lvl data) = (w2, None)"
  by (auto simp: gzip_copy_def split: sum.splits)

lemma make_tarball_ok:
  assumes "make_tarball tarc w bn bd rd = Some (w1, None)"
    and "dirname (bn @ ''.tar'') \<noteq> []" and "exists w (dirname (bn @ ''.tar''))"
  shows "\<exists>w2 q ms. open_write True w (bn @ ''.tar'') = Inr (w2, q)
     \<and> tar_walk w2 (abspath w2 (bn @ ''.tar'')) [(path_join rd bd, bd)] = Some (ms, None)
     \<and> write_bytes w2 q (bn @ ''.tar'') (tarc ms) = (w1, None)"
proof -
  let ?an = "bn @ ''.tar''"
  have m: "make_tarball tarc w bn bd rd =
     (case open_write True w ?an of
        Inl e \<Rightarrow> Some (w, Some e)
      | Inr (w2, q) \<Rightarrow>
          Option.bind (tar_walk w2 (abspath w2 ?an) [(path_join rd bd, bd)])
            (\<lambda>(ms, err2). let (w3, err3) = write_bytes w2 q ?an (tarc ms)
                          in Some (w3, case err3 of Some e \<Rightarrow> Some e | None \<Rightarrow> err2)))"
    using assms(2,3) by (simp add: make_tarball_def Let_def)
  obtain w2 q where ow: "open_write True w ?an = Inr (w2, q)"
    using assms(1) m by (cases "open_write True w ?an") auto
  obtain ms err2 where tw: "tar_walk w2 (abspath w2 ?an) [(path_join rd bd, bd)] = Some (ms, err2)"
    using assms(1) m ow by (auto simp: bind_eq_Some_conv)
  obtain w3 err3 where wb: "write_bytes w2 q ?an (tarc ms) = (w3, err3)" by fastforce
  from assms(1) m ow tw wb have "w3 = w1" "err3 = None" "err2 = None"
    by (auto split: option.splits)
  with ow tw wb show ?thesis by blast
qed

lemma tar_step_child:
  assumes s: "simple_dir w d D" and e: "\<not> py_endswith ''/'' d" and n: "plain_name n"
    and tmp0: "get (tree w) (D @ [n @ ''.temp.tar'']) = None"
    and ma: "make_archive tarc w (fst (splitext (path_join d n @ ''.temp.tar''))) rd bd = Some (w1, None)"
  shows "\<exists>ms. simple_dir w1 d D \<and> clock w1 = clock w \<and> locked w1 = locked w \<and> unreadable w1 = unreadable w
     \<and> length (tarc ms) \<le> free w \<and> free w1 = free w - length (tarc ms)
     \<and> (\<forall>y. get (tree w1) (D @ [y]) =
          (if y = n @ ''.temp.tar'' then Some (File (tarc ms) (clock w)) else get (tree w) (D @ [y])))"
proof -
  let ?tn = "n @ ''.temp.tar''"
  let ?tmp = "path_join d ?tn"
  have d: "d \<noteq> []" using s by (simp add: simple_dir_def)
  have tn: "plain_name ?tn" using n by (rule plain_name_append) auto
  have tmp: "path_join d n @ ''.temp.tar'' = ?tmp" using d e n by (rule join_append_plain)
  have an: "fst (splitext ?tmp) @ ''.tar'' = ?tmp" using splitext_temp_tar [of "path_join d n"] tmp by simp
  have dn: "dirname ?tmp = d"
  proof -
    have "?tmp = d @ CHR ''/'' # ?tn" using d e tn by (cases ?tn) (auto simp: plain_name_def)
    then show ?thesis using path_split_dir_name [OF d e, of ?tn] tn by (simp add: dirname_def plain_name_def)
  qed
  obtain t0 es0 where D0: "get (tree w) D = Some (Dir t0 es0)" using s by (metis simple_dir_get)
  have exd: "exists w d" using canon_simple_dir [OF s] D0 by (simp add: exists_def stat_def)
  from ma have mt: "make_tarball tarc w (fst (splitext ?tmp)) bd rd = Some (w1, None)"
    unfolding tmp by (auto simp: make_archive_def split: sum.splits node.splits)
  from make_tarball_ok [OF mt] an dn d exd obtain wa q ms
    where ow: "open_write True w ?tmp = Inr (wa, q)" and wb: "write_bytes wa q ?tmp (tarc ms) = (w1, None)"
    by auto
  have nl: "\<forall>l. get (tree w) (D @ [?tn]) \<noteq> Some (Symlink l)" using tmp0 by simp
  from write_child [OF s tn nl ow wb] tmp0 show ?thesis by auto
qed

lemma comprimir_true_steps:
  assumes "comprimir_pasta tarc gz w src dst lvl lg = Some (w', outs, True)"
  shows "\<exists>w1 ts w2 gs. make_archive tarc w (fst (splitext (dst @ ''.temp.tar''))) (dirname src) (basename src) = Some (w1, None)
     \<and> getsize w1 (dst @ ''.temp.tar'') = Inr ts \<and> gzip_copy gz w1 (dst @ ''.temp.tar'') dst lvl = (w2, None)
     \<and> getsize w2 dst = Inr gs \<and> remove w2 (dst @ ''.temp.tar'') = Inr w'"
  using assms
  by (auto simp: comprimir_pasta_def Let_def bind_eq_Some_conv split: option.splits prod.splits sum.splits)

lemma comprimir_success_child:
  assumes s: "simple_dir w d D" and e: "\<not> py_endswith ''/'' d" and n: "plain_name n"
    and tmp0: "get (tree w) (D @ [n @ ''.temp.tar'']) = None"
    and dst0': "\<not> is_link_opt (get (tree w) (D @ [n]))"
    and ok: "comprimir_pasta tarc gz w src (path_join d n) lvl lg = Some (w', outs, True)"
  shows "\<exists>ms. simple_dir w' d D \<and> clock w' = clock w \<and> locked w' = locked w \<and> unreadable w' = unreadable w
    \<and> (\<forall>y. get (tree w') (D @ [y]) =
         (if y = n then Some (File (gz lvl (tarc ms)) (clock w)) else get (tree w) (D @ [y])))"
proof -
  let ?tn = "n @ ''.temp.tar''" and ?dst = "path_join d n"
  have d: "d \<noteq> []" using s by (simp add: simple_dir_def)
  have tn: "plain_name ?tn" using n by (rule plain_name_append) auto
  have ntn: "n \<noteq> ?tn" by simp
  have tmp: "?dst @ ''.temp.tar'' = path_join d ?tn" using d e n by (rule join_append_plain)
  from comprimir_true_steps [OF ok] obtain w1 ts w2 gs
    where ma: "make_archive tarc w (fst (splitext (?dst @ ''.temp.tar''))) (dirname src) (basename src) = Some (w1, None)"
      and gc: "gzip_copy gz w1 (path_join d ?tn) ?dst lvl = (w2, None)"
      and rm: "remove w2 (path_join d ?tn) = Inr w'"
    unfolding tmp by blast
  from tar_step_child [OF s e n tmp0 ma] obtain ms where s1: "simple_dir w1 d D" and c1: "clock w1 = clock w"
    and l1: "locked w1 = locked w" and u1: "unreadable w1 = unreadable w"
    and g1: "\<forall>y. get (tree w1) (D @ [y]) = (if y = ?tn then Some (File (tarc ms) (clock w)) else get (tree w) (D @ [y]))"
    by blast
  \<comment> \<open>the gzip pass reads the temporary archive and writes the destination\<close>
  from gzip_copy_ok [OF gc] obtain data wb q
    where rf: "read_file w1 (path_join d ?tn) = Inr data" and ow: "open_write True w1 ?dst = Inr (wb, q)"
      and wb: "write_bytes wb q ?dst (gz lvl data) = (w2, None)" by blast
  have data: "data = tarc ms" using rf read_file_child [OF s1 tn] g1 by (simp split: if_splits)
  have dl: "\<forall>l. get (tree w1) (D @ [n]) \<noteq> Some (Symlink l)" using dst0' g1 ntn by auto
  from write_child [OF s1 n dl ow wb] have s2: "simple_dir w2 d D"
    and l2: "locked w2 = locked w1" and u2: "unreadable w2 = unreadable w1" and c2: "clock w2 = clock w1"
    and g2: "\<forall>y. get (tree w2) (D @ [y]) =
      (if y = n then Some (File (gz lvl data) (clock w1)) else get (tree w1) (D @ [y]))" by auto
  \<comment> \<open>the temporary archive is removed\<close>
  have w': "w' = set_node w2 (D @ [?tn]) None"
    using rm remove_join [OF s2 tn] g2 g1 ntn by (simp split: if_splits)
  show ?thesis using simple_set_child [OF s2, of ?tn None] w' g2 g1 tmp0 ntn data c1 c2 l1 l2 u1 u2 by auto
qed

lemma make_tarball_wf:
  assumes r: "make_tarball tarc w bn bd rd = Some (w1, e)" and wf: "wf_node (tree w)"
  shows "wf_node (tree w1)"
proof -
  let ?an = "bn @ ''.tar''"
  obtain wa ea where m: "(if dirname ?an \<noteq> [] \<and> \<not> exists w (dirname ?an)
      then makedirs w (dirname ?an) False else (w, None)) = (wa, ea)" by (metis surj_pair)
  have wfa: "wf_node (tree wa)" using m wf makedirs_wf [OF wf, of "dirname ?an" False] by (auto split: if_splits)
  show ?thesis
  proof (cases "ea = None \<and> (\<exists>wb q. open_write True wa ?an = Inr (wb, q))")
    case True
    then obtain wb q where ow: "open_write True wa ?an = Inr (wb, q)" and ea: "ea = None" by blast
    have wfb: "wf_node (tree wb)" using open_write_wf [OF ow wfa] .
    obtain ms err2 where tw: "tar_walk wb (abspath wb ?an) [(path_join rd bd, bd)] = Some (ms, err2)"
      using r m ea ow by (auto simp: make_tarball_def Let_def bind_eq_Some_conv)
    obtain wc ec where wb: "write_bytes wb q ?an (tarc ms) = (wc, ec)" by fastforce
    have "w1 = wc" using r m ea ow tw wb by (simp add: make_tarball_def Let_def)
    then show ?thesis using write_bytes_wf [OF wb wfb] by simp
  next
    case False
    then have "w1 = wa" using r m
      by (auto simp: make_tarball_def Let_def split: option.splits sum.splits)
    with wfa show ?thesis by simp
  qed
qed

lemma make_archive_wf:
  "make_archive tarc w bn rd bd = Some (w1, e) \<Longrightarrow> wf_node (tree w) \<Longrightarrow> wf_node (tree w1)"
  by (auto simp: make_archive_def dest: make_tarball_wf split: sum.splits node.splits)

lemma gzip_copy_wf: "gzip_copy gz w s d l = (w2, e) \<Longrightarrow> wf_node (tree w) \<Longrightarrow> wf_node (tree w2)"
  by (auto simp: gzip_copy_def dest: open_write_wf write_bytes_wf split: sum.splits)

lemma comprimir_worlds:
  assumes "comprimir_pasta tarc gz w src dst lvl lg = Some (w', outs, ok)"
  shows "\<exists>w1 e. make_archive tarc w (fst (splitext (dst @ ''.temp.tar''))) (dirname src) (basename src) = Some (w1, e)
    \<and> (w' = w1 \<or> (\<exists>w2 e2. gzip_copy gz w1 (dst @ ''.temp.tar'') dst lvl = (w2, e2)
        \<and> (w' = w2 \<or> remove w2 (dst @ ''.temp.tar'') = Inr w')))"
  using assms
  by (auto simp: comprimir_pasta_def Let_def bind_eq_Some_conv split: option.splits prod.splits sum.splits)

lemma comprimir_wf:
  assumes wf: "wf_node (tree w)"
    and r: "comprimir_pasta tarc gz w pasta_origem arquivo_destino nivel lg = Some (w', outs, ok)"
  shows "wf_node (tree w')"
proof -
  obtain w1 e where ma: "make_archive tarc w (fst (splitext (arquivo_destino @ ''.temp.tar'')))
        (dirname pasta_origem) (basename pasta_origem) = Some (w1, e)"
    and cases: "w' = w1 \<or> (\<exists>w2 e2. gzip_copy gz w1 (arquivo_destino @ ''.temp.tar'') arquivo_destino nivel = (w2, e2)
        \<and> (w' = w2 \<or> remove w2 (arquivo_destino @ ''.temp.tar'') = Inr w'))"
    using comprimir_worlds [OF r] by blast
  have wf1: "wf_node (tree w1)" using make_archive_wf [OF ma wf] .
  from cases show ?thesis
  proof
    assume "w' = w1"
    with wf1 show ?thesis by simp
  next
    assume "\<exists>w2 e2. gzip_copy gz w1 (arquivo_destino @ ''.temp.tar'') arquivo_destino nivel = (w2, e2)
        \<and> (w' = w2 \<or> remove w2 (arquivo_destino @ ''.temp.tar'') = Inr w')"
    then obtain w2 e2 where g: "gzip_copy gz w1 (arquivo_destino @ ''.temp.tar'') arquivo_destino nivel = (w2, e2)"
      and w': "w' = w2 \<or> remove w2 (arquivo_destino @ ''.temp.tar'') = Inr w'" by blast
    have "wf_node (tree w2)" using gzip_copy_wf [OF g wf1] .
    with w' show ?thesis using remove_wf by blast
  qed
qed

lemma comprimir_no_print:
  "comprimir_pasta tarc gz w src dst lvl (Some l) = Some (w', os, ok) \<Longrightarrow> no_print os"
  by (auto simp: comprimir_pasta_def Let_def bind_eq_Some_conv split: option.splits prod.splits sum.splits)

section \<open>Properties\<close>

text \<open>
  C2: A source path without a directory part (\<open>backup.py data out\<close>) makes \<open>comprimir_pasta\<close> fail whatever the world holds: \<open>os.path.dirname\<close> of the path is the empty string, which \<open>shutil.make_archive\<close> passes to \<open>os.stat\<close> as \<open>root_dir\<close>, raising \<open>FileNotFoundError\<close>; the world is unchanged, the error is logged and \<open>False\<close> returned.
\<close>

theorem comprimir_relative_source:
  assumes "CHR ''/'' \<notin> set pasta_origem"
  shows "comprimir_pasta tarc gz w pasta_origem arquivo_destino nivel lg =
    Some (w, log_opt lg INFO (EvCompressStart pasta_origem) @ log_opt lg INFO (EvCompressLevel nivel)
             @ log_opt lg DEBUG (EvTempTar (arquivo_destino @ ''.temp.tar''))
             @ log_or_print lg ERROR (EvCompressError (OSError ENOENT [])) (EvCompressError (OSError ENOENT [])),
          False)"
  using assms by (simp add: comprimir_pasta_def make_archive_def dirname_plain stat_empty)

theorem comprimir_relative_source_witness:
  "comprimir_pasta toy_tar toy_gz ex_home ''data'' ''/home/backups/b.tar.gz'' 6 None =
     Some (ex_home, [Print (EvCompressError (OSError ENOENT []))], False)"
  using comprimir_relative_source [of "''data''" toy_tar toy_gz ex_home "''/home/backups/b.tar.gz''" 6 None]
  by (simp add: log_opt_def log_or_print_def)

text \<open>
  C3: When \<open>comprimir_pasta\<close> succeeds with a destination named plainly in an existing directory (no temporary file there beforehand, the destination not a link), the destination holds the gzip stream, at the requested level, of a tar stream of the source, and the temporary tar file is gone.
\<close>

theorem comprimir_success:
  assumes s: "simple_dir w d D" and e: "\<not> py_endswith ''/'' d" and n: "plain_name n"
    and tmp0: "get (tree w) (D @ [n @ ''.temp.tar'']) = None"
    and dst0': "\<not> is_link_opt (get (tree w) (D @ [n]))"
    and ok: "comprimir_pasta tarc gz w src (path_join d n) lvl lg = Some (w', outs, True)"
  shows "\<exists>ms. get (tree w') (D @ [n]) = Some (File (gz lvl (tarc ms)) (clock w))
    \<and> get (tree w') (D @ [n @ ''.temp.tar'']) = None"
proof -
  from comprimir_success_child [OF s e n tmp0 dst0' ok] obtain ms
    where "\<forall>y. get (tree w') (D @ [y]) =
         (if y = n then Some (File (gz lvl (tarc ms)) (clock w)) else get (tree w) (D @ [y]))" by blast
  then show ?thesis using tmp0 by auto
qed

theorem comprimir_success_witness:
  "simple_dir ex_home ''/home/backups'' [''home'', ''backups''] \<and> plain_name ''backup_data_1.tar.gz''
   \<and> (\<exists>ms. get (tree (fst (the (comprimir_pasta toy_tar toy_gz ex_home ''/home/data''
          ''/home/backups/backup_data_1.tar.gz'' 6 None)))) [''home'', ''backups'', ''backup_data_1.tar.gz'']
        = Some (File (toy_gz 6 (toy_tar ms)) 10))"
proof -
  let ?r = "comprimir_pasta toy_tar toy_gz ex_home ''/home/data'' ''/home/backups/backup_data_1.tar.gz'' 6 None"
  have h1: "simple_dir ex_home ''/home/backups'' [''home'', ''backups'']" by code_simp
  have h2: "\<not> py_endswith ''/'' ''/home/backups''" by code_simp
  have h3: "plain_name ''backup_data_1.tar.gz''" by code_simp
  have h4: "get (tree ex_home) ([''home'', ''backups''] @ [''backup_data_1.tar.gz'' @ ''.temp.tar'']) = None" by code_simp
  have h5: "\<not> is_link_opt (get (tree ex_home) ([''home'', ''backups''] @ [''backup_data_1.tar.gz'']))" by code_simp
  have j: "path_join ''/home/backups'' ''backup_data_1.tar.gz'' = ''/home/backups/backup_data_1.tar.gz''" by code_simp
  have h6: "?r = Some (fst (the ?r), fst (snd (the ?r)), True)" by code_simp
  have c10: "clock ex_home = 10" by (simp add: ex_home_def)
  show ?thesis
    using comprimir_success [OF h1 h2 h3 h4 h5, of toy_tar toy_gz "''/home/data''" 6 None
        "fst (the ?r)" "fst (snd (the ?r))"] h6 j h1 h3 c10 by simp
qed


text \<open>
  C7: When the disk fills during the gzip pass, \<open>comprimir_pasta\<close> returns \<open>False\<close> and leaves two files behind in the backup directory: the temporary tar archive, complete, and a truncated destination archive holding the first bytes of the compressed stream, as many as there was room for. Nothing removes either (there is no clean-up on the failure path).
\<close>

theorem comprimir_disk_full_keeps_temp:
  assumes s: "simple_dir w d D" and e: "\<not> py_endswith ''/'' d" and n: "plain_name n"
    and tmp0: "get (tree w) (D @ [n @ ''.temp.tar'']) = None"
    and dst0: "get (tree w) (D @ [n]) = None"
    and acc: "D @ [n @ ''.temp.tar''] \<notin> set (unreadable w)" "D \<notin> set (locked w)"
    and ma: "make_archive tarc w (fst (splitext (path_join d n @ ''.temp.tar''))) (dirname src) (basename src)
               = Some (w1, None)"
    and c: "get (tree w1) (D @ [n @ ''.temp.tar'']) = Some (File c t)"
    and full: "free w1 < length (gz lvl c)"
  shows "\<exists>w' outs. comprimir_pasta tarc gz w src (path_join d n) lvl lg = Some (w', outs, False)
     \<and> get (tree w') (D @ [n @ ''.temp.tar'']) = Some (File c t)
     \<and> get (tree w') (D @ [n]) = Some (File (take (free w1) (gz lvl c)) (clock w))"
proof -
  let ?tn = "n @ ''.temp.tar''" and ?dst = "path_join d n"
  have d: "d \<noteq> []" using s by (simp add: simple_dir_def)
  have tn: "plain_name ?tn" using n by (rule plain_name_append) auto
  have ntn: "n \<noteq> ?tn" by simp
  have tmp: "?dst @ ''.temp.tar'' = path_join d ?tn" using d e n by (rule join_append_plain)
  from tar_step_child [OF s e n tmp0 ma] obtain ms where s1: "simple_dir w1 d D" and c1: "clock w1 = clock w"
    and l1: "locked w1 = locked w" and u1: "unreadable w1 = unreadable w"
    and g1: "\<forall>y. get (tree w1) (D @ [y]) = (if y = ?tn then Some (File (tarc ms) (clock w)) else get (tree w) (D @ [y]))"
    by blast
  have gs: "getsize w1 (?dst @ ''.temp.tar'') = Inr (st_size (File c t))"
    unfolding tmp using stat_child [OF s1 tn c] by (simp add: getsize_def)
  have rf: "read_file w1 (?dst @ ''.temp.tar'') = Inr c"
    unfolding tmp using read_file_child [OF s1 tn c] acc u1 by simp
  have nd: "get (tree w1) (D @ [n]) = None" using g1 dst0 ntn by simp
  then have dl: "\<forall>l. get (tree w1) (D @ [n]) \<noteq> Some (Symlink l)" by simp
  obtain wa q where ow: "open_write True w1 ?dst = Inr (wa, q)"
    using open_write_child [OF s1 n dl] nd acc l1 by simp
  obtain w2 err where wb: "write_bytes wa q ?dst (gz lvl c) = (w2, err)" by fastforce
  from write_child [OF s1 n dl ow wb] full have s2: "simple_dir w2 d D" and err: "err \<noteq> None"
    and g2: "\<forall>y. get (tree w2) (D @ [y]) =
      (if y = n then Some (File (take (free w1) (gz lvl c)) (clock w1)) else get (tree w1) (D @ [y]))" by auto
  have gc: "gzip_copy gz w1 (?dst @ ''.temp.tar'') ?dst lvl = (w2, err)"
    using rf ow wb by (simp add: gzip_copy_def)
  show ?thesis
    using ma gs gc err g2 c ntn c1 by (auto simp: comprimir_pasta_def Let_def)
qed

theorem comprimir_disk_full_keeps_temp_witness:
  "\<exists>w' outs. comprimir_pasta toy_tar toy_gz ex_full ''/home/data'' ''/home/backups/backup_data_1.tar.gz'' 6 None
       = Some (w', outs, False)
     \<and> get (tree w') [''home'', ''backups'', ''backup_data_1.tar.gz.temp.tar'']
       = Some (File ''data/;data/a/;data/a/c:xy;data/b.txt:hello;'' 10)
     \<and> get (tree w') [''home'', ''backups'', ''backup_data_1.tar.gz''] = Some (File ''Zdata/;'' 10)"
proof -
  let ?ma = "make_archive toy_tar ex_full (fst (splitext (path_join ''/home/backups'' ''backup_data_1.tar.gz'' @ ''.temp.tar'')))
               (dirname ''/home/data'') (basename ''/home/data'')"
  let ?D = "[''home'', ''backups'']"
  have h1: "simple_dir ex_full ''/home/backups'' ?D" by code_simp
  have h2: "\<not> py_endswith ''/'' ''/home/backups''" by code_simp
  have h3: "plain_name ''backup_data_1.tar.gz''" by code_simp
  have h4: "get (tree ex_full) (?D @ [''backup_data_1.tar.gz'' @ ''.temp.tar'']) = None" by code_simp
  have h5: "get (tree ex_full) (?D @ [''backup_data_1.tar.gz'']) = None" by code_simp
  have h6: "?D @ [''backup_data_1.tar.gz'' @ ''.temp.tar''] \<notin> set (unreadable ex_full)" "?D \<notin> set (locked ex_full)"
    by code_simp+
  have h7: "?ma = Some (fst (the ?ma), None)" by code_simp
  have h8: "get (tree (fst (the ?ma))) (?D @ [''backup_data_1.tar.gz'' @ ''.temp.tar''])
      = Some (File ''data/;data/a/;data/a/c:xy;data/b.txt:hello;'' 10)" by code_simp
  have h9: "free (fst (the ?ma)) < length (toy_gz 6 ''data/;data/a/;data/a/c:xy;data/b.txt:hello;'')" by code_simp
  have f: "free (fst (the ?ma)) = 7" by code_simp
  have j: "path_join ''/home/backups'' ''backup_data_1.tar.gz'' = ''/home/backups/backup_data_1.tar.gz''" by code_simp
  have c: "clock ex_full = 10" by code_simp
  have z: "take 7 (toy_gz 6 ''data/;data/a/;data/a/c:xy;data/b.txt:hello;'') = ''Zdata/;''" by code_simp
  show ?thesis
    using comprimir_disk_full_keeps_temp [where gz = toy_gz and lvl = 6 and lg = None, OF h1 h2 h3 h4 h5 h6 h7 h8 h9]
      f j c z by simp
qed



end
