(* ===== verification/BackupMain.thy ===== *)
theory BackupMain
  imports Retention Archiver
begin

text \<open>
  \<open>main()\<close> (lines 160--246 of \<open>src/backup.py\<close>): one run of the script, composed of
  the components of the other theories. The parsed command line is an input
  (\<open>argparse\<close> is library code), and so are the six readings of the clock
  (\<open>datetime.datetime.now()\<close> at lines 181, 197, 209, 221, 227 and 245): the two
  formatted time stamps that name the log file and the archive, and four instants in
  seconds. An exception that \<open>main\<close> does not catch (from \<open>os.makedirs\<close>, opening the
  log file, or \<open>os.path.getsize\<close> of the archive) ends the run; the result then
  carries it. The tar and gzip codecs are the parameters of \<open>comprimir_pasta\<close>.
  \<open>runs\<close> chains runs one after the other, as a scheduler would start them, with
  the clock advancing in between; the file-system invariant holds along it.
\<close>

section \<open>Inputs\<close>

record args =
  pasta_origem :: string
  pasta_destino :: string
  compressao :: int
  manter :: int
  log :: "string option"
  verbose :: bool

record stamps =
  log_stamp :: string     \<comment> \<open>line 181, \<open>%Y%m%d_%H%M%S\<close>\<close>
  run_start :: int        \<comment> \<open>line 197\<close>
  arch_stamp :: string    \<comment> \<open>line 209, \<open>%Y%m%d_%H%M%S\<close>\<close>
  hora_inicio :: int      \<comment> \<open>line 221\<close>
  hora_fim :: int         \<comment> \<open>line 227\<close>
  run_end :: int          \<comment> \<open>line 245\<close>

section \<open>main\<close>

text \<open>Lines 176--184: the log directory and the log file's name.\<close>

definition log_file_name :: "args \<Rightarrow> stamps \<Rightarrow> string" where
  "log_file_name a st =
     (case log a of
        Some f \<Rightarrow> (if f \<noteq> [] then f
                   else path_join (path_join (pasta_destino a) ''logs'') (''backup_'' @ log_stamp st @ ''.log''))
      | None \<Rightarrow> path_join (path_join (pasta_destino a) ''logs'') (''backup_'' @ log_stamp st @ ''.log''))"

text \<open>Lines 209--214: the archive's path.\<close>

definition arquivo_backup :: "args \<Rightarrow> stamps \<Rightarrow> string" where
  "arquivo_backup a st =
     path_join (pasta_destino a)
       (''backup_'' @ basename (normpath (pasta_origem a)) @ ''_'' @ arch_stamp st @ ''.tar.gz'')"

text \<open>
  Lines 230--242: after the compression, the statistics and the pruning on success,
  the error record otherwise. The result is the world, the records and the exception
  that ends the run, if any.
\<close>

definition finish_run ::
  "world \<Rightarrow> logger \<Rightarrow> args \<Rightarrow> stamps \<Rightarrow> nat \<Rightarrow> bool \<Rightarrow> world \<times> out_rec list \<times> exc option" where
  "finish_run w lg a st tamanho_origem sucesso =
     (if sucesso then
        (case getsize w (arquivo_backup a st) of
           Inl e \<Rightarrow> (w, [], Some e)
         | Inr tamanho_backup \<Rightarrow>
             (let taxa = (if tamanho_backup > 0 then real tamanho_origem / real tamanho_backup else 0);
                  o1 = emit lg INFO (EvBackupSize tamanho_backup (formatar_tamanho tamanho_backup))
                       @ emit lg INFO (EvRatio taxa)
                       @ emit lg INFO (EvDuration (hora_fim st - hora_inicio st));
                  (w', o2, _) = limpar_backups_antigos w (pasta_destino a) (manter a) (Some lg)
              in (w', o1 @ o2, None)))
      else (w, emit lg ERROR EvBackupFailed, None))"

definition main ::
  "(member list \<Rightarrow> string) \<Rightarrow> (int \<Rightarrow> string \<Rightarrow> string) \<Rightarrow> world \<Rightarrow> args \<Rightarrow> stamps \<Rightarrow>
   (world \<times> out_rec list \<times> exc option) option" where
  "main tarc gz w a st =
     (case makedirs w (path_join (pasta_destino a) ''logs'') True of
        (w1, Some e) \<Rightarrow> Some (w1, [], Some e)
      | (w1, None) \<Rightarrow>
          (case configurar_logger w1 fresh_logger (Some (log_file_name a st)) of
             Inl e \<Rightarrow> Some (w1, [], Some e)
           | Inr (w2, lg0) \<Rightarrow>
               (let lg = (if verbose a then set_verbose lg0 else lg0);
                    o1 = emit lg INFO EvRule @ emit lg INFO (EvRunStart (run_start st))
                         @ emit lg INFO (EvOrigin (pasta_origem a)) @ emit lg INFO (EvDest (pasta_destino a))
                in if \<not> exists w2 (pasta_origem a)
                   then Some (w2, o1 @ emit lg ERROR (EvSourceMissing (pasta_origem a)), None)
                   else
                     (case makedirs w2 (pasta_destino a) True of
                        (w3, Some e) \<Rightarrow> Some (w3, o1, Some e)
                      | (w3, None) \<Rightarrow>
                          Option.bind (calcular_tamanho_diretorio w3 (pasta_origem a)) (\<lambda>tamanho_origem.
                            let o2 = emit lg INFO (EvSourceSize tamanho_origem (formatar_tamanho tamanho_origem))
                            in Option.bind (comprimir_pasta tarc gz w3 (pasta_origem a) (arquivo_backup a st)
                                              (compressao a) (Some lg))
                                 (\<lambda>(w4, o3, sucesso).
                                    let (w5, o4, err) = finish_run w4 lg a st tamanho_origem sucesso
                                    in Some (w5, o1 @ o2 @ o3 @ o4 @
                                               (case err of
                                                  Some _ \<Rightarrow> []
                                                | None \<Rightarrow> emit lg INFO (EvRunEnd (run_end st)) @ emit lg INFO EvRule),
                                             err)))))))"


text \<open>
  Successive runs of the script on one machine, one at a time: each \<open>main\<close> starts from
  the world the previous run left, and the clock may advance between runs.
\<close>

inductive runs ::
  "(member list \<Rightarrow> string) \<Rightarrow> (int \<Rightarrow> string \<Rightarrow> string) \<Rightarrow> world \<Rightarrow> world \<Rightarrow> bool"
  for tarc gz where
  start: "runs tarc gz w w"
| run: "runs tarc gz w w1 \<Longrightarrow> main tarc gz w1 a st = Some (w2, outs, e) \<Longrightarrow> runs tarc gz w w2"
| tick: "runs tarc gz w w1 \<Longrightarrow> clock w1 \<le> t \<Longrightarrow> runs tarc gz w (w1\<lparr>clock := t\<rparr>)"

section \<open>Examples\<close>

definition ex_args :: args where
  "ex_args = \<lparr>pasta_origem = ''/home/data'', pasta_destino = ''/home/backups'', compressao = 6,
              manter = 5, log = None, verbose = False\<rparr>"

definition ex_stamps :: stamps where
  "ex_stamps = \<lparr>log_stamp = ''20260101_000000'', run_start = 1, arch_stamp = ''20260101_000001'',
                hora_inicio = 2, hora_fim = 3, run_end = 4\<rparr>"

text \<open>
  A home directory whose backup directory already holds two archives of the source,
  older than the clock, and an unrelated file.
\<close>

definition ex_prune :: world where
  "ex_prune = \<lparr>tree = Dir 0 [(''home'', Dir 0
      [(''data'', Dir 1 [(''b.txt'', File ''hello'' 1), (''a'', Dir 2 [(''c'', File ''xy'' 2)])]),
       (''backups'', Dir 0 [(''backup_data_20250101_000000.tar.gz'', File ''old1'' 1),
                           (''backup_data_20250201_000000.tar.gz'', File ''old2'' 2),
                           (''notes.txt'', File ''n'' 3)])])],
     cwd = [''home''], clock = 10, locked = [], unreadable = [], free = 1000\<rparr>"

section \<open>Lemmas\<close>

lemma configurar_logger_wf:
  "configurar_logger w lg f = Inr (w', lg') \<Longrightarrow> wf_node (tree w) \<Longrightarrow> wf_node (tree w')"
  by (auto simp: configurar_logger_def Let_def dest: open_write_wf split: option.splits if_splits sum.splits)

lemma emit_first_handler:
  "handlers lg = h # hs \<Longrightarrow> effective_level lg \<le> level_no lvl \<Longrightarrow> hlevel h \<le> level_no lvl \<Longrightarrow>
   Emit (hsink h) lvl ev \<in> set (emit lg lvl ev)"
  by (simp add: emit_def)

lemma main_total:
  assumes wf: "wf_node (tree w)"
  shows "\<exists>r. main tarc gz w a st = Some r"
proof -
  obtain w1 e1 where m1: "makedirs w (path_join (pasta_destino a) ''logs'') True = (w1, e1)"
    by (metis surj_pair)
  have wf1: "wf_node (tree w1)" using makedirs_wf [OF wf, of "path_join (pasta_destino a) ''logs''" True] m1 by simp
  show ?thesis
  proof (cases "e1 = None \<and> (\<exists>w2 lg. configurar_logger w1 fresh_logger (Some (log_file_name a st)) = Inr (w2, lg))
                 \<and> exists (fst (projr (configurar_logger w1 fresh_logger (Some (log_file_name a st))))) (pasta_origem a)")
    case True
    then obtain w2 lg0 where e1: "e1 = None"
      and cl: "configurar_logger w1 fresh_logger (Some (log_file_name a st)) = Inr (w2, lg0)"
      and ex: "exists w2 (pasta_origem a)" by auto
    have wf2: "wf_node (tree w2)" using configurar_logger_wf [OF cl wf1] .
    obtain w3 e3 where m3: "makedirs w2 (pasta_destino a) True = (w3, e3)" by (metis surj_pair)
    have wf3: "wf_node (tree w3)" using makedirs_wf [OF wf2, of "pasta_destino a" True] m3 by simp
    obtain s where cs: "calcular_tamanho_diretorio w3 (pasta_origem a) = Some s"
      using walk_sum_total [OF wf3] by (auto simp: calcular_tamanho_diretorio_def)
    obtain r where cp: "comprimir_pasta tarc gz w3 (pasta_origem a) (arquivo_backup a st) (compressao a)
        (Some (if verbose a then set_verbose lg0 else lg0)) = Some r"
      using comprimir_total [OF wf3] by blast
    show ?thesis
      using m1 e1 cl ex m3 cs cp
      by (cases e3) (auto simp: main_def Let_def case_prod_beta)
  next
    case False
    then show ?thesis using m1
      by (auto simp: main_def Let_def split: option.splits sum.splits)
  qed
qed

lemma configurar_emits_stderr:
  assumes cl: "configurar_logger w1 fresh_logger (Some f) = Inr (w2, lg)"
    and il: "level_no INFO \<le> level_no lvl"
  shows "Emit Stderr lvl ev \<in> set (emit (if v then set_verbose lg else lg) lvl ev)"
proof -
  have "handlers lg \<noteq> [] \<and> hsink (hd (handlers lg)) = Stderr \<and> hlevel (hd (handlers lg)) = NOTSET
      \<and> llevel lg = level_no INFO"
    using cl by (auto simp: configurar_logger_def fresh_logger_def Let_def split: option.splits if_splits sum.splits)
  then obtain h hs where hl: "handlers lg = h # hs" and h: "hsink h = Stderr" "hlevel h = NOTSET"
    and ll: "llevel lg = level_no INFO" by (cases "handlers lg") auto
  show ?thesis
  proof (cases "v")
    case True
    have hv: "handlers (set_verbose lg) = h\<lparr>hlevel := level_no DEBUG\<rparr> # map (\<lambda>h. h\<lparr>hlevel := level_no DEBUG\<rparr>) hs"
      using hl by (simp add: set_verbose_def)
    have "level_no DEBUG \<le> level_no lvl" by (cases lvl) simp_all
    from emit_first_handler [OF hv, of lvl ev] h True this show ?thesis
      by (simp add: effective_level_def set_verbose_def NOTSET_def)
  next
    case False
    from emit_first_handler [OF hl, of lvl ev] h ll il False show ?thesis
      by (simp add: effective_level_def NOTSET_def)
  qed
qed

lemma finish_run_wf: "wf_node (tree w) \<Longrightarrow> wf_node (tree (fst (finish_run w lg a st s b)))"
  by (simp add: finish_run_def Let_def case_prod_beta limpar_wf split: sum.split)

lemma main_wf:
  assumes wf: "wf_node (tree w)"
    and r: "main tarc gz w a st = Some (w', outs, e)"
  shows "wf_node (tree w')"
proof -
  obtain w1 e1 where m1: "makedirs w (path_join (pasta_destino a) ''logs'') True = (w1, e1)"
    by (metis surj_pair)
  have wf1: "wf_node (tree w1)" using makedirs_wf [OF wf, of "path_join (pasta_destino a) ''logs''" True] m1 by simp
  show ?thesis
  proof (cases "e1 = None \<and> (\<exists>w2 lg. configurar_logger w1 fresh_logger (Some (log_file_name a st)) = Inr (w2, lg))
                 \<and> exists (fst (projr (configurar_logger w1 fresh_logger (Some (log_file_name a st))))) (pasta_origem a)")
    case True
    then obtain w2 lg0 where e1: "e1 = None"
      and cl: "configurar_logger w1 fresh_logger (Some (log_file_name a st)) = Inr (w2, lg0)"
      and ex: "exists w2 (pasta_origem a)" by auto
    let ?lg = "if verbose a then set_verbose lg0 else lg0"
    have wf2: "wf_node (tree w2)" using configurar_logger_wf [OF cl wf1] .
    obtain w3 e3 where m3: "makedirs w2 (pasta_destino a) True = (w3, e3)" by (metis surj_pair)
    have wf3: "wf_node (tree w3)" using makedirs_wf [OF wf2, of "pasta_destino a" True] m3 by simp
    show ?thesis
    proof (cases e3)
      case None
      obtain s where cs: "calcular_tamanho_diretorio w3 (pasta_origem a) = Some s"
        using walk_sum_total [OF wf3] by (auto simp: calcular_tamanho_diretorio_def)
      obtain w4 o3 b where cp: "comprimir_pasta tarc gz w3 (pasta_origem a) (arquivo_backup a st) (compressao a)
          (Some ?lg) = Some (w4, o3, b)"
        using comprimir_total [OF wf3] by (metis prod_cases3)
      have "w' = fst (finish_run w4 ?lg a st s b)"
        using r m1 e1 cl ex m3 None cs cp by (auto simp: main_def Let_def case_prod_beta)
      then show ?thesis using finish_run_wf [OF comprimir_wf [OF wf3 cp]] by simp
    qed (use r m1 e1 cl ex m3 wf3 in \<open>simp add: main_def Let_def\<close>)
  next
    case False
    then show ?thesis using r m1 wf1
      by (auto simp: main_def Let_def dest: configurar_logger_wf split: option.splits sum.splits if_splits)
  qed
qed

lemma comprimir_retention_dir:
  assumes wf: "wf_node (tree w)" and rd: "retention_dir w d D t es"
    and xp: "plain_name x"
    and fresh: "get (tree w) (D @ [x]) = None" "get (tree w) (D @ [x @ ''.temp.tar'']) = None"
    and ok: "comprimir_pasta tarc gz w src (path_join d x) lvl lg = Some (w', outs, True)"
  shows "\<exists>t' es' c. retention_dir w' d D t' es' \<and> wf_node (tree w') \<and> clock w' = clock w
    \<and> (\<forall>y. map_of es' y = (if y = x then Some (File c (clock w)) else map_of es y))"
proof -
  have s: "simple_dir w d D" and e: "\<not> py_endswith ''/'' d" and D: "get (tree w) D = Some (Dir t es)"
    using rd by (auto simp: retention_dir_def)
  have nl: "\<not> is_link_opt (get (tree w) (D @ [x]))" using fresh(1) by simp
  from comprimir_success_child [OF s e xp fresh(2) nl ok] obtain ms
    where s': "simple_dir w' d D" and c': "clock w' = clock w" and l': "locked w' = locked w"
      and u': "unreadable w' = unreadable w"
      and g': "\<forall>y. get (tree w') (D @ [y]) =
         (if y = x then Some (File (gz lvl (tarc ms)) (clock w)) else get (tree w) (D @ [y]))" by blast
  have wf': "wf_node (tree w')" using comprimir_wf [OF wf ok] .
  obtain t' es' where D': "get (tree w') D = Some (Dir t' es')" using s' by (metis simple_dir_get)
  have "wf_node (Dir t' es')" using wf_node_get [OF wf' D'] .
  then have dn: "distinct (map fst es')" "list_all plain_name (map fst es')" by (auto simp: list_all_iff)
  have "retention_dir w' d D t' es'" using rd s' D' l' u' dn by (simp add: retention_dir_def)
  moreover have "\<forall>y. map_of es' y = (if y = x then Some (File (gz lvl (tarc ms)) (clock w)) else map_of es y)"
    using g' get_child [OF D'] get_child [OF D] by simp
  ultimately show ?thesis using wf' c' by blast
qed

lemma finish_run_no_print: "no_print (fst (snd (finish_run w l a st s b)))"
  by (simp add: finish_run_def Let_def case_prod_beta limpar_no_print split: sum.split)

section \<open>Properties\<close>

text \<open>
  C5: A missing source still leaves output: when the source path does not exist, \<open>main\<close> has already created the \<open>logs\<close> directory under the destination and opened the log file, and stops there with an error record: the world after the run is exactly the world after those two steps, with no archive and no pruning, and no exception leaves \<open>main\<close> (the exit status is 0).
\<close>

theorem main_source_missing:
  assumes md: "makedirs w (path_join (pasta_destino a) ''logs'') True = (w1, None)"
    and cl: "configurar_logger w1 fresh_logger (Some (log_file_name a st)) = Inr (w2, lg)"
    and nx: "\<not> exists w2 (pasta_origem a)"
  shows "\<exists>outs. main tarc gz w a st = Some (w2, outs, None)
    \<and> Emit Stderr ERROR (EvSourceMissing (pasta_origem a)) \<in> set outs"
proof -
  have "Emit Stderr ERROR (EvSourceMissing (pasta_origem a))
      \<in> set (emit (if verbose a then set_verbose lg else lg) ERROR (EvSourceMissing (pasta_origem a)))"
    using configurar_emits_stderr [OF cl] by simp
  then show ?thesis using md cl nx by (simp add: main_def Let_def)
qed

theorem main_source_missing_witness:
  "\<exists>outs. main toy_tar toy_gz ex_home (ex_args\<lparr>pasta_origem := ''/home/nope''\<rparr>) ex_stamps
     = Some (fst (projr (configurar_logger (fst (makedirs ex_home ''/home/backups/logs'' True)) fresh_logger
                (Some ''/home/backups/logs/backup_20260101_000000.log''))), outs, None)
     \<and> Emit Stderr ERROR (EvSourceMissing ''/home/nope'') \<in> set outs"
proof -
  let ?a = "ex_args\<lparr>pasta_origem := ''/home/nope''\<rparr>"
  let ?w1 = "fst (makedirs ex_home ''/home/backups/logs'' True)"
  let ?c = "configurar_logger ?w1 fresh_logger (Some ''/home/backups/logs/backup_20260101_000000.log'')"
  have j: "path_join (pasta_destino ?a) ''logs'' = ''/home/backups/logs''" by code_simp
  have lf: "log_file_name ?a ex_stamps = ''/home/backups/logs/backup_20260101_000000.log''" by code_simp
  have h1: "makedirs ex_home (path_join (pasta_destino ?a) ''logs'') True = (?w1, None)" unfolding j by code_simp
  have h2: "configurar_logger ?w1 fresh_logger (Some (log_file_name ?a ex_stamps))
      = Inr (fst (projr ?c), snd (projr ?c))" unfolding lf by code_simp
  have h3: "\<not> exists (fst (projr ?c)) (pasta_origem ?a)" by code_simp
  show ?thesis using main_source_missing [OF h1 h2 h3, of toy_tar toy_gz] by simp
qed






text \<open>
  C8: A run with a source path that has no directory part fails as a whole: the source exists (relative to the working directory) and its size is measured, but \<open>comprimir_pasta\<close> fails at \<open>shutil.make_archive\<close>, so the run logs \<open>Backup falhou!\<close> to the console, creates no archive and prunes nothing: the world after the run is the world after the destination directory was made, and no exception leaves \<open>main\<close>.
\<close>

theorem main_relative_source_fails:
  assumes wf: "wf_node (tree w)"
    and md: "makedirs w (path_join (pasta_destino a) ''logs'') True = (w1, None)"
    and cl: "configurar_logger w1 fresh_logger (Some (log_file_name a st)) = Inr (w2, lg)"
    and ex: "exists w2 (pasta_origem a)"
    and rel: "CHR ''/'' \<notin> set (pasta_origem a)"
    and md2: "makedirs w2 (pasta_destino a) True = (w3, None)"
  shows "\<exists>outs. main tarc gz w a st = Some (w3, outs, None) \<and> Emit Stderr ERROR EvBackupFailed \<in> set outs"
proof -
  let ?lg = "if verbose a then set_verbose lg else lg"
  have "wf_node (tree w1)" using makedirs_wf [OF wf, of "path_join (pasta_destino a) ''logs''" True] md by simp
  then have wf3: "wf_node (tree w3)"
    using makedirs_wf [OF configurar_logger_wf [OF cl], of "pasta_destino a" True] md2 by simp
  obtain s where cs: "calcular_tamanho_diretorio w3 (pasta_origem a) = Some s"
    using walk_sum_total [OF wf3] by (auto simp: calcular_tamanho_diretorio_def)
  obtain o3 where cp: "comprimir_pasta tarc gz w3 (pasta_origem a) (arquivo_backup a st) (compressao a) (Some ?lg)
      = Some (w3, o3, False)"
    using rel by (simp add: comprimir_pasta_def make_archive_def dirname_plain stat_empty)
  have "finish_run w3 ?lg a st s False = (w3, emit ?lg ERROR EvBackupFailed, None)"
    by (simp add: finish_run_def)
  with configurar_emits_stderr [OF cl, of ERROR EvBackupFailed "verbose a"] show ?thesis
    using md cl ex md2 cs cp by (simp add: main_def Let_def)
qed

theorem main_relative_source_fails_witness:
  "\<exists>outs. main toy_tar toy_gz ex_home (ex_args\<lparr>pasta_origem := ''data''\<rparr>) ex_stamps
     = Some (fst (makedirs (fst (projr (configurar_logger (fst (makedirs ex_home ''/home/backups/logs'' True)) fresh_logger
                (Some ''/home/backups/logs/backup_20260101_000000.log'')))) ''/home/backups'' True), outs, None)
     \<and> Emit Stderr ERROR EvBackupFailed \<in> set outs"
proof -
  let ?a = "ex_args\<lparr>pasta_origem := ''data''\<rparr>"
  let ?w1 = "fst (makedirs ex_home ''/home/backups/logs'' True)"
  let ?c = "configurar_logger ?w1 fresh_logger (Some ''/home/backups/logs/backup_20260101_000000.log'')"
  let ?w3 = "fst (makedirs (fst (projr ?c)) ''/home/backups'' True)"
  have wf: "wf_node (tree ex_home)" by code_simp
  have j: "path_join (pasta_destino ?a) ''logs'' = ''/home/backups/logs''" by code_simp
  have lf: "log_file_name ?a ex_stamps = ''/home/backups/logs/backup_20260101_000000.log''" by code_simp
  have h1: "makedirs ex_home (path_join (pasta_destino ?a) ''logs'') True = (?w1, None)" unfolding j by code_simp
  have h2: "configurar_logger ?w1 fresh_logger (Some (log_file_name ?a ex_stamps))
      = Inr (fst (projr ?c), snd (projr ?c))" unfolding lf by code_simp
  have h3: "exists (fst (projr ?c)) (pasta_origem ?a)" by code_simp
  have h4: "CHR ''/'' \<notin> set (pasta_origem ?a)" by simp
  have h5: "makedirs (fst (projr ?c)) (pasta_destino ?a) True = (?w3, None)" by code_simp
  show ?thesis using main_relative_source_fails [OF wf h1 h2 h3 h4 h5, of toy_tar toy_gz] by simp
qed


text \<open>
  C6: A successful run keeps its own archive and prunes to the retain count: when the destination is a plainly named directory whose archives are files older than the clock, and the compression succeeds, \<open>main\<close> ends without an exception, the new archive is among the archives left, and exactly \<open>min (m + 1) k\<close> archives remain, \<open>m\<close> being the archives before the run and \<open>k \<ge> 1\<close> the count to keep: compression, statistics and pruning compose.
\<close>

theorem main_success_prunes:
  assumes wf: "wf_node (tree w)"
    and md: "makedirs w (path_join (pasta_destino a) ''logs'') True = (w1, None)"
    and cl: "configurar_logger w1 fresh_logger (Some (log_file_name a st)) = Inr (w2, lg)"
    and ex: "exists w2 (pasta_origem a)"
    and md2: "makedirs w2 (pasta_destino a) True = (w3, None)"
    and rd: "retention_dir w3 (pasta_destino a) D t es"
    and stp: "CHR ''/'' \<notin> set (arch_stamp st)"
    and fresh: "get (tree w3) (D @ [basename (arquivo_backup a st)]) = None"
      "get (tree w3) (D @ [basename (arquivo_backup a st) @ ''.temp.tar'']) = None"
    and old: "\<forall>n \<in> set (backup_names es). \<exists>c tm. map_of es n = Some (File c tm) \<and> tm < clock w3"
    and ok: "comprimir_pasta tarc gz w3 (pasta_origem a) (arquivo_backup a st) (compressao a)
               (Some (if verbose a then set_verbose lg else lg)) = Some (w4, o3, True)"
    and k: "1 \<le> manter a"
  shows "\<exists>w5 outs. main tarc gz w a st = Some (w5, outs, None)
    \<and> basename (arquivo_backup a st) \<in> set (backup_names (dir_entries w5 D))
    \<and> length (backup_names (dir_entries w5 D)) = min (Suc (length (backup_names es))) (nat (manter a))"
proof -
  let ?lg = "if verbose a then set_verbose lg else lg" and ?d = "pasta_destino a"
  let ?m = "basename (normpath (pasta_origem a)) @ ''_'' @ arch_stamp st"
  let ?x = "''backup_'' @ ?m @ ''.tar.gz''"
  have ab: "arquivo_backup a st = path_join ?d ?x" by (simp add: arquivo_backup_def)
  have ns: "CHR ''/'' \<notin> set ?m" using stp basename_no_slash [of "normpath (pasta_origem a)"] by simp
  have xp: "plain_name ?x" using ns by (rule backup_name_plain)
  have xb: "basename (arquivo_backup a st) = ?x"
    unfolding ab using xp by (simp add: basename_join plain_name_def)
  have "wf_node (tree w1)" using makedirs_wf [OF wf, of "path_join ?d ''logs''" True] md by simp
  then have wf3: "wf_node (tree w3)"
    using makedirs_wf [OF configurar_logger_wf [OF cl], of ?d True] md2 by simp
  obtain s where cs: "calcular_tamanho_diretorio w3 (pasta_origem a) = Some s"
    using walk_sum_total [OF wf3] by (auto simp: calcular_tamanho_diretorio_def)
  from comprimir_retention_dir [OF wf3 rd xp fresh [unfolded xb] ok [unfolded ab]] obtain t4 es4 c
    where rd4: "retention_dir w4 ?d D t4 es4"
      and es4: "\<forall>y. map_of es4 y = (if y = ?x then Some (File c (clock w3)) else map_of es y)" by blast
  have D: "get (tree w3) D = Some (Dir t es)" and dist: "distinct (map fst es)"
    using rd by (auto simp: retention_dir_def)
  have xn: "map_of es ?x = None" using fresh(1) xb get_child [OF D] by simp
  have pr: "snd (snd (limpar_backups_antigos w4 ?d (manter a) (Some ?lg)))
    \<and> ?x \<in> set (backup_names (dir_entries (fst (limpar_backups_antigos w4 ?d (manter a) (Some ?lg))) D))
    \<and> length (backup_names (dir_entries (fst (limpar_backups_antigos w4 ?d (manter a) (Some ?lg))) D))
        = min (Suc (length (backup_names es))) (nat (manter a))"
    using prune_after_new_archive [OF rd4 es4 _ xn dist old k] by blast
  have s4: "simple_dir w4 ?d D" and D4: "get (tree w4) D = Some (Dir t4 es4)"
    using rd4 by (auto simp: retention_dir_def)
  have "get (tree w4) (D @ [?x]) = Some (File c (clock w3))" using get_child [OF D4, of ?x] es4 by simp
  then have gs: "getsize w4 (arquivo_backup a st) = Inr (length c)"
    unfolding ab using file_child_stats [OF s4 xp] by blast
  have "main tarc gz w a st = Some (fst (limpar_backups_antigos w4 ?d (manter a) (Some ?lg)),
      fst (snd (the (main tarc gz w a st))), None)"
    using md cl ex md2 cs ok gs by (simp add: main_def Let_def finish_run_def case_prod_beta)
  then show ?thesis using pr unfolding xb by blast
qed

theorem main_success_prunes_witness:
  "\<exists>w5 outs. main toy_tar toy_gz ex_prune (ex_args\<lparr>manter := 2\<rparr>) ex_stamps = Some (w5, outs, None)
     \<and> ''backup_data_20260101_000001.tar.gz'' \<in> set (backup_names (dir_entries w5 [''home'', ''backups'']))
     \<and> length (backup_names (dir_entries w5 [''home'', ''backups''])) = 2"
proof -
  let ?a = "ex_args\<lparr>manter := 2\<rparr>" and ?D = "[''home'', ''backups'']"
  let ?w1 = "fst (makedirs ex_prune ''/home/backups/logs'' True)"
  let ?c = "configurar_logger ?w1 fresh_logger (Some ''/home/backups/logs/backup_20260101_000000.log'')"
  let ?w3 = "fst (makedirs (fst (projr ?c)) ''/home/backups'' True)"
  let ?lg = "if verbose ?a then set_verbose (snd (projr ?c)) else snd (projr ?c)"
  let ?es = "[(''backup_data_20250101_000000.tar.gz'', File ''old1'' 1),
              (''backup_data_20250201_000000.tar.gz'', File ''old2'' 2), (''notes.txt'', File ''n'' 3),
              (''logs'', Dir 10 [(''backup_20260101_000000.log'', File [] 10)])]"
  let ?r = "comprimir_pasta toy_tar toy_gz ?w3 (pasta_origem ?a) (arquivo_backup ?a ex_stamps) (compressao ?a) (Some ?lg)"
  have j: "path_join (pasta_destino ?a) ''logs'' = ''/home/backups/logs''" by code_simp
  have lf: "log_file_name ?a ex_stamps = ''/home/backups/logs/backup_20260101_000000.log''" by code_simp
  have ab: "basename (arquivo_backup ?a ex_stamps) = ''backup_data_20260101_000001.tar.gz''" by code_simp
  have h0: "wf_node (tree ex_prune)" by code_simp
  have h1: "makedirs ex_prune (path_join (pasta_destino ?a) ''logs'') True = (?w1, None)" unfolding j by code_simp
  have h2: "configurar_logger ?w1 fresh_logger (Some (log_file_name ?a ex_stamps))
      = Inr (fst (projr ?c), snd (projr ?c))" unfolding lf by code_simp
  have h3: "exists (fst (projr ?c)) (pasta_origem ?a)" by code_simp
  have h4: "makedirs (fst (projr ?c)) (pasta_destino ?a) True = (?w3, None)" by code_simp
  have h5: "retention_dir ?w3 (pasta_destino ?a) ?D 0 ?es" by code_simp
  have h6: "CHR ''/'' \<notin> set (arch_stamp ex_stamps)" by code_simp
  have h7: "get (tree ?w3) (?D @ [basename (arquivo_backup ?a ex_stamps)]) = None"
    "get (tree ?w3) (?D @ [basename (arquivo_backup ?a ex_stamps) @ ''.temp.tar'']) = None"
    unfolding ab by code_simp+
  have bn: "backup_names ?es = [''backup_data_20250101_000000.tar.gz'', ''backup_data_20250201_000000.tar.gz'']"
    by code_simp
  have ck: "clock ?w3 = 10" by code_simp
  have h8: "\<forall>n \<in> set (backup_names ?es). \<exists>c tm. map_of ?es n = Some (File c tm) \<and> tm < clock ?w3"
    unfolding bn ck by simp
  have h9: "?r = Some (fst (the ?r), fst (snd (the ?r)), True)" by code_simp
  have h10: "1 \<le> manter ?a" by simp
  have m: "length (backup_names ?es) = 2" unfolding bn by simp
  show ?thesis
    using main_success_prunes [OF h0 h1 h2 h3 h4 h5 h6 h7 h8 h9 h10] ab m by simp
qed


text \<open>
  C12: Every message of a run goes through the logger: \<open>main\<close> passes its logger to \<open>comprimir_pasta\<close> and \<open>limpar_backups_antigos\<close>, so their \<open>print\<close> fallbacks are never taken and every output record of a run is a logging record sent to a handler (the console stream or the log file), never a bare \<open>print\<close>.
\<close>

theorem main_no_print:
  assumes "main tarc gz w a st = Some (w', outs, e)"
  shows "Print ev \<notin> set outs"
proof -
  have "no_print outs"
    using assms comprimir_no_print finish_run_no_print
    by (auto simp: main_def Let_def bind_eq_Some_conv case_prod_beta
        split: option.splits prod.splits sum.splits if_splits)
  then show ?thesis by (auto simp: no_print_def list_all_iff)
qed

theorem main_no_print_witness:
  "Print (EvBackupCreatedPlain ''/home/backups/backup_data_20260101_000001.tar.gz'')
     \<notin> set (fst (snd (the (main toy_tar toy_gz ex_home ex_args ex_stamps))))"
proof -
  let ?r = "main toy_tar toy_gz ex_home ex_args ex_stamps"
  have h: "?r = Some (fst (the ?r), fst (snd (the ?r)), snd (snd (the ?r)))" by code_simp
  show ?thesis using main_no_print [OF h] .
qed


text \<open>
  C11: A run reaches its end whenever no exception escapes it: once the log is set up and the source exists, a run of \<open>main\<close> that returns without an uncaught exception, whether the backup succeeded or failed, has logged \<open>Processo de backup finalizado\<close> (line 245) to the console.
\<close>

theorem main_reaches_end:
  assumes md: "makedirs w (path_join (pasta_destino a) ''logs'') True = (w1, None)"
    and cl: "configurar_logger w1 fresh_logger (Some (log_file_name a st)) = Inr (w2, lg)"
    and ex: "exists w2 (pasta_origem a)"
    and r: "main tarc gz w a st = Some (w', outs, None)"
  shows "Emit Stderr INFO (EvRunEnd (run_end st)) \<in> set outs"
proof -
  let ?lg = "if verbose a then set_verbose lg else lg"
  have em: "Emit Stderr INFO (EvRunEnd (run_end st)) \<in> set (emit ?lg INFO (EvRunEnd (run_end st)))"
    using configurar_emits_stderr [OF cl, of INFO "EvRunEnd (run_end st)" "verbose a"] by simp
  from r md cl ex em show ?thesis
    by (auto simp: main_def Let_def bind_eq_Some_conv case_prod_beta split: prod.splits option.splits)
qed

theorem main_reaches_end_witness:
  "Emit Stderr INFO (EvRunEnd (run_end ex_stamps))
     \<in> set (fst (snd (the (main toy_tar toy_gz ex_home ex_args ex_stamps))))"
proof -
  let ?r = "main toy_tar toy_gz ex_home ex_args ex_stamps"
  let ?w1 = "fst (makedirs ex_home ''/home/backups/logs'' True)"
  let ?c = "configurar_logger ?w1 fresh_logger (Some ''/home/backups/logs/backup_20260101_000000.log'')"
  have j: "path_join (pasta_destino ex_args) ''logs'' = ''/home/backups/logs''" by code_simp
  have lf: "log_file_name ex_args ex_stamps = ''/home/backups/logs/backup_20260101_000000.log''" by code_simp
  have h1: "makedirs ex_home (path_join (pasta_destino ex_args) ''logs'') True = (?w1, None)" unfolding j by code_simp
  have h2: "configurar_logger ?w1 fresh_logger (Some (log_file_name ex_args ex_stamps))
      = Inr (fst (projr ?c), snd (projr ?c))" unfolding lf by code_simp
  have h3: "exists (fst (projr ?c)) (pasta_origem ex_args)" by code_simp
  have h4: "?r = Some (fst (the ?r), fst (snd (the ?r)), None)" by code_simp
  show ?thesis using main_reaches_end [OF h1 h2 h3 h4] by simp
qed

end
