(* ===== verification/Spec2Isabelle.thy ===== *)
theory Spec2Isabelle
  imports BackupMain
begin

text \<open>
  A model of \<open>src/backup.py\<close>, a script that compresses a directory into
  \<open>backup_<name>_<timestamp>.tar.gz\<close>, logs what it does and deletes the oldest such
  archives beyond a retain count. The script is a sequence of calls into Python's
  library (\<open>os\<close>, \<open>os.path\<close>, \<open>glob\<close>, \<open>shutil\<close>, \<open>gzip\<close>, \<open>logging\<close>); the model therefore
  has two layers.

  \<^bold>\<open>The library layer\<close> models the calls the script makes, following CPython 3.11:
  \<^item> \<open>Prelude\<close>: Python slicing (\<open>py_take\<close>, \<open>py_drop\<close> with negative indices),
    \<open>str.startswith\<close>, \<open>str.endswith\<close>, \<open>str.rfind\<close>, \<open>str.rstrip\<close>, \<open>str.split\<close>,
    \<open>str.join\<close>, and the list lemmas the components share.
  \<^item> \<open>PosixPath\<close>: \<open>os.path.join\<close>, \<open>split\<close>, \<open>basename\<close>, \<open>dirname\<close>,
    \<open>splitext\<close>, \<open>normpath\<close>, statement by statement.
  \<^item> \<open>FileSystem\<close>: the world the script acts on, a record of a directory tree
    (files with contents and modification times, directories, symbolic links), the
    current directory, a clock, the paths whose directories refuse changes or listing,
    and the free space. Path resolution follows symbolic links with a budget of
    40 links (Linux's \<open>MAXSYMLINKS\<close>; past it the call fails with \<open>ELOOP\<close>), which is
    the fuel of \<open>resolve\<close>: every call terminates. \<open>os.stat\<close>, \<open>lstat\<close>,
    \<open>os.path.exists\<close>, \<open>isdir\<close>, \<open>getsize\<close>, \<open>getmtime\<close>, \<open>os.scandir\<close>,
    \<open>os.remove\<close>, \<open>os.mkdir\<close> and opening and writing a file are operations on it,
    returning \<open>exc + _\<close>: an \<open>OSError\<close> with its errno is a value.
  \<^item> \<open>Glob\<close>: \<open>fnmatch.translate\<close> (into a token list, with the character-class
    parser of \<open>sre\<close>), matching, and \<open>glob.glob\<close> with its recursion over magic
    directory parts (terminating because each call's pattern is shorter).
  \<^item> \<open>Logging\<close>: the messages as a datatype, a logger with its level and handlers,
    level filtering, \<open>configurar_logger\<close> (lines 13--41) and the \<open>-v\<close> branch of
    \<open>main\<close>.

  \<^bold>\<open>The script layer\<close>, one theory per function of the script:
  \<^item> \<open>Retention\<close>: \<open>limpar_backups_antigos\<close> (lines 108--157) as
    \<open>limpar_backups_antigos w d k lg\<close>, returning the new world, the output records
    and the function's boolean result. Its parts are the pattern (\<open>backup_glob\<close>,
    line 123), the sort keys (\<open>mtime_keys\<close>, \<open>sort_by_mtime\<close>: Python's \<open>sorted\<close> is
    stable, as \<open>sort_key\<close>), the slice (\<open>files_to_remove\<close>, line 133) and the
    removal loop (\<open>remove_loop\<close>, lines 138--149). The lemmas show the retention law
    (exactly \<open>min m k\<close> archives remain for \<open>k \<ge> 1\<close>), that the oldest are the
    ones removed, that other entries are untouched, that a failing removal does not
    stop the loop, that an entry without a readable modification time aborts the whole
    step, and that a retain count of 0 removes nothing; that the glob of
    \<open>backup_*.tar.gz\<close>, through \<open>fnmatch.translate\<close> and the matcher, is equivalent to the
    reference test \<open>is_backup_name\<close> (\<open>startswith('backup_')\<close> and
    \<open>endswith('.tar.gz')\<close>, the two affixes being unable to overlap); and that the
    removal loop reports on each candidate once, in order. Their hypotheses are bundled in
    \<open>retention_dir\<close>: the backup directory is reached without symbolic links, its
    entries have distinct names without \<open>/\<close>, and it can be listed.
  \<^item> \<open>SizeAccounting\<close>: \<open>calcular_tamanho_diretorio\<close> (lines 249--257) as a
    \<open>partial_function (option)\<close> over a work list of directories, the order
    \<open>os.walk\<close> visits them in; it is proved total on every well-formed tree (the
    work list decreases in the multiset order of the sizes of the subtrees, links to
    directories being skipped as \<open>os.walk\<close> does) and equal to the sum of the file
    sizes on a tree without links. \<open>formatar_tamanho\<close> (lines 260--266) is the unit loop
    over reals: the unit chosen, and the unbounded value past TB.
  \<^item> \<open>Archiver\<close>: \<open>comprimir_pasta\<close> (lines 44--105) over the world, with the library
    calls it makes written after CPython 3.11: \<open>shutil.make_archive\<close> (the
    \<open>os.stat\<close> of \<open>root_dir\<close>), \<open>_make_tarball\<close> (\<open>os.makedirs\<close> of the archive's
    directory, then the walk of \<open>TarFile.add\<close> in sorted order, recording links and
    skipping the archive itself), the gzip copy and \<open>os.remove\<close>. The tar and gzip
    encodings are parameters \<open>tarc\<close> and \<open>gz\<close>: every lemma holds for all codecs. The
    tar walk is a \<open>partial_function (option)\<close> proved total on well-formed trees, as
    is \<open>os.makedirs\<close> (a \<open>function\<close> on ever shorter paths). The lemmas give the
    success case (the destination holds \<open>gz n (tarc ms)\<close> and the temporary file is
    gone), the failure of every source named without a directory part, and what a full
    disk leaves behind.
  \<^item> \<open>BackupMain\<close>: \<open>main\<close> (lines 160--246). The parsed arguments are the record
    \<open>args\<close> and the six readings of the clock the record \<open>stamps\<close>; an exception
    \<open>main\<close> does not catch ends the run and is part of its result. \<open>runs\<close> is the
    step relation of successive runs with the clock advancing between them; the
    invariant \<open>wf_node\<close> (every directory has distinct entries with plain names) holds
    along it, by rule induction over the preservation lemmas of every operation that
    changes the tree (\<open>mkdir\<close>, \<open>remove\<close>, \<open>open_write\<close>, \<open>write_bytes\<close>,
    \<open>makedirs\<close>, \<open>comprimir_pasta\<close>, \<open>limpar_backups_antigos\<close>, \<open>main\<close>).
    The composition of the components is shown by \<open>main_success_prunes\<close>: when the
    compression succeeds, the backup directory seen by the pruning is the one before the
    run plus the new archive, the newest, so the run keeps it and leaves
    \<open>min (m + 1) k\<close> archives. A run that returns without an exception reaches its final
    log record, and every output record of a run goes through the logger (the
    \<open>print\<close> fallbacks of the two helpers are unreachable from \<open>main\<close>).

  The component proofs share the child lemmas of \<open>FileSystem\<close>: for a directory
  \<open>d\<close> reached without links (\<open>simple_dir\<close>), the operations on \<open>d/n\<close> act on the
  node \<open>D @ [n]\<close> of the tree and leave the other entries alone. The root theory
  relates the archive's path to the pruning: its name matches the pattern, and it lies
  in the directory the pruning scans. Concrete worlds (\<open>ex_world\<close>,
  \<open>ex_home\<close>, \<open>ex_full\<close>, \<open>ex_src_world\<close>) run every lemma with hypotheses on an
  example, evaluated by \<open>code_simp\<close>.

  Bounds and fuel: path resolution has the 40-link budget of Linux; the walks of
  \<open>os.walk\<close> and \<open>TarFile.add\<close> are partial functions whose totality is a theorem,
  and \<open>main\<close>, which composes them, is proved to return on every well-formed world,
  so no fuel bounds them. Natural numbers stand for sizes and free space
  (Python's integers are unbounded; the free space is decreased by what is written,
  a write that does not fit being cut and raising \<open>ENOSPC\<close>).

  Not modelled: the command line (\<open>argparse\<close> is library code; its values are
  inputs), the text of log messages and the formatting of numbers and time stamps,
  the process exit code, the tar and gzip byte formats (abstract codecs), hard links,
  file permissions other than locked and unreadable directories and files, and
  concurrent runs (the relation \<open>runs\<close> is sequential, as the spec assumes).
\<close>


text \<open>
  C13: The archive a run creates is one of the archives the pruning of later runs counts, and its temporary tar file never is: the base name of \<open>arquivo_backup\<close> matches \<open>backup_*.tar.gz\<close> and is not hidden, so it is a backup name exactly when it is in the directory; the temporary name, ending in \<open>.temp.tar\<close>, never matches.
\<close>

theorem archive_counted_by_retention:
  assumes st: "CHR ''/'' \<notin> set (arch_stamp st)"
  shows "(basename (arquivo_backup a st) \<in> set (backup_names es) \<longleftrightarrow> basename (arquivo_backup a st) \<in> set (map fst es))
    \<and> basename (arquivo_backup a st) @ ''.temp.tar'' \<notin> set (backup_names es)"
proof -
  let ?m = "basename (normpath (pasta_origem a)) @ ''_'' @ arch_stamp st"
  let ?x = "''backup_'' @ ?m @ ''.tar.gz''"
  have ns: "CHR ''/'' \<notin> set ?x" using st basename_no_slash [of "normpath (pasta_origem a)"] by simp
  have bx: "basename (arquivo_backup a st) = ?x"
    unfolding arquivo_backup_def using ns by (simp add: basename_join)
  have nh: "\<not> is_hidden ?x" by (simp add: is_hidden_def)
  have "\<not> (\<exists>m. ?x @ ''.temp.tar'' = ''backup_'' @ m @ ''.tar.gz'')"
  proof
    assume "\<exists>m. ?x @ ''.temp.tar'' = ''backup_'' @ m @ ''.tar.gz''"
    then obtain m where "?x @ ''.temp.tar'' = ''backup_'' @ m @ ''.tar.gz''" by blast
    then have "last (?x @ ''.temp.tar'') = last (''backup_'' @ m @ ''.tar.gz'')" by simp
    then show False by simp
  qed
  with bx nh show ?thesis by (auto simp: backup_names_iff)
qed

theorem archive_counted_by_retention_witness:
  "basename (arquivo_backup ex_args ex_stamps) = ''backup_data_20260101_000001.tar.gz''
   \<and> ''backup_data_20260101_000001.tar.gz'' \<in> set (backup_names [(''backup_data_20260101_000001.tar.gz'', File [] 0)])
   \<and> ''backup_data_20260101_000001.tar.gz.temp.tar'' \<notin> set (backup_names [(''backup_data_20260101_000001.tar.gz.temp.tar'', File [] 0)])"
proof -
  have h: "CHR ''/'' \<notin> set (arch_stamp ex_stamps)" by code_simp
  have b: "basename (arquivo_backup ex_args ex_stamps) = ''backup_data_20260101_000001.tar.gz''" by code_simp
  show ?thesis
    using archive_counted_by_retention [OF h, of ex_args "[(''backup_data_20260101_000001.tar.gz'', File [] 0)]"]
      archive_counted_by_retention [OF h, of ex_args "[(''backup_data_20260101_000001.tar.gz.temp.tar'', File [] 0)]"]
      b by simp
qed


text \<open>
  C14: The archive path \<open>main\<close> builds splits back into the destination directory and the archive's name, and so does the name of its temporary tar file: both files are created in the directory that \<open>limpar_backups_antigos\<close> later scans, when the destination is given without a trailing slash and the time stamp has no slash.
\<close>

theorem arquivo_backup_split:
  assumes d: "pasta_destino a \<noteq> []" "\<not> py_endswith ''/'' (pasta_destino a)"
    and st: "CHR ''/'' \<notin> set (arch_stamp st)"
  shows "path_split (arquivo_backup a st)
      = (pasta_destino a, ''backup_'' @ basename (normpath (pasta_origem a)) @ ''_'' @ arch_stamp st @ ''.tar.gz'')
    \<and> dirname (arquivo_backup a st @ ''.temp.tar'') = pasta_destino a"
proof -
  let ?x = "''backup_'' @ basename (normpath (pasta_origem a)) @ ''_'' @ arch_stamp st @ ''.tar.gz''"
  have ns: "CHR ''/'' \<notin> set ?x" using st basename_no_slash [of "normpath (pasta_origem a)"] by simp
  have ab: "arquivo_backup a st = pasta_destino a @ CHR ''/'' # ?x"
    unfolding arquivo_backup_def using d by simp
  have "path_split (pasta_destino a @ CHR ''/'' # (?x @ ''.temp.tar'')) = (pasta_destino a, ?x @ ''.temp.tar'')"
    using path_split_dir_name [OF d, of "?x @ ''.temp.tar''"] ns by simp
  then show ?thesis
    using path_split_dir_name [OF d ns] ab by (simp add: dirname_def)
qed

theorem arquivo_backup_split_witness:
  "path_split (arquivo_backup ex_args ex_stamps) = (''/home/backups'', ''backup_data_20260101_000001.tar.gz'')
   \<and> dirname (arquivo_backup ex_args ex_stamps @ ''.temp.tar'') = ''/home/backups''"
proof -
  have h: "pasta_destino ex_args \<noteq> []" "\<not> py_endswith ''/'' (pasta_destino ex_args)"
    "CHR ''/'' \<notin> set (arch_stamp ex_stamps)" by code_simp+
  have b: "basename (normpath (pasta_origem ex_args)) = ''data''" "pasta_destino ex_args = ''/home/backups''"
    "arch_stamp ex_stamps = ''20260101_000001''" by code_simp+
  show ?thesis using arquivo_backup_split [OF h] b by simp
qed

end
